theory Spec2Isabelle
  imports Main
begin

section \<open>Values of the JavaScript program\<close>

text \<open>
  A value that the program throws, or rejects a promise with. \<open>JsError name message\<close> is an
  Error object (\<open>createCustomErrorClass name\<close> builds the class of the errors called
  \<open>name\<close>); \<open>ThrownString s\<close> is a plain string used as a rejection value, as
  \<open>coreSyncAccount\<close> does with \<open>reject(message)\<close>. A string has no \<open>message\<close> property.
\<close>

datatype js_error = JsError (err_name: string) (err_message: string) | ThrownString string

definition NoAddressesFound :: js_error where
  "NoAddressesFound = JsError ''NoAddressesFound'' ''''"

definition DisconnectedDevice :: "string \<Rightarrow> js_error" where
  "DisconnectedDevice m = JsError ''DisconnectedDevice'' m"

text \<open>
  The state of a promise when the program awaits it: resolved with a value, rejected with
  an error, or never settled (\<open>Pending\<close>: the await does not return). \<open>OutOfFuel\<close> is the
  model's own: the bound on the number of recursive calls was reached before the promise
  settled.
\<close>

datatype 'a promise = Resolved 'a | Rejected js_error | Pending | OutOfFuel

text \<open>\<open>haystack.indexOf(needle)\<close> on strings: the first position, or -1.\<close>

fun indexOf_from :: "int \<Rightarrow> string \<Rightarrow> string \<Rightarrow> int" where
  "indexOf_from i needle [] = (if needle = [] then i else -1)"
| "indexOf_from i needle (c # cs) =
     (if take (length needle) (c # cs) = needle then i else indexOf_from (i + 1) needle cs)"

definition indexOf :: "string \<Rightarrow> string \<Rightarrow> int" where
  "indexOf haystack needle = indexOf_from 0 needle haystack"

text \<open>\<open>s.replace(pat, rep)\<close> with a string pattern: the first occurrence only.\<close>

fun replace_first :: "string \<Rightarrow> string \<Rightarrow> string \<Rightarrow> string" where
  "replace_first pat rep [] = (if pat = [] then rep else [])"
| "replace_first pat rep (c # cs) =
     (if take (length pat) (c # cs) = pat then rep @ drop (length pat) (c # cs)
      else c # replace_first pat rep cs)"

text \<open>A number in a template literal: its decimal digits.\<close>

fun string_of_nat :: "nat \<Rightarrow> string" where
  "string_of_nat n =
     (if n < 10 then [''0123456789'' ! n]
      else string_of_nat (n div 10) @ [''0123456789'' ! (n mod 10)])"

declare string_of_nat.simps [simp del]

section \<open>Currencies and the table of split currencies\<close>

text \<open>
  What the program reads of a currency of \<open>getCryptoCurrencyById\<close>: \<open>coinType\<close>,
  \<open>supportsSegwit\<close> and \<open>units[0].magnitude\<close>.
\<close>

record crypto_currency =
  cur_id :: string
  cur_coinType :: nat
  cur_supportsSegwit :: bool
  cur_magnitude :: nat

record split_config =
  sc_coinType :: nat

text \<open>
  The object literal \<open>SPLITTED_CURRENCIES\<close>, read at currency identifiers (none of which is
  the name of a property that every object inherits).
\<close>

definition SPLITTED_CURRENCIES :: "string \<Rightarrow> split_config option" where
  "SPLITTED_CURRENCIES =
     [''bitcoin_cash'' \<mapsto> \<lparr>sc_coinType = 0\<rparr>, ''bitcoin_gold'' \<mapsto> \<lparr>sc_coinType = 0\<rparr>]"

section \<open>The chain indexer's objects\<close>

datatype OPERATION_TYPES = SEND | RECEIVE | OTHER_TYPE nat

datatype OperationType = OUT | IN

text \<open>
  An \<open>NJSOperation\<close>, by what the program reads of it. Amounts and fees are the integers
  that \<open>toLong()\<close> returns; dates are milliseconds since the epoch.
\<close>

record njs_operation =
  op_hash :: string
  op_operationType :: OPERATION_TYPES
  op_amount :: int
  op_fees :: int
  op_senders :: "string list"
  op_recipients :: "string list"
  op_blockHeight :: "int option"
  op_date :: int

record njs_address =
  addr_str :: string
  addr_derivationPath :: string

datatype EVENT_CODE =
    UNDEFINED
  | SYNCHRONIZATION_FAILED
  | SYNCHRONIZATION_SUCCEED
  | SYNCHRONIZATION_SUCCEED_ON_PREVIOUSLY_EMPTY_ACCOUNT
  | NEW_OPERATION
  | NEW_BLOCK

text \<open>
  An event of a synchronization: its code and the string its payload holds under
  \<open>EV_SYNC_ERROR_MESSAGE\<close> (\<open>None\<close> when there is no payload or no such string).
\<close>

record njs_event =
  ev_code :: EVENT_CODE
  ev_error_message :: "string option"

text \<open>
  An \<open>NJSAccount\<close>, by what the program reads of it: the restore key (the extended public
  key), the balance, the height of the last block, the fresh addresses, the operations that
  the complete query returns, and the events that \<open>synchronize()\<close> sends to a subscriber,
  in order.
\<close>

record njs_account =
  acc_restoreKey :: string
  acc_balance :: int
  acc_lastBlockHeight :: int
  acc_freshPublicAddresses :: "njs_address list"
  acc_operations :: "njs_operation list"
  acc_syncEvents :: "njs_event list"

section \<open>The records the program produces\<close>

record operation_raw =
  or_id :: string
  or_hash :: string
  or_type :: "OperationType option"
  or_value :: int
  or_fee :: int
  or_senders :: "string list"
  or_recipients :: "string list"
  or_blockHeight :: "int option"
  or_blockHash :: "string option"
  or_accountId :: string
  or_date :: int

text \<open>
  The account identifier. \<open>helpers/accountId\<close> is not among the sources.
  Modelled from the spec: the identifier is derived from the schema version, the source
  tag, the extended public key and the wallet name, and decodes back to these fields; so
  the identifier is the record of its fields, \<open>encode\<close> and \<open>decode\<close> being the identity.
\<close>

record account_id =
  id_type :: string
  id_version :: string
  id_xpub :: string
  id_walletName :: string

record account_raw =
  ar_id :: account_id
  ar_xpub :: string
  ar_path :: "string option"
  ar_name :: string
  ar_isSegwit :: bool
  ar_freshAddress :: string
  ar_freshAddressPath :: string
  ar_balance :: int
  ar_blockHeight :: int
  ar_archived :: bool
  ar_index :: nat
  ar_operations :: "operation_raw list"
  ar_pendingOperations :: "operation_raw list"
  ar_currencyId :: string
  ar_unitMagnitude :: nat
  ar_lastSyncDate :: int

section \<open>buildOperationRaw\<close>

definition OperationTypeMap :: "OPERATION_TYPES \<Rightarrow> OperationType option" where
  "OperationTypeMap = [SEND \<mapsto> OUT, RECEIVE \<mapsto> IN]"

text \<open>
  The amount and the fee are the numbers \<open>toLong()\<close> returns: JavaScript numbers, that is
  double-precision floating point numbers, whose values are integers here. \<open>value += fee\<close>
  is the addition of two such numbers: the exact sum, rounded to the nearest number that a
  double can hold, to the one with the even significand when two are equally near. An
  integer of absolute value below \<open>2 ^ 53 = 9007199254740992\<close> is held exactly; a larger one
  is held with the 53 leading binary digits that \<open>to_double\<close> keeps. (The amounts of the
  indexer are 64-bit integers, so a sum stays far from the largest double.) \<open>blockHash\<close> is
  always \<open>null\<close>.
\<close>

function bit_length :: "int \<Rightarrow> nat" where
  "bit_length n = (if n \<le> 0 then 0 else Suc (bit_length (n div 2)))"
  by pat_completeness auto
termination by (relation "measure nat") auto

declare bit_length.simps [simp del]

definition to_double :: "int \<Rightarrow> int" where
  "to_double n =
     (let m = \<bar>n\<bar> in
      if m < 9007199254740992 then n
      else (let ulp = 2 ^ (bit_length m - 53);
                q = m div ulp;
                r = m mod ulp;
                q' = (if 2 * r > ulp \<or> (2 * r = ulp \<and> odd q) then q + 1 else q)
            in sgn n * (q' * ulp)))"

definition number_add :: "int \<Rightarrow> int \<Rightarrow> int" where
  "number_add a b = to_double (a + b)"

text \<open>An operation type in a template literal; a missing one prints as \<open>undefined\<close>.\<close>

fun type_string :: "OperationType option \<Rightarrow> string" where
  "type_string (Some OUT) = ''OUT''"
| "type_string (Some IN) = ''IN''"
| "type_string None = ''undefined''"

definition operation_id :: "string \<Rightarrow> string \<Rightarrow> OperationType option \<Rightarrow> string" where
  "operation_id xpub hash ty = xpub @ ''-'' @ hash @ ''-'' @ type_string ty"

definition buildOperationRaw :: "string \<Rightarrow> njs_operation \<Rightarrow> operation_raw" where
  "buildOperationRaw xpub op =
     (let hash = op_hash op;
          operationType = op_operationType op;
          value0 = op_amount op;
          fee = op_fees op;
          ty = OperationTypeMap operationType;
          value1 = (if ty = Some OUT then number_add value0 fee else value0)
      in \<lparr> or_id = operation_id xpub hash ty,
           or_hash = hash,
           or_type = ty,
           or_value = value1,
           or_fee = fee,
           or_senders = op_senders op,
           or_recipients = op_recipients op,
           or_blockHeight = op_blockHeight op,
           or_blockHash = None,
           or_accountId = xpub,
           or_date = op_date op \<rparr>)"

section \<open>Collaborators: device transport, wallets, environment\<close>

record hw_key =
  hk_publicKey :: string
  hk_chainCode :: string

text \<open>
  An open transport to the device, by what the program does with it: the application
  object \<open>new Btc(transport)\<close> asks it for the public key and chain code at a derivation
  path, and \<open>close()\<close> may reject (\<open>Some e\<close>).
\<close>

record transport =
  t_getWalletPublicKey :: "string \<Rightarrow> hw_key promise"
  t_close :: "js_error option"

text \<open>
  A wallet of the indexer's pool: its name, its currency, the configuration it was created
  with and its accounts by index.
\<close>

record njs_wallet =
  w_name :: string
  w_currency :: string
  w_config :: "(string \<times> string) list"
  w_accounts :: "(nat \<times> njs_account) list"

record account_creation_info =
  ci_index :: nat
  ci_derivations :: "string list"
  ci_publicKeys :: "string list"
  ci_chainCodes :: "string list"

record extended_key_account_creation_info =
  ei_index :: nat
  ei_extendedKeys :: "string list"

text \<open>
  What the program takes from outside \<open>libcore.js\<close> and \<open>deviceAccess.js\<close>: the constants
  of \<open>config/constants\<close>, the currency table, the helpers of \<open>helpers/bip32\<close>,
  \<open>helpers/accountName\<close> and \<open>helpers/errors\<close> (\<open>deserializeError\<close> after \<open>JSON.parse\<close>,
  \<open>None\<close> when either throws), the outcome of each attempt to open the device, and the
  indexer: its currencies, the derivation paths of an account, the index of the next
  account of a wallet, and the account that a creation request yields. The theorems hold
  for every such environment.
\<close>

record env =
  SHOW_LEGACY_NEW_ACCOUNT :: bool
  DEBUG_DEVICE :: bool
  getCryptoCurrencyById :: "string \<Rightarrow> crypto_currency option"
  isSegwitAccount :: "account_raw \<Rightarrow> bool"
  isUnsplitAccount :: "account_raw \<Rightarrow> split_config option \<Rightarrow> bool"
  getAccountPlaceholderName :: "crypto_currency \<Rightarrow> nat \<Rightarrow> bool \<Rightarrow> bool \<Rightarrow> string"
  getNewAccountPlaceholderName :: "crypto_currency \<Rightarrow> nat \<Rightarrow> string"
  deserializeError :: "string \<Rightarrow> js_error option"
  TransportNodeHid_open :: "string \<Rightarrow> nat \<Rightarrow> transport promise"
  pool_getCurrency :: "string \<Rightarrow> string promise"
  keychain_derivations :: "string \<Rightarrow> (string \<times> string) list \<Rightarrow> nat \<Rightarrow> string list"
  nextAccountIndex :: "njs_wallet \<Rightarrow> nat"
  indexer_newAccountWithInfo :: "njs_wallet \<Rightarrow> account_creation_info \<Rightarrow> njs_account promise"
  indexer_newAccountWithExtendedKeyInfo ::
    "njs_wallet \<Rightarrow> extended_key_account_creation_info \<Rightarrow> njs_account promise"

datatype warning = HaveToReimport js_error | HaveToRecreate js_error

text \<open>
  The state the program acts on: the indexer's pool of wallets, the event receivers that
  are subscribed to an event bus, the calls of \<open>onAccountScanned\<close>, the warnings logged,
  the device (how often \<open>open\<close> was called, how many transports were opened and how many
  \<open>close()\<close> calls were made, the debug mode, the \<open>busy\<close> flag) and the clock. \<open>probed\<close>
  lists the accounts that a scan obtained from the wallet, each with the index it was
  obtained at.
\<close>

record world =
  pool :: "njs_wallet list"
  next_receiver :: nat
  subscribed :: "nat list"
  scanned :: "account_raw list"
  probed :: "(nat \<times> njs_account) list"
  warnings :: "warning list"
  open_calls :: nat
  opened :: nat
  close_calls :: nat
  debug_mode :: bool
  busy :: bool
  now :: int

text \<open>\<open>await r k\<close>: the rest \<open>k\<close> of an async function runs when \<open>r\<close> resolves.\<close>

definition await ::
  "'a promise \<times> 's \<Rightarrow> ('a \<Rightarrow> 's \<Rightarrow> 'b promise \<times> 's) \<Rightarrow> 'b promise \<times> 's" where
  "await r k =
     (case r of
        (Resolved a, s) \<Rightarrow> k a s
      | (Rejected e, s) \<Rightarrow> (Rejected e, s)
      | (Pending, s) \<Rightarrow> (Pending, s)
      | (OutOfFuel, s) \<Rightarrow> (OutOfFuel, s))"

section \<open>deviceAccess.js\<close>

definition mapError :: "js_error \<Rightarrow> js_error" where
  "mapError e =
     (case e of
        JsError n m \<Rightarrow> if m \<noteq> [] \<and> indexOf m ''HID'' \<ge> 0 then DisconnectedDevice m else e
      | ThrownString s \<Rightarrow> e)"

text \<open>
  \<open>helpers/promise\<close> is not among the sources.
  Modelled from the spec: \<open>retry f {maxRetry}\<close> runs \<open>f\<close>; when it fails and a retry is left,
  it runs \<open>f\<close> again (after a fixed delay, which the model leaves out) with one retry
  fewer; the last failure is the result.
\<close>

fun retry :: "nat \<Rightarrow> ('s \<Rightarrow> 'a promise \<times> 's) \<Rightarrow> 's \<Rightarrow> 'a promise \<times> 's" where
  "retry 0 f s = f s"
| "retry (Suc n) f s = (case f s of (Rejected e, s') \<Rightarrow> retry n f s' | r \<Rightarrow> r)"

definition open_transport :: "env \<Rightarrow> string \<Rightarrow> world \<Rightarrow> transport promise \<times> world" where
  "open_transport env devicePath w =
     (let r = TransportNodeHid_open env devicePath (open_calls w);
          w' = w\<lparr>open_calls := open_calls w + 1\<rparr>
      in case r of
           Resolved t \<Rightarrow> (Resolved t, w'\<lparr>opened := opened w' + 1\<rparr>)
         | _ \<Rightarrow> (r, w'))"

definition close_transport :: "transport \<Rightarrow> world \<Rightarrow> js_error option \<times> world" where
  "close_transport t w = (t_close t, w\<lparr>close_calls := close_calls w + 1\<rparr>)"

text \<open>
  \<open>withDevice(devicePath)(job)\<close>. The queue runs the jobs one after the other; the model
  is the function that the queue runs for one job. A job that does not settle leaves the
  transport open and the flag set.
\<close>

definition withDevice ::
  "env \<Rightarrow> string \<Rightarrow> (transport \<Rightarrow> world \<Rightarrow> 'a promise \<times> world) \<Rightarrow> world \<Rightarrow> 'a promise \<times> world" where
  "withDevice env devicePath job w0 =
     (let w1 = w0\<lparr>busy := True\<rparr> in
      case retry 1 (open_transport env devicePath) w1 of
        (Resolved t, w2) \<Rightarrow>
          (let w3 = (if DEBUG_DEVICE env then w2\<lparr>debug_mode := True\<rparr> else w2) in
           case job t w3 of
             (Pending, w4) \<Rightarrow> (Pending, w4)
           | (OutOfFuel, w4) \<Rightarrow> (OutOfFuel, w4)
           | (r, w4) \<Rightarrow>
               (let res = (case r of Rejected e \<Rightarrow> Rejected (mapError e) | _ \<Rightarrow> r) in
                case close_transport t w4 of
                  (Some e, w5) \<Rightarrow> (Rejected e, w5\<lparr>busy := False\<rparr>)
                | (None, w5) \<Rightarrow> (res, w5\<lparr>busy := False\<rparr>)))
      | (Rejected e, w2) \<Rightarrow> (Rejected e, w2\<lparr>busy := False\<rparr>)
      | (Pending, w2) \<Rightarrow> (Pending, w2)
      | (OutOfFuel, w2) \<Rightarrow> (OutOfFuel, w2))"

section \<open>libcore.js: wallets\<close>

definition encodeWalletName :: "string \<Rightarrow> string \<Rightarrow> bool \<Rightarrow> bool \<Rightarrow> string" where
  "encodeWalletName publicKey currencyId isSegwit isUnsplit =
     (let splitConfig = (if isUnsplit then SPLITTED_CURRENCIES currencyId else None)
      in publicKey @ ''__'' @ currencyId @ (if isSegwit then ''_segwit'' else [])
           @ (if splitConfig \<noteq> None then ''_unsplit'' else []))"

definition pool_getWallet :: "string \<Rightarrow> world \<Rightarrow> njs_wallet promise" where
  "pool_getWallet name w =
     (case find (\<lambda>wl. w_name wl = name) (pool w) of
        Some wl \<Rightarrow> Resolved wl
      | None \<Rightarrow> Rejected (JsError ''WALLET_NOT_FOUND'' name))"

text \<open>The pool keeps the current value of a wallet under the wallet's name.\<close>

definition store_wallet :: "njs_wallet \<Rightarrow> world \<Rightarrow> world" where
  "store_wallet wl w =
     w\<lparr>pool := (if find (\<lambda>x. w_name x = w_name wl) (pool w) = None then pool w @ [wl]
                else map (\<lambda>x. if w_name x = w_name wl then wl else x) (pool w))\<rparr>"

definition pool_createWallet ::
  "string \<Rightarrow> string \<Rightarrow> (string \<times> string) list \<Rightarrow> world \<Rightarrow> njs_wallet promise \<times> world" where
  "pool_createWallet name currency config w =
     (let wl = \<lparr>w_name = name, w_currency = currency, w_config = config, w_accounts = []\<rparr>
      in (Resolved wl, store_wallet wl w))"

definition getOrCreateWallet ::
  "env \<Rightarrow> string \<Rightarrow> string \<Rightarrow> bool \<Rightarrow> bool \<Rightarrow> world \<Rightarrow> njs_wallet promise \<times> world" where
  "getOrCreateWallet env WALLET_IDENTIFIER currencyId isSegwit isUnsplit w =
     (case pool_getWallet WALLET_IDENTIFIER w of
        Resolved wallet \<Rightarrow> (Resolved wallet, w)
      | Pending \<Rightarrow> (Pending, w)
      | OutOfFuel \<Rightarrow> (OutOfFuel, w)
      | Rejected err \<Rightarrow>
          await (pool_getCurrency env currencyId, w) (\<lambda>currency w.
            let splitConfig = (if isUnsplit then SPLITTED_CURRENCIES currencyId else None);
                coinType = (case splitConfig of
                              Some c \<Rightarrow> string_of_nat (sc_coinType c)
                            | None \<Rightarrow> ''<coin_type>'');
                walletConfig =
                  (if isSegwit
                   then [(''KEYCHAIN_ENGINE'', ''BIP49_P2SH''),
                         (''KEYCHAIN_DERIVATION_SCHEME'',
                          ''49'/'' @ coinType @ '''/<account>'/<node>/<address>'')]
                   else if splitConfig \<noteq> None
                   then [(''KEYCHAIN_DERIVATION_SCHEME'',
                          ''44'/'' @ coinType @ '''/<account>'/<node>/<address>'')]
                   else [])
            in pool_createWallet WALLET_IDENTIFIER currency walletConfig w))"

definition wallet_getAccount :: "njs_wallet \<Rightarrow> nat \<Rightarrow> njs_account promise" where
  "wallet_getAccount wallet i =
     (case map_of (w_accounts wallet) i of
        Some a \<Rightarrow> Resolved a
      | None \<Rightarrow> Rejected (JsError ''ACCOUNT_NOT_FOUND'' (string_of_nat i)))"

definition wallet_getAccountCreationInfo :: "env \<Rightarrow> njs_wallet \<Rightarrow> nat \<Rightarrow> account_creation_info" where
  "wallet_getAccountCreationInfo env wallet i =
     \<lparr>ci_index = i,
      ci_derivations = keychain_derivations env (w_currency wallet) (w_config wallet) i,
      ci_publicKeys = [], ci_chainCodes = []\<rparr>"

definition wallet_getNextAccountCreationInfo :: "env \<Rightarrow> njs_wallet \<Rightarrow> account_creation_info" where
  "wallet_getNextAccountCreationInfo env wallet =
     wallet_getAccountCreationInfo env wallet (nextAccountIndex env wallet)"

text \<open>A new account is kept by the wallet, and so by the pool, under the index of the request.\<close>

definition add_account :: "njs_wallet \<Rightarrow> nat \<Rightarrow> njs_account \<Rightarrow> njs_wallet" where
  "add_account wallet i a = wallet\<lparr>w_accounts := w_accounts wallet @ [(i, a)]\<rparr>"

definition wallet_newAccountWithInfo ::
  "env \<Rightarrow> njs_wallet \<Rightarrow> account_creation_info \<Rightarrow> world \<Rightarrow> (njs_account \<times> njs_wallet) promise \<times> world" where
  "wallet_newAccountWithInfo env wallet info w =
     await (indexer_newAccountWithInfo env wallet info, w) (\<lambda>a w.
       let wallet' = add_account wallet (ci_index info) a
       in (Resolved (a, wallet'), store_wallet wallet' w))"

definition wallet_newAccountWithExtendedKeyInfo ::
  "env \<Rightarrow> njs_wallet \<Rightarrow> extended_key_account_creation_info \<Rightarrow> world
     \<Rightarrow> (njs_account \<times> njs_wallet) promise \<times> world" where
  "wallet_newAccountWithExtendedKeyInfo env wallet info w =
     await (indexer_newAccountWithExtendedKeyInfo env wallet info, w) (\<lambda>a w.
       let wallet' = add_account wallet (ei_index info) a
       in (Resolved (a, wallet'), store_wallet wallet' w))"

text \<open>
  The \<open>reduce\<close> of \<open>createAccount\<close>: one device call per derivation path, in order, each
  after the one before has resolved. The keys are kept as the hexadecimal strings that the
  device returns (\<open>hexToBytes\<close> turns each into its bytes).
\<close>

fun fetch_keys ::
  "transport \<Rightarrow> string list \<Rightarrow> account_creation_info \<Rightarrow> account_creation_info promise" where
  "fetch_keys hwApp [] info = Resolved info"
| "fetch_keys hwApp (derivation # ds) info =
     (case t_getWalletPublicKey hwApp derivation of
        Resolved k \<Rightarrow>
          fetch_keys hwApp ds
            (info\<lparr>ci_publicKeys := ci_publicKeys info @ [hk_publicKey k],
                  ci_chainCodes := ci_chainCodes info @ [hk_chainCode k]\<rparr>)
      | Rejected e \<Rightarrow> Rejected e
      | Pending \<Rightarrow> Pending
      | OutOfFuel \<Rightarrow> OutOfFuel)"

definition createAccount ::
  "env \<Rightarrow> njs_wallet \<Rightarrow> transport \<Rightarrow> world \<Rightarrow> (njs_account \<times> njs_wallet) promise \<times> world" where
  "createAccount env wallet hwApp w =
     (let accountCreationInfos = wallet_getNextAccountCreationInfo env wallet
      in await (fetch_keys hwApp (ci_derivations accountCreationInfos) accountCreationInfos, w)
           (\<lambda>infos w. wallet_newAccountWithInfo env wallet infos w))"

section \<open>libcore.js: synchronization\<close>

text \<open>The value that the receiver of \<open>coreSyncAccount\<close> rejects with on a failure event.\<close>

definition sync_error :: "env \<Rightarrow> njs_event \<Rightarrow> js_error" where
  "sync_error env e =
     (let message =
            replace_first '' (EC_PRIV_KEY_INVALID_FORMAT)'' []
              (case ev_error_message e of
                 Some m \<Rightarrow> if m = [] then ''Sync failed'' else m
               | None \<Rightarrow> ''Sync failed'')
      in case deserializeError env message of
           Some err \<Rightarrow> err
         | None \<Rightarrow> ThrownString message)"

text \<open>
  The receiver, run on the events in order. The first event that resolves or rejects
  settles the promise; with none of them the promise stays pending. The value resolved
  with is the function that unsubscribes the receiver \<open>r\<close>.
\<close>

definition unsubscribe :: "nat \<Rightarrow> world \<Rightarrow> world" where
  "unsubscribe r w = w\<lparr>subscribed := removeAll r (subscribed w)\<rparr>"

fun receive_events :: "env \<Rightarrow> nat \<Rightarrow> njs_event list \<Rightarrow> (world \<Rightarrow> world) promise" where
  "receive_events env r [] = Pending"
| "receive_events env r (e # es) =
     (let code = ev_code e in
      if code = UNDEFINED \<or> code = SYNCHRONIZATION_FAILED then Rejected (sync_error env e)
      else if code = SYNCHRONIZATION_SUCCEED
                \<or> code = SYNCHRONIZATION_SUCCEED_ON_PREVIOUSLY_EMPTY_ACCOUNT
      then Resolved (unsubscribe r)
      else receive_events env r es)"

definition createEventReceiver :: "world \<Rightarrow> nat \<times> world" where
  "createEventReceiver w = (next_receiver w, w\<lparr>next_receiver := next_receiver w + 1\<rparr>)"

definition subscribeToEventBus :: "nat \<Rightarrow> world \<Rightarrow> world" where
  "subscribeToEventBus r w = w\<lparr>subscribed := subscribed w @ [r]\<rparr>"

definition coreSyncAccount ::
  "env \<Rightarrow> njs_account \<Rightarrow> world \<Rightarrow> (world \<Rightarrow> world) promise \<times> world" where
  "coreSyncAccount env account w =
     (let (eventReceiver, w1) = createEventReceiver w;
          events = acc_syncEvents account;
          w2 = subscribeToEventBus eventReceiver w1
      in (receive_events env eventReceiver events, w2))"

section \<open>libcore.js: buildAccountRaw\<close>

definition currency_not_found :: "string \<Rightarrow> js_error" where
  "currency_not_found currencyId = JsError ''Error'' (''currency not found: '' @ currencyId)"

text \<open>An element of an array that may be missing, in a template literal.\<close>

fun template_string :: "string option \<Rightarrow> string" where
  "template_string (Some s) = s"
| "template_string None = ''undefined''"

definition nth_opt :: "'a list \<Rightarrow> nat \<Rightarrow> 'a option" where
  "nth_opt xs i = (if i < length xs then Some (xs ! i) else None)"

text \<open>
  \<open>ops.sort((a, b) => b.getDate() - a.getDate())\<close>: by date, the latest first, operations of
  one date in the order they had.
\<close>

definition sort_operations :: "njs_operation list \<Rightarrow> njs_operation list" where
  "sort_operations ops = sort_key (\<lambda>op. - op_date op) ops"

text \<open>
  \<open>buildAccountRaw\<close> changes nothing; it reads the clock for \<open>lastSyncDate\<close>. An unknown
  currency identifier makes \<open>getCryptoCurrencyById\<close> throw.
\<close>

definition buildAccountRaw ::
  "env \<Rightarrow> njs_account \<Rightarrow> bool \<Rightarrow> bool \<Rightarrow> njs_wallet \<Rightarrow> string \<Rightarrow> nat \<Rightarrow> njs_operation list
     \<Rightarrow> world \<Rightarrow> account_raw promise" where
  "buildAccountRaw env njsAccount isSegwit isUnsplit wallet currencyId accountIndex ops w =
     (let balance = acc_balance njsAccount in
      case getCryptoCurrencyById env currencyId of
        None \<Rightarrow> Rejected (currency_not_found currencyId)
      | Some jsCurrency \<Rightarrow>
          (let derivations = ci_derivations (wallet_getAccountCreationInfo env wallet accountIndex);
               walletPath = nth_opt derivations 0;
               accountPath = nth_opt derivations 1;
               xpub = acc_restoreKey njsAccount;
               blockHeight = acc_lastBlockHeight njsAccount;
               rawAddresses = acc_freshPublicAddresses njsAccount;
               addresses =
                 map (\<lambda>njsAddress.
                        (addr_str njsAddress,
                         template_string accountPath @ ''/'' @ addr_derivationPath njsAddress))
                   rawAddresses
           in case addresses of
                [] \<Rightarrow> Rejected NoAddressesFound
              | (freshAddress, freshAddressPath) # _ \<Rightarrow>
                  (let operations = map (buildOperationRaw xpub) (sort_operations ops);
                       currency = jsCurrency;
                       name =
                         (if operations = []
                          then getNewAccountPlaceholderName env currency accountIndex
                          else getAccountPlaceholderName env currency accountIndex
                                 (cur_supportsSegwit currency \<and> \<not> isSegwit) isUnsplit)
                   in Resolved
                        \<lparr> ar_id = \<lparr>id_type = ''libcore'', id_version = ''1'', id_xpub = xpub,
                                   id_walletName = w_name wallet\<rparr>,
                          ar_xpub = xpub,
                          ar_path = walletPath,
                          ar_name = name,
                          ar_isSegwit = isSegwit,
                          ar_freshAddress = freshAddress,
                          ar_freshAddressPath = freshAddressPath,
                          ar_balance = balance,
                          ar_blockHeight = blockHeight,
                          ar_archived = False,
                          ar_index = accountIndex,
                          ar_operations = operations,
                          ar_pendingOperations = [],
                          ar_currencyId = currencyId,
                          ar_unitMagnitude = cur_magnitude jsCurrency,
                          ar_lastSyncDate = now w \<rparr>)))"

section \<open>libcore.js: scanning the accounts of a device\<close>

record scan_props =
  sp_wallet :: njs_wallet
  sp_hwApp :: transport
  sp_currencyId :: string
  sp_accountsCount :: nat
  sp_accountIndex :: nat
  sp_accounts :: "account_raw list"
  sp_isSegwit :: bool
  sp_isUnsplit :: bool
  sp_showNewAccount :: bool

definition onAccountScanned :: "account_raw \<Rightarrow> world \<Rightarrow> world" where
  "onAccountScanned account w = w\<lparr>scanned := scanned w @ [account]\<rparr>"

text \<open>
  \<open>scanNextAccount\<close>, with a bound on the number of calls. The wallet of the properties is
  the wallet's current value: a call that creates an account passes the wallet with the new
  account on.
\<close>

fun scanNextAccount ::
  "nat \<Rightarrow> env \<Rightarrow> scan_props \<Rightarrow> world \<Rightarrow> account_raw list promise \<times> world" where
  "scanNextAccount 0 env props w = (OutOfFuel, w)"
| "scanNextAccount (Suc fuel) env props w =
     (let wallet = sp_wallet props;
          hwApp = sp_hwApp props;
          currencyId = sp_currencyId props;
          accountsCount = sp_accountsCount props;
          accountIndex = sp_accountIndex props;
          accounts = sp_accounts props;
          isSegwit = sp_isSegwit props;
          isUnsplit = sp_isUnsplit props;
          showNewAccount = sp_showNewAccount props;
          hasBeenScanned = accountIndex < accountsCount
      in await (if hasBeenScanned
                then await (wallet_getAccount wallet accountIndex, w)
                       (\<lambda>a w. (Resolved (a, wallet), w))
                else createAccount env wallet hwApp w)
           (\<lambda>(njsAccount, wallet') w.
              let w = w\<lparr>probed := probed w @ [(accountIndex, njsAccount)]\<rparr>;
                  shouldSyncAccount = True
              in await (if shouldSyncAccount
                        then await (coreSyncAccount env njsAccount w) (\<lambda>unsub w. (Resolved (), w))
                        else (Resolved (), w))
                   (\<lambda>_ w.
                      let ops = acc_operations njsAccount
                      in await (buildAccountRaw env njsAccount isSegwit isUnsplit wallet'
                                  currencyId accountIndex ops w, w)
                           (\<lambda>account w.
                              let isEmpty = (ops = []);
                                  (accounts', w') =
                                    (if \<not> isEmpty \<or> showNewAccount
                                     then (accounts @ [account], onAccountScanned account w)
                                     else (accounts, w))
                              in if isEmpty then (Resolved accounts', w')
                                 else scanNextAccount fuel env
                                        (props\<lparr>sp_accountIndex := accountIndex + 1,
                                               sp_accounts := accounts',
                                               sp_wallet := wallet'\<rparr>) w'))))"

text \<open>
  What \<open>const { coinType } = ...\<close> takes the property from: the number
  \<open>customOpts.coinType\<close>, or the currency. A number has no property \<open>coinType\<close>.
\<close>

datatype destructured = NumberValue nat | CurrencyValue crypto_currency

fun get_coinType :: "destructured \<Rightarrow> nat option" where
  "get_coinType (NumberValue n) = None"
| "get_coinType (CurrencyValue c) = Some (cur_coinType c)"

fun template_nat :: "nat option \<Rightarrow> string" where
  "template_nat (Some n) = string_of_nat n"
| "template_nat None = ''undefined''"

definition apostrophe :: string where
  "apostrophe = [CHR 0x27]"

text \<open>The path that \<open>scanAccountsOnDeviceBySegwit\<close> asks the device's public key at.\<close>

definition walletPublicKeyPath :: "env \<Rightarrow> string \<Rightarrow> bool \<Rightarrow> bool \<Rightarrow> string promise" where
  "walletPublicKeyPath env currencyId isSegwit isUnsplit =
     (let customOpts =
            (if isUnsplit \<and> SPLITTED_CURRENCIES currencyId \<noteq> None
             then SPLITTED_CURRENCIES currencyId else None)
      in case (case customOpts of
                 Some c \<Rightarrow> Some (NumberValue (sc_coinType c))
               | None \<Rightarrow> map_option CurrencyValue (getCryptoCurrencyById env currencyId)) of
           None \<Rightarrow> Rejected (currency_not_found currencyId)
         | Some v \<Rightarrow>
             (let coinType = get_coinType v
              in Resolved ((if isSegwit then ''49'' else ''44'') @ apostrophe @ ''/''
                             @ template_nat coinType @ apostrophe)))"

definition scanAccountsOnDeviceBySegwit ::
  "nat \<Rightarrow> env \<Rightarrow> transport \<Rightarrow> string \<Rightarrow> bool \<Rightarrow> bool \<Rightarrow> bool \<Rightarrow> world
     \<Rightarrow> account_raw list promise \<times> world" where
  "scanAccountsOnDeviceBySegwit fuel env hwApp currencyId isSegwit isUnsplit showNewAccount w =
     await (walletPublicKeyPath env currencyId isSegwit isUnsplit, w) (\<lambda>path w.
       await (t_getWalletPublicKey hwApp path, w) (\<lambda>key w.
         let walletName = encodeWalletName (hk_publicKey key) currencyId isSegwit isUnsplit
         in await (getOrCreateWallet env walletName currencyId isSegwit isUnsplit w) (\<lambda>wallet w.
              let accountsCount = length (w_accounts wallet)
              in scanNextAccount fuel env
                   \<lparr> sp_wallet = wallet, sp_hwApp = hwApp, sp_currencyId = currencyId,
                     sp_accountsCount = accountsCount, sp_accountIndex = 0, sp_accounts = [],
                     sp_isSegwit = isSegwit, sp_isUnsplit = isUnsplit,
                     sp_showNewAccount = showNewAccount \<rparr> w)))"

text \<open>The job that \<open>scanAccountsOnDevice\<close> runs on the open transport.\<close>

definition scanAccountsOnDevice_job ::
  "nat \<Rightarrow> env \<Rightarrow> string \<Rightarrow> crypto_currency \<Rightarrow> transport \<Rightarrow> world
     \<Rightarrow> account_raw list promise \<times> world" where
  "scanAccountsOnDevice_job fuel env currencyId currency transport w =
     (let hwApp = transport;
          allAccounts = []
      in await (scanAccountsOnDeviceBySegwit fuel env hwApp currencyId False False
                  (SHOW_LEGACY_NEW_ACCOUNT env \<or> \<not> cur_supportsSegwit currency) w)
           (\<lambda>nonSegwitAccounts w.
              let allAccounts = allAccounts @ nonSegwitAccounts
              in await (if cur_supportsSegwit currency
                        then await (scanAccountsOnDeviceBySegwit fuel env hwApp currencyId
                                      True False True w)
                               (\<lambda>segwitAccounts w. (Resolved (allAccounts @ segwitAccounts), w))
                        else (Resolved allAccounts, w))
                   (\<lambda>allAccounts w.
                      if SPLITTED_CURRENCIES currencyId \<noteq> None
                      then await (scanAccountsOnDeviceBySegwit fuel env hwApp currencyId
                                    False True False w)
                             (\<lambda>splittedAccounts w.
                                let allAccounts = allAccounts @ splittedAccounts
                                in if cur_supportsSegwit currency
                                   then await (scanAccountsOnDeviceBySegwit fuel env hwApp
                                                 currencyId True True False w)
                                          (\<lambda>segwitAccounts w.
                                             (Resolved (allAccounts @ segwitAccounts), w))
                                   else (Resolved allAccounts, w))
                      else (Resolved allAccounts, w))))"

definition scanAccountsOnDevice ::
  "nat \<Rightarrow> env \<Rightarrow> string \<Rightarrow> string \<Rightarrow> world \<Rightarrow> account_raw list promise \<times> world" where
  "scanAccountsOnDevice fuel env devicePath currencyId w =
     (case getCryptoCurrencyById env currencyId of
        None \<Rightarrow> (Rejected (currency_not_found currencyId), w)
      | Some currency \<Rightarrow>
          withDevice env devicePath (scanAccountsOnDevice_job fuel env currencyId currency) w)"

section \<open>libcore.js: syncAccount\<close>

text \<open>
  The warnings \<open>syncAccount\<close> logs are recorded in the state; the informational
  \<open>logger.log\<close> at its end changes nothing a caller can see and is left out.
\<close>

definition logger_warn :: "warning \<Rightarrow> world \<Rightarrow> world" where
  "logger_warn x w = w\<lparr>warnings := warnings w @ [x]\<rparr>"

definition syncAccount :: "env \<Rightarrow> account_raw \<Rightarrow> world \<Rightarrow> account_raw promise \<times> world" where
  "syncAccount env rawAccount w =
     (let decodedAccountId = ar_id rawAccount;
          isSegwit = isSegwitAccount env rawAccount;
          isUnsplit =
            isUnsplitAccount env rawAccount (SPLITTED_CURRENCIES (ar_currencyId rawAccount))
      in await (case pool_getWallet (id_walletName decodedAccountId) w of
                  Rejected e \<Rightarrow>
                    getOrCreateWallet env (id_walletName decodedAccountId)
                      (ar_currencyId rawAccount) isSegwit isUnsplit
                      (logger_warn (HaveToReimport e) w)
                | r \<Rightarrow> (r, w))
           (\<lambda>njsWallet w.
              await (case wallet_getAccount njsWallet (ar_index rawAccount) of
                       Rejected e \<Rightarrow>
                         (let w = logger_warn (HaveToRecreate e) w;
                              extendedInfos =
                                \<lparr>ei_index = ar_index rawAccount, ei_extendedKeys = []\<rparr>;
                              extendedInfos =
                                extendedInfos\<lparr>ei_extendedKeys :=
                                  ei_extendedKeys extendedInfos @ [id_xpub decodedAccountId]\<rparr>
                          in wallet_newAccountWithExtendedKeyInfo env njsWallet extendedInfos w)
                     | Resolved a \<Rightarrow> (Resolved (a, njsWallet), w)
                     | Pending \<Rightarrow> (Pending, w)
                     | OutOfFuel \<Rightarrow> (OutOfFuel, w))
                (\<lambda>(njsAccount, njsWallet) w.
                   await (coreSyncAccount env njsAccount w) (\<lambda>unsub w.
                     let w = unsub w;
                         ops = acc_operations njsAccount;
                         njsBalance = acc_balance njsAccount
                     in await (buildAccountRaw env njsAccount isSegwit isUnsplit njsWallet
                                 (ar_currencyId rawAccount) (ar_index rawAccount) ops w, w)
                          (\<lambda>syncedRawAccount w.
                             (Resolved (syncedRawAccount\<lparr>ar_balance := njsBalance\<rparr>), w))))))"

section \<open>The discovery passes, in the words of the specification\<close>

text \<open>
  A pass is given by \<open>(isSegwit, isUnsplit, showNewAccount)\<close>. The passes of a currency:
  the legacy pass; a segwit pass if the currency supports segwit; for a split currency an
  unsplit legacy pass and, if the currency supports segwit, an unsplit segwit pass.
\<close>

definition discovery_passes :: "bool \<Rightarrow> bool \<Rightarrow> bool \<Rightarrow> (bool \<times> bool \<times> bool) list" where
  "discovery_passes showLegacyNewAccount supportsSegwit isSplit =
     [(False, False, showLegacyNewAccount \<or> \<not> supportsSegwit)]
     @ (if supportsSegwit then [(True, False, True)] else [])
     @ (if isSplit
        then [(False, True, False)] @ (if supportsSegwit then [(True, True, False)] else [])
        else [])"

text \<open>The passes run one after the other; the result lists the result of each.\<close>

fun run_passes ::
  "nat \<Rightarrow> env \<Rightarrow> transport \<Rightarrow> string \<Rightarrow> (bool \<times> bool \<times> bool) list \<Rightarrow> world
     \<Rightarrow> account_raw list list promise \<times> world" where
  "run_passes fuel env hwApp currencyId [] w = (Resolved [], w)"
| "run_passes fuel env hwApp currencyId ((isSegwit, isUnsplit, showNewAccount) # ps) w =
     await (scanAccountsOnDeviceBySegwit fuel env hwApp currencyId isSegwit isUnsplit
              showNewAccount w)
       (\<lambda>r w. await (run_passes fuel env hwApp currencyId ps w)
                 (\<lambda>rs w. (Resolved (r # rs), w)))"

section \<open>Example data\<close>

definition bitcoin :: crypto_currency where
  "bitcoin = \<lparr>cur_id = ''bitcoin'', cur_coinType = 0, cur_supportsSegwit = True,
              cur_magnitude = 8\<rparr>"

definition bitcoin_cash :: crypto_currency where
  "bitcoin_cash = \<lparr>cur_id = ''bitcoin_cash'', cur_coinType = 145, cur_supportsSegwit = True,
                   cur_magnitude = 8\<rparr>"

definition dogecoin :: crypto_currency where
  "dogecoin = \<lparr>cur_id = ''dogecoin'', cur_coinType = 3, cur_supportsSegwit = False,
               cur_magnitude = 8\<rparr>"

definition example_currencies :: "string \<Rightarrow> crypto_currency option" where
  "example_currencies =
     [''bitcoin'' \<mapsto> bitcoin, ''bitcoin_cash'' \<mapsto> bitcoin_cash, ''dogecoin'' \<mapsto> dogecoin]"

definition example_transport :: transport where
  "example_transport =
     \<lparr> t_getWalletPublicKey = (\<lambda>path. Resolved \<lparr>hk_publicKey = ''pk'', hk_chainCode = ''cc''\<rparr>),
       t_close = None \<rparr>"

definition succeed_event :: njs_event where
  "succeed_event = \<lparr>ev_code = SYNCHRONIZATION_SUCCEED, ev_error_message = None\<rparr>"

definition failed_event :: njs_event where
  "failed_event = \<lparr>ev_code = SYNCHRONIZATION_FAILED, ev_error_message = Some ''no network''\<rparr>"

definition send_operation :: njs_operation where
  "send_operation =
     \<lparr> op_hash = ''h1'', op_operationType = SEND, op_amount = 1000, op_fees = 10,
       op_senders = [''a''], op_recipients = [''b''], op_blockHeight = Some 7, op_date = 100 \<rparr>"

text \<open>A send of \<open>2 ^ 53 - 1\<close> base units with a fee of 2.\<close>

definition large_send_operation :: njs_operation where
  "large_send_operation =
     \<lparr> op_hash = ''h3'', op_operationType = SEND, op_amount = 9007199254740991, op_fees = 2,
       op_senders = [''a''], op_recipients = [''b''], op_blockHeight = Some 7, op_date = 100 \<rparr>"

definition receive_operation :: njs_operation where
  "receive_operation =
     \<lparr> op_hash = ''h2'', op_operationType = RECEIVE, op_amount = 5000, op_fees = 20,
       op_senders = [''c''], op_recipients = [''a''], op_blockHeight = Some 9, op_date = 200 \<rparr>"

definition example_address :: njs_address where
  "example_address = \<lparr>addr_str = ''1abc'', addr_derivationPath = ''0/2''\<rparr>"

definition used_account :: njs_account where
  "used_account =
     \<lparr> acc_restoreKey = ''xpub0'', acc_balance = 3990, acc_lastBlockHeight = 9,
       acc_freshPublicAddresses = [example_address],
       acc_operations = [send_operation, receive_operation],
       acc_syncEvents = [succeed_event] \<rparr>"

definition empty_account :: njs_account where
  "empty_account =
     \<lparr> acc_restoreKey = ''xpub1'', acc_balance = 0, acc_lastBlockHeight = 9,
       acc_freshPublicAddresses = [example_address],
       acc_operations = [],
       acc_syncEvents = [succeed_event] \<rparr>"

text \<open>
  An environment in which the device is present, the first account of every wallet has two
  operations and the second has none.
\<close>

definition example_env :: env where
  "example_env =
     \<lparr> SHOW_LEGACY_NEW_ACCOUNT = False,
       DEBUG_DEVICE = False,
       getCryptoCurrencyById = example_currencies,
       isSegwitAccount = ar_isSegwit,
       isUnsplitAccount = (\<lambda>a c. False),
       getAccountPlaceholderName = (\<lambda>c i legacy unsplit. ''Account''),
       getNewAccountPlaceholderName = (\<lambda>c i. ''New Account''),
       deserializeError = (\<lambda>s. None),
       TransportNodeHid_open = (\<lambda>p n. Resolved example_transport),
       pool_getCurrency = (\<lambda>c. Resolved c),
       keychain_derivations = (\<lambda>c cfg i. [''m'', ''m/a'']),
       nextAccountIndex = (\<lambda>wl. length (w_accounts wl)),
       indexer_newAccountWithInfo =
         (\<lambda>wl info. Resolved (if ci_index info = 0 then used_account else empty_account)),
       indexer_newAccountWithExtendedKeyInfo = (\<lambda>wl info. Resolved used_account) \<rparr>"

definition example_world :: world where
  "example_world =
     \<lparr> pool = [], next_receiver = 0, subscribed = [], scanned = [], probed = [],
       warnings = [], open_calls = 0, opened = 0, close_calls = 0, debug_mode = False,
       busy = False, now = 0 \<rparr>"

definition no_address_account :: njs_account where
  "no_address_account = used_account\<lparr>acc_freshPublicAddresses := []\<rparr>"

definition example_wallet :: njs_wallet where
  "example_wallet =
     \<lparr>w_name = ''pk__bitcoin'', w_currency = ''bitcoin'', w_config = [], w_accounts = []\<rparr>"

definition example_props :: scan_props where
  "example_props =
     \<lparr> sp_wallet = example_wallet, sp_hwApp = example_transport, sp_currencyId = ''bitcoin'',
       sp_accountsCount = 0, sp_accountIndex = 0, sp_accounts = [],
       sp_isSegwit = False, sp_isUnsplit = False, sp_showNewAccount = True \<rparr>"

text \<open>A device that cannot be opened, and one that opens at the second attempt.\<close>

definition unplugged_env :: env where
  "unplugged_env =
     example_env\<lparr>TransportNodeHid_open :=
       (\<lambda>p n. Rejected (JsError ''Error'' ''cannot open HID device''))\<rparr>"

definition flaky_env :: env where
  "flaky_env =
     example_env\<lparr>TransportNodeHid_open :=
       (\<lambda>p n. if n = 0 then Rejected (JsError ''Error'' ''cannot open HID device'')
              else Resolved example_transport)\<rparr>"

definition idle_job :: "transport \<Rightarrow> world \<Rightarrow> unit promise \<times> world" where
  "idle_job t w = (Resolved (), w)"

definition hid_job :: "transport \<Rightarrow> world \<Rightarrow> unit promise \<times> world" where
  "hid_job t w = (Rejected (JsError ''TransportError'' ''HID write failed''), w)"

text \<open>The example environment with the constant \<open>SHOW_LEGACY_NEW_ACCOUNT\<close> set.\<close>

definition legacy_shown_env :: env where
  "legacy_shown_env = example_env\<lparr>SHOW_LEGACY_NEW_ACCOUNT := True\<rparr>"

text \<open>Of each account of a result: whether it is segwit, its index, how many operations.\<close>

definition summary :: "account_raw list promise \<Rightarrow> (bool \<times> nat \<times> nat) list" where
  "summary r =
     (case r of
        Resolved accs \<Rightarrow> map (\<lambda>a. (ar_isSegwit a, ar_index a, length (ar_operations a))) accs
      | _ \<Rightarrow> [])"

definition wallet_names :: "account_raw list promise \<Rightarrow> string list" where
  "wallet_names r =
     (case r of Resolved accs \<Rightarrow> map (\<lambda>a. id_walletName (ar_id a)) accs | _ \<Rightarrow> [])"

definition fuel3 :: nat where
  "fuel3 = Suc (Suc (Suc 0))"

text \<open>
  An account record whose wallet is \<open>pk__bitcoin\<close>; an environment in which the
  synchronization of a recreated account fails; a state whose pool holds the wallet,
  without accounts.
\<close>

definition example_raw :: account_raw where
  "example_raw =
     \<lparr> ar_id = \<lparr>id_type = ''libcore'', id_version = ''1'', id_xpub = ''xpub0'',
                id_walletName = ''pk__bitcoin''\<rparr>,
       ar_xpub = ''xpub0'', ar_path = Some ''m'', ar_name = ''Account'', ar_isSegwit = False,
       ar_freshAddress = ''1abc'', ar_freshAddressPath = ''m/a/0/2'', ar_balance = 0,
       ar_blockHeight = 0, ar_archived = False, ar_index = 0, ar_operations = [],
       ar_pendingOperations = [], ar_currencyId = ''bitcoin'', ar_unitMagnitude = 8,
       ar_lastSyncDate = 0 \<rparr>"

definition failing_sync_env :: env where
  "failing_sync_env =
     example_env\<lparr>indexer_newAccountWithExtendedKeyInfo :=
       (\<lambda>wl info. Resolved (used_account\<lparr>acc_syncEvents := [failed_event]\<rparr>))\<rparr>"

definition wallet_world :: world where
  "wallet_world = example_world\<lparr>pool := [example_wallet]\<rparr>"

section \<open>Basic facts\<close>

lemma await_simps [simp]:
  "await (Resolved a, s) k = k a s"
  "await (Rejected e, s) k = (Rejected e, s)"
  "await (Pending, s) k = (Pending, s)"
  "await (OutOfFuel, s) k = (OutOfFuel, s)"
  by (simp_all add: await_def)

lemma await_Resolved_iff:
  "await r k = (Resolved x, s') \<longleftrightarrow> (\<exists>a s. r = (Resolved a, s) \<and> k a s = (Resolved x, s'))"
  by (auto simp: await_def split: prod.splits promise.splits)

lemma OperationTypeMap_simps:
  "OperationTypeMap SEND = Some OUT"
  "OperationTypeMap RECEIVE = Some IN"
  "OperationTypeMap (OTHER_TYPE n) = None"
  by (simp_all add: OperationTypeMap_def)

lemma example_currencies_simps:
  "example_currencies ''bitcoin'' = Some bitcoin"
  "example_currencies ''bitcoin_cash'' = Some bitcoin_cash"
  "example_currencies ''dogecoin'' = Some dogecoin"
  by (simp_all add: example_currencies_def)

section \<open>Projection of operations and accounts\<close>

text \<open>
  A number of absolute value up to \<open>2 ^ 53\<close> is held exactly, so a sum that stays within
  this bound is the sum of the integers.
\<close>

lemma bit_length_2_53: "bit_length 9007199254740992 = 54"
  by code_simp

lemma to_double_exact: "\<bar>n\<bar> \<le> 9007199254740992 \<Longrightarrow> to_double n = n"
proof -
  assume a: "\<bar>n\<bar> \<le> 9007199254740992"
  show ?thesis
  proof (cases "\<bar>n\<bar> = 9007199254740992")
    case True
    then have "n = 9007199254740992 \<or> n = - 9007199254740992" by arith
    then show ?thesis
      by (auto simp: to_double_def Let_def bit_length_2_53)
  next
    case False
    with a have "\<bar>n\<bar> < 9007199254740992" by arith
    then show ?thesis by (simp add: to_double_def Let_def)
  qed
qed

lemma number_add_exact: "\<bar>a + b\<bar> \<le> 9007199254740992 \<Longrightarrow> number_add a b = a + b"
  by (simp add: number_add_def to_double_exact)

lemma number_add_large: "number_add 9007199254740991 2 = 9007199254740992"
  by code_simp

text \<open>
  Claim C3, as the specification states it, fails: the value of an \<open>OUT\<close> operation is not
  always the amount plus the fee in the integers. For a send of \<open>2 ^ 53 - 1\<close> base units
  with a fee of 2 the projected value is \<open>2 ^ 53\<close>, one less than the sum.
\<close>

theorem buildOperationRaw_value_rounded:
  "OperationTypeMap (op_operationType large_send_operation) = Some OUT
   \<and> or_type (buildOperationRaw ''xpub0'' large_send_operation) = Some OUT
   \<and> or_value (buildOperationRaw ''xpub0'' large_send_operation) = 9007199254740992
   \<and> op_amount large_send_operation + op_fees large_send_operation = 9007199254740993"
  by (simp add: buildOperationRaw_def Let_def large_send_operation_def OperationTypeMap_simps
        number_add_large)

text \<open>
  Claim C3, amended. For every operation, if its indexer type maps to \<open>OUT\<close> (the type is
  \<open>SEND\<close>) then the projected type is \<open>OUT\<close> and the projected value is the sum of the indexer
  amount and the fee as JavaScript numbers; it is the sum of the integers whenever that sum
  is at most \<open>2 ^ 53\<close> in absolute value. If the type maps to \<open>IN\<close> (the type is \<open>RECEIVE\<close>)
  the projected type is \<open>IN\<close> and the projected value is the indexer amount. The fee is the
  indexer's.
\<close>

theorem buildOperationRaw_value:
  "(OperationTypeMap (op_operationType op) = Some OUT \<longrightarrow>
      or_type (buildOperationRaw xpub op) = Some OUT \<and>
      or_value (buildOperationRaw xpub op) = number_add (op_amount op) (op_fees op) \<and>
      (\<bar>op_amount op + op_fees op\<bar> \<le> 9007199254740992 \<longrightarrow>
         or_value (buildOperationRaw xpub op) = op_amount op + op_fees op))
   \<and> (OperationTypeMap (op_operationType op) = Some IN \<longrightarrow>
      or_type (buildOperationRaw xpub op) = Some IN \<and>
      or_value (buildOperationRaw xpub op) = op_amount op)
   \<and> or_fee (buildOperationRaw xpub op) = op_fees op"
  by (simp add: buildOperationRaw_def Let_def number_add_exact)

theorem buildOperationRaw_value_witness:
  "OperationTypeMap (op_operationType send_operation) = Some OUT
   \<and> \<bar>op_amount send_operation + op_fees send_operation\<bar> \<le> 9007199254740992
   \<and> or_value (buildOperationRaw ''xpub0'' send_operation) = 1010
   \<and> OperationTypeMap (op_operationType receive_operation) = Some IN
   \<and> or_value (buildOperationRaw ''xpub0'' receive_operation) = 5000"
  using buildOperationRaw_value [of send_operation "''xpub0''"]
    buildOperationRaw_value [of receive_operation "''xpub0''"]
  by (simp add: send_operation_def receive_operation_def OperationTypeMap_simps)

text \<open>
  Claim C6. For an account of a known currency, \<open>buildAccountRaw\<close> fails if and only if the
  indexer's list of fresh addresses is empty, and it then fails with \<open>NoAddressesFound\<close>.
  Otherwise the fresh address of the result is the address of the first entry of the list,
  and its path is the account's derivation path, a slash, and the derivation path of that
  first entry.
\<close>

theorem buildAccountRaw_fresh_address:
  assumes "getCryptoCurrencyById env currencyId = Some cur"
  shows "(buildAccountRaw env a sg us wl currencyId i ops w = Rejected NoAddressesFound
            \<longleftrightarrow> acc_freshPublicAddresses a = [])
       \<and> ((\<exists>e. buildAccountRaw env a sg us wl currencyId i ops w = Rejected e)
            \<longleftrightarrow> acc_freshPublicAddresses a = [])
       \<and> (\<forall>x xs. acc_freshPublicAddresses a = x # xs \<longrightarrow>
            (\<exists>r. buildAccountRaw env a sg us wl currencyId i ops w = Resolved r
                 \<and> ar_freshAddress r = addr_str x
                 \<and> ar_freshAddressPath r =
                     template_string
                       (nth_opt (keychain_derivations env (w_currency wl) (w_config wl) i) 1)
                     @ ''/'' @ addr_derivationPath x))"
  using assms
  by (cases "acc_freshPublicAddresses a")
     (simp_all add: buildAccountRaw_def Let_def wallet_getAccountCreationInfo_def)

theorem buildAccountRaw_fresh_address_witness:
  "getCryptoCurrencyById example_env ''bitcoin'' = Some bitcoin
   \<and> buildAccountRaw example_env no_address_account False False example_wallet ''bitcoin'' 0
       (acc_operations no_address_account) example_world = Rejected NoAddressesFound
   \<and> (\<exists>r. buildAccountRaw example_env used_account False False example_wallet ''bitcoin'' 0
             (acc_operations used_account) example_world = Resolved r
          \<and> ar_freshAddress r = ''1abc'' \<and> ar_freshAddressPath r = ''m/a/0/2'')"
proof -
  have cur: "getCryptoCurrencyById example_env ''bitcoin'' = Some bitcoin"
    by (simp add: example_env_def example_currencies_simps)
  have addrs: "acc_freshPublicAddresses used_account = [example_address]"
    "acc_freshPublicAddresses no_address_account = []"
    by (simp_all add: used_account_def no_address_account_def)
  have path: "nth_opt (keychain_derivations example_env (w_currency example_wallet)
                  (w_config example_wallet) 0) (Suc 0) = Some ''m/a''"
    by (simp add: example_env_def nth_opt_def)
  show ?thesis
    using buildAccountRaw_fresh_address [OF cur, of no_address_account False False
        example_wallet 0 "acc_operations no_address_account" example_world]
      buildAccountRaw_fresh_address [OF cur, of used_account False False
        example_wallet 0 "acc_operations used_account" example_world]
    by (simp add: cur addrs path example_address_def)
qed

section \<open>Wallet names and derivation paths\<close>

text \<open>
  Claim C9, where the program departs from it. In the unsplit legacy pass of
  \<open>bitcoin_cash\<close>, whose entry in the table of split currencies has the coin type 0, the
  path at which \<open>scanAccountsOnDeviceBySegwit\<close> asks for the wallet's public key is
  \<open>44'/undefined'\<close> and not \<open>44'/0'\<close>: the coin type is read as a property of the number
  \<open>customOpts.coinType\<close>.
\<close>

theorem unsplit_path_undefined:
  "walletPublicKeyPath env ''bitcoin_cash'' False True = Resolved (''44'/undefined'' @ apostrophe)
   \<and> walletPublicKeyPath env ''bitcoin_cash'' False True \<noteq> Resolved (''44'/0'' @ apostrophe)
   \<and> SPLITTED_CURRENCIES ''bitcoin_cash'' = Some \<lparr>sc_coinType = 0\<rparr>"
  by (simp add: walletPublicKeyPath_def SPLITTED_CURRENCIES_def Let_def apostrophe_def)

section \<open>Access to the device\<close>

lemma indexOf_from_found:
  "0 \<le> i \<Longrightarrow> (0 \<le> indexOf_from i n h) = (\<exists>ps ss. h = ps @ n @ ss)"
proof (induction h arbitrary: i)
  case Nil
  then show ?case by auto
next
  case (Cons c cs)
  show ?case
  proof (cases "take (length n) (c # cs) = n")
    case True
    then have "c # cs = [] @ n @ drop (length n) (c # cs)"
      by (metis append_Nil append_take_drop_id)
    then have "\<exists>ps ss. c # cs = ps @ n @ ss" by blast
    with True Cons.prems show ?thesis by simp
  next
    case False
    have "(\<exists>ps ss. c # cs = ps @ n @ ss) = (\<exists>ps ss. cs = ps @ n @ ss)"
    proof
      assume "\<exists>ps ss. c # cs = ps @ n @ ss"
      then obtain ps ss where e: "c # cs = ps @ n @ ss" by blast
      show "\<exists>ps ss. cs = ps @ n @ ss"
      proof (cases ps)
        case Nil
        with e have "take (length n) (c # cs) = n" by simp
        with False show ?thesis by simp
      next
        case (Cons p ps')
        with e have "cs = ps' @ n @ ss" by simp
        then show ?thesis by blast
      qed
    next
      assume "\<exists>ps ss. cs = ps @ n @ ss"
      then obtain ps ss where "cs = ps @ n @ ss" by blast
      then have "c # cs = (c # ps) @ n @ ss" by simp
      then show "\<exists>ps ss. c # cs = ps @ n @ ss" by blast
    qed
    moreover have "(0 \<le> indexOf_from (i + 1) n cs) = (\<exists>ps ss. cs = ps @ n @ ss)"
      using Cons.IH [of "i + 1"] Cons.prems by simp
    ultimately show ?thesis using False by simp
  qed
qed

text \<open>\<open>indexOf\<close> is not negative exactly when the needle occurs in the string.\<close>

lemma indexOf_found: "(0 \<le> indexOf h n) = (\<exists>ps ss. h = ps @ n @ ss)"
  by (simp add: indexOf_def indexOf_from_found)

lemma mapError_simps:
  "mapError (JsError n m) = (if 0 \<le> indexOf m ''HID'' then DisconnectedDevice m else JsError n m)"
  "mapError (ThrownString s) = ThrownString s"
  by (auto simp: mapError_def indexOf_def)

lemma retry_once:
  "retry 1 f s = (case f s of (Rejected e, s') \<Rightarrow> f s' | r \<Rightarrow> r)"
  by (simp split: prod.splits promise.splits)

text \<open>
  Claim C7, as stated, fails: an error of the open itself is not mapped. With a device that
  cannot be opened, both attempts failing with a message that contains \<open>HID\<close>, the caller
  gets that error as it is, not a \<open>DisconnectedDevice\<close> error.
\<close>

theorem open_failure_not_mapped:
  "fst (withDevice unplugged_env ''hid0'' idle_job example_world)
     = Rejected (JsError ''Error'' ''cannot open HID device'')
   \<and> 0 \<le> indexOf ''cannot open HID device'' ''HID''
   \<and> fst (withDevice unplugged_env ''hid0'' idle_job example_world)
       \<noteq> Rejected (DisconnectedDevice ''cannot open HID device'')
   \<and> open_calls (snd (withDevice unplugged_env ''hid0'' idle_job example_world)) = 2"
  by (simp add: withDevice_def unplugged_env_def example_env_def open_transport_def
        example_world_def DisconnectedDevice_def indexOf_def Let_def)

text \<open>
  Claim C7, amended. A failed open is retried once. When the second attempt fails too, its
  error reaches the caller unchanged, whatever its message, and the \<open>busy\<close> flag is reset.
  When the transport \<open>t\<close> is open and the job settles, \<open>close()\<close> is called once and then the
  flag is reset; if \<open>close()\<close> rejects, its error reaches the caller; otherwise a job error
  with a message that contains \<open>HID\<close> reaches the caller as a \<open>DisconnectedDevice\<close> error
  with that message, and every other job error, and the job's value, unchanged.
\<close>

theorem withDevice_outcome:
  "retry 1 (open_transport env p) w =
     (case open_transport env p w of (Rejected e, w') \<Rightarrow> open_transport env p w' | r \<Rightarrow> r)
   \<and> (\<forall>e w2. retry 1 (open_transport env p) (w0\<lparr>busy := True\<rparr>) = (Rejected e, w2) \<longrightarrow>
         withDevice env p job w0 = (Rejected e, w2\<lparr>busy := False\<rparr>))
   \<and> (\<forall>t w2 r w4.
         retry 1 (open_transport env p) (w0\<lparr>busy := True\<rparr>) = (Resolved t, w2)
         \<and> job t (if DEBUG_DEVICE env then w2\<lparr>debug_mode := True\<rparr> else w2) = (r, w4)
         \<and> r \<noteq> Pending \<and> r \<noteq> OutOfFuel \<longrightarrow>
         withDevice env p job w0 =
           (case t_close t of
              Some e \<Rightarrow> Rejected e
            | None \<Rightarrow> (case r of Rejected e \<Rightarrow> Rejected (mapError e) | _ \<Rightarrow> r),
            w4\<lparr>close_calls := close_calls w4 + 1, busy := False\<rparr>))
   \<and> (\<forall>n m. mapError (JsError n m) =
               (if 0 \<le> indexOf m ''HID'' then DisconnectedDevice m else JsError n m))
   \<and> (\<forall>s. mapError (ThrownString s) = ThrownString s)"
proof -
  have a: "retry 1 (open_transport env p) w =
     (case open_transport env p w of (Rejected e, w') \<Rightarrow> open_transport env p w' | r \<Rightarrow> r)"
    by (rule retry_once)
  have b: "withDevice env p job w0 = (Rejected e, w2\<lparr>busy := False\<rparr>)"
    if "retry 1 (open_transport env p) (w0\<lparr>busy := True\<rparr>) = (Rejected e, w2)" for e w2
    using that unfolding withDevice_def Let_def by simp
  have c: "withDevice env p job w0 =
           (case t_close t of
              Some e \<Rightarrow> Rejected e
            | None \<Rightarrow> (case r of Rejected e \<Rightarrow> Rejected (mapError e) | _ \<Rightarrow> r),
            w4\<lparr>close_calls := close_calls w4 + 1, busy := False\<rparr>)"
    if "retry 1 (open_transport env p) (w0\<lparr>busy := True\<rparr>) = (Resolved t, w2)"
      and "job t (if DEBUG_DEVICE env then w2\<lparr>debug_mode := True\<rparr> else w2) = (r, w4)"
      and "r \<noteq> Pending" and "r \<noteq> OutOfFuel" for t w2 r w4
    using that unfolding withDevice_def Let_def close_transport_def
    by (cases r; cases "t_close t") simp_all
  show ?thesis using a b c mapError_simps by blast
qed

theorem withDevice_outcome_witness:
  "retry 1 (open_transport flaky_env ''hid0'') (example_world\<lparr>busy := True\<rparr>)
     = (Resolved example_transport, example_world\<lparr>busy := True, open_calls := 2, opened := 1\<rparr>)
   \<and> withDevice flaky_env ''hid0'' hid_job example_world
     = (Rejected (DisconnectedDevice ''HID write failed''),
        example_world\<lparr>open_calls := 2, opened := 1, close_calls := 1\<rparr>)
   \<and> withDevice flaky_env ''hid0'' idle_job example_world
     = (Resolved (), example_world\<lparr>open_calls := 2, opened := 1, close_calls := 1\<rparr>)"
proof -
  let ?w2 = "example_world\<lparr>busy := True, open_calls := 2, opened := 1\<rparr>"
  let ?w3 = "if DEBUG_DEVICE flaky_env then ?w2\<lparr>debug_mode := True\<rparr> else ?w2"
  let ?e = "JsError ''TransportError'' ''HID write failed''"
  have op: "retry 1 (open_transport flaky_env ''hid0'') (example_world\<lparr>busy := True\<rparr>)
     = (Resolved example_transport, ?w2)"
    by (simp add: flaky_env_def example_env_def open_transport_def example_world_def Let_def)
  have dbg: "DEBUG_DEVICE flaky_env = False"
    by (simp add: flaky_env_def example_env_def)
  have cl: "t_close example_transport = None"
    by (simp add: example_transport_def)
  have hid: "0 \<le> indexOf ''HID write failed'' ''HID''"
    by (simp add: indexOf_def)
  have job1: "hid_job example_transport ?w3 = (Rejected ?e, ?w2)"
    by (simp add: dbg hid_job_def)
  have job2: "idle_job example_transport ?w3 = (Resolved (), ?w2)"
    by (simp add: dbg idle_job_def)
  have ne1: "Rejected ?e \<noteq> (Pending :: unit promise)" "Rejected ?e \<noteq> (OutOfFuel :: unit promise)"
    by simp_all
  have ne2: "Resolved () \<noteq> Pending" "Resolved () \<noteq> OutOfFuel"
    by simp_all
  note r1 = withDevice_outcome [where env = flaky_env and p = "''hid0''" and ?w0.0 = example_world
      and job = hid_job, THEN conjunct2, THEN conjunct2, THEN conjunct1, rule_format,
      OF conjI [OF op conjI [OF job1 conjI [OF ne1]]]]
  note r2 = withDevice_outcome [where env = flaky_env and p = "''hid0''" and ?w0.0 = example_world
      and job = idle_job, THEN conjunct2, THEN conjunct2, THEN conjunct1, rule_format,
      OF conjI [OF op conjI [OF job2 conjI [OF ne2]]]]
  have w: "?w2\<lparr>close_calls := close_calls ?w2 + 1, busy := False\<rparr>
      = example_world\<lparr>open_calls := 2, opened := 1, close_calls := 1\<rparr>"
    by (simp add: example_world_def)
  show ?thesis
    unfolding r1 r2 w by (intro conjI op) (simp_all add: cl hid mapError_simps)
qed

section \<open>A discovery pass\<close>

declare scanNextAccount.simps [simp del]

lemma store_wallet_frame [simp]:
  "probed (store_wallet wl w) = probed w"
  "scanned (store_wallet wl w) = scanned w"
  "now (store_wallet wl w) = now w"
  "subscribed (store_wallet wl w) = subscribed w"
  "next_receiver (store_wallet wl w) = next_receiver w"
  "warnings (store_wallet wl w) = warnings w"
  by (simp_all add: store_wallet_def)

lemma add_account_header [simp]:
  "w_name (add_account wl i a) = w_name wl"
  "w_currency (add_account wl i a) = w_currency wl"
  "w_config (add_account wl i a) = w_config wl"
  by (simp_all add: add_account_def)

lemma createAccount_Resolved:
  assumes "createAccount env wl hw w = (Resolved (a, wl'), w1)"
  shows "w_name wl' = w_name wl \<and> w_currency wl' = w_currency wl \<and> w_config wl' = w_config wl
       \<and> probed w1 = probed w \<and> scanned w1 = scanned w \<and> now w1 = now w
       \<and> subscribed w1 = subscribed w \<and> next_receiver w1 = next_receiver w"
  using assms
  by (auto simp: createAccount_def wallet_newAccountWithInfo_def Let_def await_Resolved_iff)

lemma coreSyncAccount_frame:
  assumes "coreSyncAccount env a w = (r, w1)"
  shows "probed w1 = probed w \<and> scanned w1 = scanned w \<and> now w1 = now w
       \<and> subscribed w1 = subscribed w @ [next_receiver w] \<and> next_receiver w1 = next_receiver w + 1"
  using assms
  by (auto simp: coreSyncAccount_def createEventReceiver_def subscribeToEventBus_def Let_def)

text \<open>
  \<open>buildAccountRaw\<close> reads of the wallet its name, currency and configuration only, and of
  the state the clock only.
\<close>

lemma buildAccountRaw_cong:
  assumes "w_name wl' = w_name wl" "w_currency wl' = w_currency wl" "w_config wl' = w_config wl"
    "now w' = now w"
  shows "buildAccountRaw env a sg us wl' cid i ops w' = buildAccountRaw env a sg us wl cid i ops w"
  using assms
  by (simp add: buildAccountRaw_def wallet_getAccountCreationInfo_def Let_def
        split: option.splits list.splits)

text \<open>What a projection that resolves holds; when a projection resolves.\<close>

lemma buildAccountRaw_Resolved:
  assumes "buildAccountRaw env a sg us wl cid i ops w = Resolved r"
  shows "ar_index r = i \<and> ar_xpub r = acc_restoreKey a \<and> ar_balance r = acc_balance a
       \<and> ar_operations r = map (buildOperationRaw (acc_restoreKey a)) (sort_operations ops)
       \<and> ar_isSegwit r = sg \<and> ar_currencyId r = cid \<and> id_walletName (ar_id r) = w_name wl"
  using assms
  by (auto simp: buildAccountRaw_def Let_def split: option.splits list.splits prod.splits)

lemma buildAccountRaw_succeeds:
  assumes "getCryptoCurrencyById env cid = Some jc" "acc_freshPublicAddresses a \<noteq> []"
  shows "\<exists>b. buildAccountRaw env a sg us wl cid i ops w = Resolved b"
  using assms
  by (cases "acc_freshPublicAddresses a")
     (simp_all add: buildAccountRaw_def Let_def wallet_getAccountCreationInfo_def)

text \<open>One call of \<open>scanNextAccount\<close> that resolves, step by step.\<close>

lemma scanNextAccount_Suc_Resolved:
  assumes "scanNextAccount (Suc n) env props w = (Resolved accs, w')"
  shows "\<exists>njs wl' w1 unsub w2 account.
     (if sp_accountIndex props < sp_accountsCount props
      then await (wallet_getAccount (sp_wallet props) (sp_accountIndex props), w)
             (\<lambda>a w. (Resolved (a, sp_wallet props), w))
      else createAccount env (sp_wallet props) (sp_hwApp props) w) = (Resolved (njs, wl'), w1)
     \<and> coreSyncAccount env njs (w1\<lparr>probed := probed w1 @ [(sp_accountIndex props, njs)]\<rparr>)
         = (Resolved unsub, w2)
     \<and> buildAccountRaw env njs (sp_isSegwit props) (sp_isUnsplit props) wl' (sp_currencyId props)
         (sp_accountIndex props) (acc_operations njs) w2 = Resolved account
     \<and> (if acc_operations njs = []
        then accs = (if sp_showNewAccount props then sp_accounts props @ [account]
                     else sp_accounts props)
             \<and> w' = (if sp_showNewAccount props then onAccountScanned account w2 else w2)
        else scanNextAccount n env
               (props\<lparr>sp_accountIndex := sp_accountIndex props + 1,
                      sp_accounts := sp_accounts props @ [account],
                      sp_wallet := wl'\<rparr>) (onAccountScanned account w2) = (Resolved accs, w'))"
  using assms
  apply (simp only: scanNextAccount.simps Let_def)
  apply (auto simp: await_Resolved_iff split: if_splits prod.splits)
  done

lemma obtain_frame:
  assumes "(if sp_accountIndex props < sp_accountsCount props
      then await (wallet_getAccount (sp_wallet props) (sp_accountIndex props), w)
             (\<lambda>a w. (Resolved (a, sp_wallet props), w))
      else createAccount env (sp_wallet props) (sp_hwApp props) w) = (Resolved (njs, wl'), w1)"
  shows "w_name wl' = w_name (sp_wallet props) \<and> w_currency wl' = w_currency (sp_wallet props)
       \<and> w_config wl' = w_config (sp_wallet props)
       \<and> probed w1 = probed w \<and> scanned w1 = scanned w \<and> now w1 = now w
       \<and> subscribed w1 = subscribed w \<and> next_receiver w1 = next_receiver w"
proof (cases "sp_accountIndex props < sp_accountsCount props")
  case True
  with assms show ?thesis by (auto simp: await_Resolved_iff)
next
  case False
  with assms have "createAccount env (sp_wallet props) (sp_hwApp props) w = (Resolved (njs, wl'), w1)"
    by simp
  from createAccount_Resolved [OF this] show ?thesis .
qed

text \<open>
  The trace of a pass that resolves: the accounts \<open>as\<close> it obtained, at the indices from
  the first on, and the accounts \<open>rs\<close> it added to the result.
\<close>

lemma scanNextAccount_trace:
  assumes "scanNextAccount fuel env props w = (Resolved accs, w')"
  shows "\<exists>as rs. as \<noteq> []
      \<and> probed w' = probed w @ zip [sp_accountIndex props ..< sp_accountIndex props + length as] as
      \<and> (\<forall>a \<in> set (butlast as). acc_operations a \<noteq> [])
      \<and> acc_operations (last as) = []
      \<and> accs = sp_accounts props @ rs
      \<and> scanned w' = scanned w @ rs
      \<and> map Resolved rs =
          map (\<lambda>(j, a). buildAccountRaw env a (sp_isSegwit props) (sp_isUnsplit props)
                          (sp_wallet props) (sp_currencyId props) j (acc_operations a) w)
            (filter (\<lambda>(j, a). acc_operations a \<noteq> [] \<or> sp_showNewAccount props)
               (zip [sp_accountIndex props ..< sp_accountIndex props + length as] as))"
  using assms
proof (induction fuel arbitrary: props w accs)
  case 0
  then show ?case by (simp add: scanNextAccount.simps)
next
  case (Suc n)
  let ?i = "sp_accountIndex props"
  let ?build = "\<lambda>w (j, a). buildAccountRaw env a (sp_isSegwit props) (sp_isUnsplit props)
                          (sp_wallet props) (sp_currencyId props) j (acc_operations a) w"
  from scanNextAccount_Suc_Resolved [OF Suc.prems]
  obtain njs wl' w1 unsub w2 account where
    ob: "(if ?i < sp_accountsCount props
      then await (wallet_getAccount (sp_wallet props) ?i, w)
             (\<lambda>a w. (Resolved (a, sp_wallet props), w))
      else createAccount env (sp_wallet props) (sp_hwApp props) w) = (Resolved (njs, wl'), w1)"
    and sy: "coreSyncAccount env njs (w1\<lparr>probed := probed w1 @ [(?i, njs)]\<rparr>) = (Resolved unsub, w2)"
    and bu: "buildAccountRaw env njs (sp_isSegwit props) (sp_isUnsplit props) wl'
               (sp_currencyId props) ?i (acc_operations njs) w2 = Resolved account"
    and rest: "if acc_operations njs = []
        then accs = (if sp_showNewAccount props then sp_accounts props @ [account]
                     else sp_accounts props)
             \<and> w' = (if sp_showNewAccount props then onAccountScanned account w2 else w2)
        else scanNextAccount n env
               (props\<lparr>sp_accountIndex := ?i + 1, sp_accounts := sp_accounts props @ [account],
                      sp_wallet := wl'\<rparr>) (onAccountScanned account w2) = (Resolved accs, w')"
    by blast
  note f1 = obtain_frame [OF ob]
  note f2 = coreSyncAccount_frame [OF sy]
  have hdr: "w_name wl' = w_name (sp_wallet props)" "w_currency wl' = w_currency (sp_wallet props)"
    "w_config wl' = w_config (sp_wallet props)"
    using f1 by simp_all
  have pr2: "probed w2 = probed w @ [(?i, njs)]" using f1 f2 by simp
  have sc2: "scanned w2 = scanned w" using f1 f2 by simp
  have now2: "now w2 = now w" using f1 f2 by simp
  have bu': "?build w (?i, njs) = Resolved account"
    using bu buildAccountRaw_cong [OF hdr now2] by simp
  show ?case
  proof (cases "acc_operations njs = []")
    case True
    let ?rs = "if sp_showNewAccount props then [account] else []"
    from True rest have accs: "accs = sp_accounts props @ ?rs"
      and w': "w' = (if sp_showNewAccount props then onAccountScanned account w2 else w2)"
      by simp_all
    have "probed w' = probed w @ zip [?i ..< ?i + length [njs]] [njs]"
      using w' pr2 by (simp add: onAccountScanned_def upt_rec)
    moreover have "scanned w' = scanned w @ ?rs"
      using w' sc2 by (simp add: onAccountScanned_def)
    moreover have "map Resolved ?rs =
        map (?build w) (filter (\<lambda>(j, a). acc_operations a \<noteq> [] \<or> sp_showNewAccount props)
               (zip [?i ..< ?i + length [njs]] [njs]))"
      using True bu' by (simp add: upt_rec)
    ultimately show ?thesis
      using True accs
      by (intro exI [of _ "[njs]"] exI [of _ ?rs]) simp
  next
    case False
    let ?props' = "props\<lparr>sp_accountIndex := ?i + 1, sp_accounts := sp_accounts props @ [account],
                      sp_wallet := wl'\<rparr>"
    let ?w3 = "onAccountScanned account w2"
    from False rest have rec: "scanNextAccount n env ?props' ?w3 = (Resolved accs, w')"
      by simp
    from Suc.IH [OF rec] obtain as rs where
      ne: "as \<noteq> []"
      and pr: "probed w' = probed ?w3 @ zip [?i + 1 ..< ?i + 1 + length as] as"
      and nonempty: "\<forall>a \<in> set (butlast as). acc_operations a \<noteq> []"
      and lastempty: "acc_operations (last as) = []"
      and accs: "accs = (sp_accounts props @ [account]) @ rs"
      and sc: "scanned w' = scanned ?w3 @ rs"
      and rs: "map Resolved rs =
          map (\<lambda>(j, a). buildAccountRaw env a (sp_isSegwit props) (sp_isUnsplit props)
                          wl' (sp_currencyId props) j (acc_operations a) ?w3)
            (filter (\<lambda>(j, a). acc_operations a \<noteq> [] \<or> sp_showNewAccount props)
               (zip [?i + 1 ..< ?i + 1 + length as] as))"
      by auto
    have now3: "now ?w3 = now w" using now2 by (simp add: onAccountScanned_def)
    have build_eq: "(\<lambda>(j, a). buildAccountRaw env a (sp_isSegwit props) (sp_isUnsplit props)
                          wl' (sp_currencyId props) j (acc_operations a) ?w3) = ?build w"
      using buildAccountRaw_cong [OF hdr now3] by (auto simp: fun_eq_iff)
    have upt: "[?i ..< ?i + length (njs # as)] = ?i # [?i + 1 ..< ?i + 1 + length as]"
      by (simp add: upt_rec)
    have "probed w' = probed w @ zip [?i ..< ?i + length (njs # as)] (njs # as)"
      using pr pr2 unfolding upt by (simp add: onAccountScanned_def)
    moreover have "\<forall>a \<in> set (butlast (njs # as)). acc_operations a \<noteq> []"
      using nonempty False ne by simp
    moreover have "acc_operations (last (njs # as)) = []"
      using lastempty ne by simp
    moreover have "accs = sp_accounts props @ (account # rs)"
      using accs by simp
    moreover have "scanned w' = scanned w @ (account # rs)"
      using sc sc2 by (simp add: onAccountScanned_def)
    moreover have "map Resolved (account # rs) =
        map (?build w) (filter (\<lambda>(j, a). acc_operations a \<noteq> [] \<or> sp_showNewAccount props)
               (zip [?i ..< ?i + length (njs # as)] (njs # as)))"
      unfolding upt using rs False bu' build_eq by simp
    ultimately show ?thesis
      by (intro exI [of _ "njs # as"] exI [of _ "account # rs"]) simp
  qed
qed

text \<open>A call that settles gives the same result with more fuel.\<close>

lemma scanNextAccount_more_fuel:
  "fst (scanNextAccount n env props w) \<noteq> OutOfFuel \<Longrightarrow>
   scanNextAccount (Suc n) env props w = scanNextAccount n env props w"
proof (induction n arbitrary: props w)
  case 0
  then show ?case by (simp add: scanNextAccount.simps)
next
  case (Suc n)
  let ?i = "sp_accountIndex props"
  let ?O = "if ?i < sp_accountsCount props
      then await (wallet_getAccount (sp_wallet props) ?i, w)
             (\<lambda>a w. (Resolved (a, sp_wallet props), w))
      else createAccount env (sp_wallet props) (sp_hwApp props) w"
  obtain ro w1 where O: "?O = (ro, w1)" by force
  show ?case
  proof (cases ro)
    case (Resolved x)
    obtain njs wl' where x: "x = (njs, wl')" by force
    let ?w1 = "w1\<lparr>probed := probed w1 @ [(?i, njs)]\<rparr>"
    obtain rs w2 where sy: "coreSyncAccount env njs ?w1 = (rs, w2)" by force
    show ?thesis
    proof (cases rs)
      case (Resolved unsub)
      note rsR = this
      let ?B = "buildAccountRaw env njs (sp_isSegwit props) (sp_isUnsplit props) wl'
                  (sp_currencyId props) ?i (acc_operations njs) w2"
      show ?thesis
      proof (cases ?B)
        case (Resolved account)
        show ?thesis
        proof (cases "acc_operations njs = []")
          case True
          then show ?thesis
            using O x sy rsR Resolved \<open>ro = Resolved x\<close>
            by (simp add: Let_def scanNextAccount.simps)
        next
          case False
          let ?p' = "props\<lparr>sp_accountIndex := ?i + 1, sp_accounts := sp_accounts props @ [account],
                      sp_wallet := wl'\<rparr>"
          let ?w3 = "onAccountScanned account w2"
          have step: "scanNextAccount (Suc m) env props w = scanNextAccount m env ?p' ?w3" for m
            using O x sy rsR Resolved \<open>ro = Resolved x\<close> False
            by (simp add: Let_def scanNextAccount.simps)
          from Suc.prems have "fst (scanNextAccount n env ?p' ?w3) \<noteq> OutOfFuel"
            unfolding step .
          from Suc.IH [OF this] show ?thesis unfolding step .
        qed
      qed (use O x sy rsR \<open>ro = Resolved x\<close> in \<open>simp_all add: Let_def scanNextAccount.simps\<close>)
    qed (use O x sy \<open>ro = Resolved x\<close> in \<open>simp_all add: Let_def scanNextAccount.simps\<close>)
  qed (use O in \<open>simp_all add: Let_def scanNextAccount.simps\<close>)
qed

lemma scanNextAccount_fuel_mono:
  "fst (scanNextAccount n env props w) \<noteq> OutOfFuel \<Longrightarrow>
   scanNextAccount (n + k) env props w = scanNextAccount n env props w"
proof (induction k)
  case 0
  then show ?case by simp
next
  case (Suc k)
  then have "fst (scanNextAccount (n + k) env props w) \<noteq> OutOfFuel" by simp
  from scanNextAccount_more_fuel [OF this] Suc show ?case by simp
qed

text \<open>
  Obtaining the account of a call, whatever its outcome, reports nothing and probes
  nothing.
\<close>

lemma obtain_frame_any:
  assumes "(if sp_accountIndex props < sp_accountsCount props
      then await (wallet_getAccount (sp_wallet props) (sp_accountIndex props), w)
             (\<lambda>a w. (Resolved (a, sp_wallet props), w))
      else createAccount env (sp_wallet props) (sp_hwApp props) w) = (r, w1)"
  shows "probed w1 = probed w \<and> scanned w1 = scanned w \<and> now w1 = now w"
proof (cases "sp_accountIndex props < sp_accountsCount props")
  case True
  with assms show ?thesis by (auto simp: await_def split: promise.splits)
next
  case False
  with assms show ?thesis
    by (auto simp: createAccount_def wallet_newAccountWithInfo_def Let_def await_def
          split: promise.splits prod.splits)
qed

text \<open>
  One call of \<open>scanNextAccount\<close> whose account is obtained, synchronizes and is projected:
  it returns if the account has no operation, and calls itself at the next index otherwise.
\<close>

lemma scanNextAccount_Suc_step:
  assumes "(if sp_accountIndex props < sp_accountsCount props
      then await (wallet_getAccount (sp_wallet props) (sp_accountIndex props), w)
             (\<lambda>a w. (Resolved (a, sp_wallet props), w))
      else createAccount env (sp_wallet props) (sp_hwApp props) w) = (Resolved (njs, wl'), w1)"
    and "coreSyncAccount env njs (w1\<lparr>probed := probed w1 @ [(sp_accountIndex props, njs)]\<rparr>)
         = (Resolved unsub, w2)"
    and "buildAccountRaw env njs (sp_isSegwit props) (sp_isUnsplit props) wl' (sp_currencyId props)
         (sp_accountIndex props) (acc_operations njs) w2 = Resolved account"
  shows "scanNextAccount (Suc n) env props w =
     (if acc_operations njs = []
      then (Resolved (if sp_showNewAccount props then sp_accounts props @ [account]
                      else sp_accounts props),
            if sp_showNewAccount props then onAccountScanned account w2 else w2)
      else scanNextAccount n env
             (props\<lparr>sp_accountIndex := sp_accountIndex props + 1,
                    sp_accounts := sp_accounts props @ [account],
                    sp_wallet := wl'\<rparr>) (onAccountScanned account w2))"
  using assms by (simp add: scanNextAccount.simps Let_def)

text \<open>
  Whatever the outcome of a pass (a result, a failure, a promise that never settles, or the
  bound on the calls reached), the accounts it obtained are those at the indices from its
  first index on, one after the other, and every one of them but the last has an operation
  and was reported by \<open>onAccountScanned\<close>, in this order, before anything else was.
\<close>

lemma scanNextAccount_reports:
  assumes "scanNextAccount fuel env props w = (r, w')"
  shows "\<exists>as rs. probed w' = probed w @ zip [sp_accountIndex props ..< sp_accountIndex props + length as] as
      \<and> (\<forall>a \<in> set (butlast as). acc_operations a \<noteq> [])
      \<and> scanned w' = scanned w @ rs
      \<and> map Resolved (take (length as - 1) rs) =
          map (\<lambda>(j, a). buildAccountRaw env a (sp_isSegwit props) (sp_isUnsplit props)
                          (sp_wallet props) (sp_currencyId props) j (acc_operations a) w)
            (zip [sp_accountIndex props ..< sp_accountIndex props + length as] (butlast as))"
  using assms
proof (induction fuel arbitrary: props w)
  case 0
  then have "w' = w" by (simp add: scanNextAccount.simps)
  then show ?case by (intro exI [of _ "[]"]) simp
next
  case (Suc n)
  let ?i = "sp_accountIndex props"
  let ?build = "\<lambda>w (j, a). buildAccountRaw env a (sp_isSegwit props) (sp_isUnsplit props)
                          (sp_wallet props) (sp_currencyId props) j (acc_operations a) w"
  let ?O = "if ?i < sp_accountsCount props
      then await (wallet_getAccount (sp_wallet props) ?i, w)
             (\<lambda>a w. (Resolved (a, sp_wallet props), w))
      else createAccount env (sp_wallet props) (sp_hwApp props) w"
  obtain ro w1 where O: "?O = (ro, w1)" by force
  note f1 = obtain_frame_any [OF O]
  have none: ?case if "w' = w1"
    using that f1 by (intro exI [of _ "[]"]) simp
  have one: ?case if "probed w' = probed w @ [(?i, njs)]" "scanned w' = scanned w @ rs" for njs rs
    using that by (intro exI [of _ "[njs]"] exI [of _ rs]) (simp add: upt_rec)
  show ?case
  proof (cases ro)
    case (Resolved x)
    obtain njs wl' where x: "x = (njs, wl')" by force
    let ?w1 = "w1\<lparr>probed := probed w1 @ [(?i, njs)]\<rparr>"
    obtain rs w2 where sy: "coreSyncAccount env njs ?w1 = (rs, w2)" by force
    note f2 = coreSyncAccount_frame [OF sy]
    have p2: "probed w2 = probed w @ [(?i, njs)]" using f2 f1 by simp
    have s2: "scanned w2 = scanned w @ []" using f2 f1 by simp
    have now2: "now w2 = now w" using f2 f1 by simp
    have ob: "?O = (Resolved (njs, wl'), w1)" using O Resolved x by simp
    note f0 = obtain_frame [OF ob]
    have hdr: "w_name wl' = w_name (sp_wallet props)"
      "w_currency wl' = w_currency (sp_wallet props)"
      "w_config wl' = w_config (sp_wallet props)"
      using f0 by simp_all
    show ?thesis
    proof (cases rs)
      case (Resolved unsub)
      note rsR = this
      let ?B = "buildAccountRaw env njs (sp_isSegwit props) (sp_isUnsplit props) wl'
                  (sp_currencyId props) ?i (acc_operations njs) w2"
      show ?thesis
      proof (cases ?B)
        case (Resolved account)
        note step = scanNextAccount_Suc_step [OF ob sy [unfolded rsR] Resolved, of n]
        have bu': "?build w (?i, njs) = Resolved account"
          using Resolved buildAccountRaw_cong [OF hdr now2] by simp
        show ?thesis
        proof (cases "acc_operations njs = []")
          case True
          let ?rs = "if sp_showNewAccount props then [account] else []"
          from True step Suc.prems
          have w': "w' = (if sp_showNewAccount props then onAccountScanned account w2 else w2)"
            by simp
          have "probed w' = probed w @ [(?i, njs)]"
            using w' p2 by (simp add: onAccountScanned_def)
          moreover have "scanned w' = scanned w @ ?rs"
            using w' s2 by (simp add: onAccountScanned_def)
          ultimately show ?thesis by (rule one)
        next
          case False
          let ?p' = "props\<lparr>sp_accountIndex := ?i + 1, sp_accounts := sp_accounts props @ [account],
                      sp_wallet := wl'\<rparr>"
          let ?w3 = "onAccountScanned account w2"
          from False step Suc.prems have "scanNextAccount n env ?p' ?w3 = (r, w')" by simp
          from Suc.IH [OF this] obtain as rs' where
            pr: "probed w' = probed ?w3 @ zip [?i + 1 ..< ?i + 1 + length as] as"
            and ne: "\<forall>a \<in> set (butlast as). acc_operations a \<noteq> []"
            and sc: "scanned w' = scanned ?w3 @ rs'"
            and m: "map Resolved (take (length as - 1) rs') =
                map (\<lambda>(j, a). buildAccountRaw env a (sp_isSegwit props) (sp_isUnsplit props)
                          wl' (sp_currencyId props) j (acc_operations a) ?w3)
                  (zip [?i + 1 ..< ?i + 1 + length as] (butlast as))"
            by auto
          have now3: "now ?w3 = now w" using now2 by (simp add: onAccountScanned_def)
          have build_eq: "(\<lambda>(j, a). buildAccountRaw env a (sp_isSegwit props) (sp_isUnsplit props)
                          wl' (sp_currencyId props) j (acc_operations a) ?w3) = ?build w"
            using buildAccountRaw_cong [OF hdr now3] by (auto simp: fun_eq_iff)
          have upt: "[?i ..< ?i + length (njs # as)] = ?i # [?i + 1 ..< ?i + 1 + length as]"
            by (simp add: upt_rec)
          have P: "probed w' = probed w @ zip [?i ..< ?i + length (njs # as)] (njs # as)"
            unfolding upt using pr p2 by (simp add: onAccountScanned_def)
          have N: "\<forall>a \<in> set (butlast (njs # as)). acc_operations a \<noteq> []"
            using ne False by simp
          have S: "scanned w' = scanned w @ (account # rs')"
            using sc s2 by (simp add: onAccountScanned_def)
          have M: "map Resolved (take (length (njs # as) - 1) (account # rs')) =
              map (?build w) (zip [?i ..< ?i + length (njs # as)] (butlast (njs # as)))"
          proof (cases "as = []")
            case True
            then show ?thesis by simp
          next
            case False
            then obtain k where k: "length as = Suc k" by (cases as) simp_all
            have "zip [?i ..< ?i + length (njs # as)] (butlast (njs # as))
                = (?i, njs) # zip [?i + 1 ..< ?i + 1 + length as] (butlast as)"
              unfolding upt using False by simp
            moreover have "take (length (njs # as) - 1) (account # rs')
                = account # take (length as - 1) rs'"
              using k by simp
            ultimately show ?thesis using m bu' build_eq by simp
          qed
          from P N S M show ?thesis
            by (intro exI [of _ "njs # as"] exI [of _ "account # rs'"] conjI)
        qed
      next
        case (Rejected e)
        then have "w' = w2"
          using Suc.prems O x sy rsR \<open>ro = Resolved x\<close>
          by (simp add: Let_def scanNextAccount.simps)
        with p2 s2 show ?thesis by (intro one) simp_all
      next
        case Pending
        then have "w' = w2"
          using Suc.prems O x sy rsR \<open>ro = Resolved x\<close>
          by (simp add: Let_def scanNextAccount.simps)
        with p2 s2 show ?thesis by (intro one) simp_all
      next
        case OutOfFuel
        then have "w' = w2"
          using Suc.prems O x sy rsR \<open>ro = Resolved x\<close>
          by (simp add: Let_def scanNextAccount.simps)
        with p2 s2 show ?thesis by (intro one) simp_all
      qed
    next
      case (Rejected e)
      then have "w' = w2"
        using Suc.prems O x sy \<open>ro = Resolved x\<close> by (simp add: Let_def scanNextAccount.simps)
      with p2 s2 show ?thesis by (intro one) simp_all
    next
      case Pending
      then have "w' = w2"
        using Suc.prems O x sy \<open>ro = Resolved x\<close> by (simp add: Let_def scanNextAccount.simps)
      with p2 s2 show ?thesis by (intro one) simp_all
    next
      case OutOfFuel
      then have "w' = w2"
        using Suc.prems O x sy \<open>ro = Resolved x\<close> by (simp add: Let_def scanNextAccount.simps)
      with p2 s2 show ?thesis by (intro one) simp_all
    qed
  next
    case (Rejected e)
    then have "w' = w1" using Suc.prems O by (simp add: Let_def scanNextAccount.simps)
    then show ?thesis by (rule none)
  next
    case Pending
    then have "w' = w1" using Suc.prems O by (simp add: Let_def scanNextAccount.simps)
    then show ?thesis by (rule none)
  next
    case OutOfFuel
    then have "w' = w1" using Suc.prems O by (simp add: Let_def scanNextAccount.simps)
    then show ?thesis by (rule none)
  qed
qed

text \<open>
  A pass in an environment where the accounts \<open>as\<close> are obtained one after the other, from
  the wallets \<open>wls\<close> (the wallet of the pass, then the wallet that each step passes on),
  every one of them synchronizes and has a fresh address, and every one but the last has
  an operation. Given calls enough, the pass probes exactly these accounts and reports the
  ones to show; it then resolves if the last account has no operation, and is at the next
  index otherwise.
\<close>

lemma scanNextAccount_run:
  assumes cur: "getCryptoCurrencyById env (sp_currencyId props) = Some jc"
    and len: "length wls = Suc (length as)"
    and hd: "wls ! 0 = sp_wallet props"
    and ob: "\<forall>k < length as. \<forall>w0.
          fst (if sp_accountIndex props + k < sp_accountsCount props
               then await (wallet_getAccount (wls ! k) (sp_accountIndex props + k), w0)
                      (\<lambda>a w. (Resolved (a, wls ! k), w))
               else createAccount env (wls ! k) (sp_hwApp props) w0)
          = Resolved (as ! k, wls ! Suc k)"
    and sy: "\<forall>a \<in> set as. \<forall>r. receive_events env r (acc_syncEvents a) = Resolved (unsubscribe r)"
    and ad: "\<forall>a \<in> set as. acc_freshPublicAddresses a \<noteq> []"
    and ops: "\<forall>a \<in> set (butlast as). acc_operations a \<noteq> []"
    and ne: "as \<noteq> []"
    and fuel: "length as \<le> fuel"
  shows "\<exists>rs w1.
      map Resolved rs =
        map (\<lambda>(j, a). buildAccountRaw env a (sp_isSegwit props) (sp_isUnsplit props)
                        (sp_wallet props) (sp_currencyId props) j (acc_operations a) w)
          (filter (\<lambda>(j, a). acc_operations a \<noteq> [] \<or> sp_showNewAccount props)
             (zip [sp_accountIndex props ..< sp_accountIndex props + length as] as))
      \<and> probed w1 = probed w @ zip [sp_accountIndex props ..< sp_accountIndex props + length as] as
      \<and> scanned w1 = scanned w @ rs
      \<and> now w1 = now w
      \<and> (acc_operations (last as) = [] \<longrightarrow>
           scanNextAccount fuel env props w = (Resolved (sp_accounts props @ rs), w1))
      \<and> (acc_operations (last as) \<noteq> [] \<longrightarrow>
           scanNextAccount fuel env props w =
             scanNextAccount (fuel - length as) env
               (props\<lparr>sp_accountIndex := sp_accountIndex props + length as,
                      sp_accounts := sp_accounts props @ rs,
                      sp_wallet := last wls\<rparr>) w1)"
  using assms
proof (induction as arbitrary: props w wls fuel)
  case Nil
  then show ?case by simp
next
  case (Cons a as')
  let ?i = "sp_accountIndex props"
  let ?build = "\<lambda>w (j, a). buildAccountRaw env a (sp_isSegwit props) (sp_isUnsplit props)
                          (sp_wallet props) (sp_currencyId props) j (acc_operations a) w"
  let ?shown = "\<lambda>(j :: nat, a :: njs_account). acc_operations a \<noteq> [] \<or> sp_showNewAccount props"
  let ?O = "if ?i < sp_accountsCount props
      then await (wallet_getAccount (sp_wallet props) ?i, w)
             (\<lambda>a w. (Resolved (a, sp_wallet props), w))
      else createAccount env (sp_wallet props) (sp_hwApp props) w"
  note cur = Cons.prems(1) and len = Cons.prems(2) and hd = Cons.prems(3)
    and ob = Cons.prems(4) and sy = Cons.prems(5) and ad = Cons.prems(6)
    and ops = Cons.prems(7) and fuel = Cons.prems(9)
  from len obtain wl0 wl1 wls' where wls: "wls = wl0 # wl1 # wls'"
    by (cases wls; cases "tl wls") auto
  from hd wls have wl0: "wl0 = sp_wallet props" by simp
  from fuel obtain n where n: "fuel = Suc n" by (cases fuel) simp_all
  have "fst ?O = Resolved (a, wl1)"
    using ob [rule_format, of 0 w] by (simp add: wls wl0 split: if_splits)
  then obtain w1 where O: "?O = (Resolved (a, wl1), w1)" by (cases ?O) simp
  note f1 = obtain_frame [OF O]
  let ?w1 = "w1\<lparr>probed := probed w1 @ [(?i, a)]\<rparr>"
  obtain w2 where S: "coreSyncAccount env a ?w1 = (Resolved (unsubscribe (next_receiver ?w1)), w2)"
    using sy by (simp add: coreSyncAccount_def createEventReceiver_def Let_def)
  note f2 = coreSyncAccount_frame [OF S]
  have hdr: "w_name wl1 = w_name (sp_wallet props)"
    "w_currency wl1 = w_currency (sp_wallet props)"
    "w_config wl1 = w_config (sp_wallet props)"
    using f1 by simp_all
  have p2: "probed w2 = probed w @ [(?i, a)]" using f1 f2 by simp
  have s2: "scanned w2 = scanned w" using f1 f2 by simp
  have now2: "now w2 = now w" using f1 f2 by simp
  have "acc_freshPublicAddresses a \<noteq> []" using ad by simp
  from buildAccountRaw_succeeds [OF cur this] obtain account where
    B: "buildAccountRaw env a (sp_isSegwit props) (sp_isUnsplit props) wl1
          (sp_currencyId props) ?i (acc_operations a) w2 = Resolved account"
    by blast
  have bu': "?build w (?i, a) = Resolved account"
    using B buildAccountRaw_cong [OF hdr now2] by simp
  note step = scanNextAccount_Suc_step [OF O S B, of n]
  let ?p' = "props\<lparr>sp_accountIndex := ?i + 1, sp_accounts := sp_accounts props @ [account],
                      sp_wallet := wl1\<rparr>"
  let ?w3 = "onAccountScanned account w2"
  have p3: "probed ?w3 = probed w @ [(?i, a)]" using p2 by (simp add: onAccountScanned_def)
  have s3: "scanned ?w3 = scanned w @ [account]" using s2 by (simp add: onAccountScanned_def)
  have now3: "now ?w3 = now w" using now2 by (simp add: onAccountScanned_def)
  show ?case
  proof (cases "as' = []")
    case True
    note last = this
    show ?thesis
    proof (cases "acc_operations a = []")
      case True
      let ?rs = "if sp_showNewAccount props then [account] else []"
      let ?w' = "if sp_showNewAccount props then onAccountScanned account w2 else w2"
      have "map Resolved ?rs = map (?build w) (filter ?shown (zip [?i ..< ?i + length (a # as')] (a # as')))"
        using True last bu' by (simp add: upt_rec)
      moreover have "probed ?w' = probed w @ zip [?i ..< ?i + length (a # as')] (a # as')"
        using last p2 p3 by (simp add: upt_rec)
      moreover have "scanned ?w' = scanned w @ ?rs" using s2 s3 by simp
      moreover have "now ?w' = now w" using now2 now3 by simp
      moreover have "acc_operations (last (a # as')) = [] \<longrightarrow>
           scanNextAccount fuel env props w = (Resolved (sp_accounts props @ ?rs), ?w')"
        using step True n by simp
      moreover have "acc_operations (last (a # as')) \<noteq> [] \<longrightarrow>
           scanNextAccount fuel env props w =
             scanNextAccount (fuel - length (a # as')) env
               (props\<lparr>sp_accountIndex := ?i + length (a # as'),
                      sp_accounts := sp_accounts props @ ?rs,
                      sp_wallet := last wls\<rparr>) ?w'"
        using True last by simp
      ultimately show ?thesis
        by (intro exI [of _ ?rs] exI [of _ ?w'] conjI)
    next
      case False
      have "map Resolved [account] = map (?build w) (filter ?shown (zip [?i ..< ?i + length (a # as')] (a # as')))"
        using False last bu' by (simp add: upt_rec)
      moreover have "probed ?w3 = probed w @ zip [?i ..< ?i + length (a # as')] (a # as')"
        using last p3 by (simp add: upt_rec)
      moreover note s3 now3
      moreover have "acc_operations (last (a # as')) = [] \<longrightarrow>
           scanNextAccount fuel env props w = (Resolved (sp_accounts props @ [account]), ?w3)"
        using False last by simp
      moreover have "acc_operations (last (a # as')) \<noteq> [] \<longrightarrow>
           scanNextAccount fuel env props w =
             scanNextAccount (fuel - length (a # as')) env
               (props\<lparr>sp_accountIndex := ?i + length (a # as'),
                      sp_accounts := sp_accounts props @ [account],
                      sp_wallet := last wls\<rparr>) ?w3"
        using step False last n wls len by simp
      ultimately show ?thesis
        by (intro exI [of _ "[account]"] exI [of _ ?w3] conjI)
    qed
  next
    case False
    note more = this
    then have nonempty: "acc_operations a \<noteq> []" using ops by simp
    have eq: "scanNextAccount fuel env props w = scanNextAccount n env ?p' ?w3"
      using step nonempty n by simp
    have ob': "\<forall>k < length as'. \<forall>w0.
          fst (if sp_accountIndex ?p' + k < sp_accountsCount ?p'
               then await (wallet_getAccount ((wl1 # wls') ! k) (sp_accountIndex ?p' + k), w0)
                      (\<lambda>a w. (Resolved (a, (wl1 # wls') ! k), w))
               else createAccount env ((wl1 # wls') ! k) (sp_hwApp ?p') w0)
          = Resolved (as' ! k, (wl1 # wls') ! Suc k)"
    proof (intro allI impI)
      fix k w0
      assume "k < length as'"
      then have "Suc k < length (a # as')" by simp
      from ob [rule_format, OF this, of w0] show
        "fst (if sp_accountIndex ?p' + k < sp_accountsCount ?p'
               then await (wallet_getAccount ((wl1 # wls') ! k) (sp_accountIndex ?p' + k), w0)
                      (\<lambda>a w. (Resolved (a, (wl1 # wls') ! k), w))
               else createAccount env ((wl1 # wls') ! k) (sp_hwApp ?p') w0)
          = Resolved (as' ! k, (wl1 # wls') ! Suc k)"
        by (simp add: wls split: if_splits)
    qed
    have IH: "\<exists>rs w1.
      map Resolved rs =
        map (\<lambda>(j, a). buildAccountRaw env a (sp_isSegwit ?p') (sp_isUnsplit ?p')
                        (sp_wallet ?p') (sp_currencyId ?p') j (acc_operations a) ?w3)
          (filter (\<lambda>(j, a). acc_operations a \<noteq> [] \<or> sp_showNewAccount ?p')
             (zip [sp_accountIndex ?p' ..< sp_accountIndex ?p' + length as'] as'))
      \<and> probed w1 = probed ?w3 @ zip [sp_accountIndex ?p' ..< sp_accountIndex ?p' + length as'] as'
      \<and> scanned w1 = scanned ?w3 @ rs
      \<and> now w1 = now ?w3
      \<and> (acc_operations (last as') = [] \<longrightarrow>
           scanNextAccount n env ?p' ?w3 = (Resolved (sp_accounts ?p' @ rs), w1))
      \<and> (acc_operations (last as') \<noteq> [] \<longrightarrow>
           scanNextAccount n env ?p' ?w3 =
             scanNextAccount (n - length as') env
               (?p'\<lparr>sp_accountIndex := sp_accountIndex ?p' + length as',
                      sp_accounts := sp_accounts ?p' @ rs,
                      sp_wallet := last (wl1 # wls')\<rparr>) w1)"
    proof (rule Cons.IH [where props = ?p' and wls = "wl1 # wls'" and fuel = n and w = ?w3])
      show "getCryptoCurrencyById env (sp_currencyId ?p') = Some jc" using cur by simp
      show "length (wl1 # wls') = Suc (length as')" using len wls by simp
      show "(wl1 # wls') ! 0 = sp_wallet ?p'" by simp
      show "\<forall>k < length as'. \<forall>w0.
          fst (if sp_accountIndex ?p' + k < sp_accountsCount ?p'
               then await (wallet_getAccount ((wl1 # wls') ! k) (sp_accountIndex ?p' + k), w0)
                      (\<lambda>a w. (Resolved (a, (wl1 # wls') ! k), w))
               else createAccount env ((wl1 # wls') ! k) (sp_hwApp ?p') w0)
          = Resolved (as' ! k, (wl1 # wls') ! Suc k)"
        by (rule ob')
      show "\<forall>a \<in> set as'. \<forall>r. receive_events env r (acc_syncEvents a) = Resolved (unsubscribe r)"
        using sy by simp
      show "\<forall>a \<in> set as'. acc_freshPublicAddresses a \<noteq> []" using ad by simp
      show "\<forall>a \<in> set (butlast as'). acc_operations a \<noteq> []" using ops more by simp
      show "as' \<noteq> []" by (rule more)
      show "length as' \<le> n" using fuel n by simp
    qed
    then obtain rs' w' where
      m: "map Resolved rs' =
        map (\<lambda>(j, a). buildAccountRaw env a (sp_isSegwit props) (sp_isUnsplit props)
                        wl1 (sp_currencyId props) j (acc_operations a) ?w3)
          (filter ?shown (zip [?i + 1 ..< ?i + 1 + length as'] as'))"
      and pr: "probed w' = probed ?w3 @ zip [?i + 1 ..< ?i + 1 + length as'] as'"
      and sc: "scanned w' = scanned ?w3 @ rs'"
      and nw: "now w' = now ?w3"
      and stop: "acc_operations (last as') = [] \<longrightarrow>
           scanNextAccount n env ?p' ?w3 = (Resolved ((sp_accounts props @ [account]) @ rs'), w')"
      and cont: "acc_operations (last as') \<noteq> [] \<longrightarrow>
           scanNextAccount n env ?p' ?w3 =
             scanNextAccount (n - length as') env
               (?p'\<lparr>sp_accountIndex := ?i + 1 + length as',
                      sp_accounts := (sp_accounts props @ [account]) @ rs',
                      sp_wallet := last (wl1 # wls')\<rparr>) w'"
      by auto
    have build_eq: "(\<lambda>(j, a). buildAccountRaw env a (sp_isSegwit props) (sp_isUnsplit props)
                          wl1 (sp_currencyId props) j (acc_operations a) ?w3) = ?build w"
      using buildAccountRaw_cong [OF hdr now3] by (auto simp: fun_eq_iff)
    have upt: "[?i ..< ?i + length (a # as')] = ?i # [?i + 1 ..< ?i + 1 + length as']"
      by (simp add: upt_rec)
    have M: "map Resolved (account # rs') =
        map (?build w) (filter ?shown (zip [?i ..< ?i + length (a # as')] (a # as')))"
      unfolding upt using m nonempty bu' build_eq by simp
    have P: "probed w' = probed w @ zip [?i ..< ?i + length (a # as')] (a # as')"
      unfolding upt using pr p3 by simp
    have S: "scanned w' = scanned w @ (account # rs')" using sc s3 by simp
    have N: "now w' = now w" using nw now3 by simp
    have la: "last (a # as') = last as'" using more by simp
    have lw: "last wls = last (wl1 # wls')" unfolding wls by simp
    have A: "acc_operations (last (a # as')) = [] \<longrightarrow>
           scanNextAccount fuel env props w = (Resolved (sp_accounts props @ (account # rs')), w')"
      using stop eq la by simp
    have pe: "?p'\<lparr>sp_accountIndex := ?i + 1 + length as',
                      sp_accounts := (sp_accounts props @ [account]) @ rs',
                      sp_wallet := last (wl1 # wls')\<rparr>
        = props\<lparr>sp_accountIndex := ?i + length (a # as'),
                      sp_accounts := sp_accounts props @ (account # rs'),
                      sp_wallet := last wls\<rparr>"
      unfolding lw by simp
    have fe: "n - length as' = fuel - length (a # as')" using n by simp
    have C: "acc_operations (last (a # as')) \<noteq> [] \<longrightarrow>
           scanNextAccount fuel env props w =
             scanNextAccount (fuel - length (a # as')) env
               (props\<lparr>sp_accountIndex := ?i + length (a # as'),
                      sp_accounts := sp_accounts props @ (account # rs'),
                      sp_wallet := last wls\<rparr>) w'"
      using cont eq la unfolding pe fe by simp
    from M P S N A C show ?thesis
      by (intro exI [of _ "account # rs'"] exI [of _ w'] conjI)
  qed
qed

lemmas example_defs =
  example_props_def example_wallet_def example_transport_def example_env_def example_world_def
  used_account_def empty_account_def succeed_event_def send_operation_def receive_operation_def
  example_address_def example_currencies_def bitcoin_def bitcoin_cash_def dogecoin_def

lemmas step_defs =
  createAccount_def wallet_getNextAccountCreationInfo_def wallet_getAccountCreationInfo_def
  wallet_newAccountWithInfo_def add_account_def store_wallet_def coreSyncAccount_def
  createEventReceiver_def subscribeToEventBus_def buildAccountRaw_def buildOperationRaw_def
  onAccountScanned_def nth_opt_def sort_operations_def operation_id_def OperationTypeMap_def
  Let_def

text \<open>
  In the example a pass over an empty wallet obtains the accounts at the indices 0 and 1,
  returns both (the second has no operations and the pass shows new accounts), and has
  called \<open>onAccountScanned\<close> for both.
\<close>

lemma example_scan:
  "\<exists>accs w'. scanNextAccount (Suc (Suc (Suc 0))) example_env example_props example_world
        = (Resolved accs, w')
     \<and> map ar_index accs = [0, 1] \<and> map (length \<circ> ar_operations) accs = [2, 0]
     \<and> map fst (probed w') = [0, 1] \<and> scanned w' = accs \<and> subscribed w' = [0, 1]
     \<and> map (acc_operations \<circ> snd) (probed w') = [[send_operation, receive_operation], []]"
  by (simp add: example_defs step_defs scanNextAccount.simps)

text \<open>
  Claim C1. First, for every environment and whatever the outcome of a pass (a result, a
  failure, a promise that never settles, or the bound on the calls reached): the accounts
  \<open>bs\<close> it obtained are those at the indices from its first index on, one after the other;
  every one of them but the last has an operation, so the index after an account without
  operations is never probed; and every one of them but the last was projected and reported
  by \<open>onAccountScanned\<close>, in this order, before any other report. When the pass resolves,
  the last account it obtained has no operation, the result is the accounts given followed
  by the reported ones, and these are the projections, in order, of the obtained accounts
  that have an operation, and of the last one if new accounts are shown.

  Second, the pass does resolve, and does go on. Let the accounts \<open>as\<close> be obtained one
  after the other from the index of the pass on, from the wallets \<open>wls\<close> (the wallet of the
  pass, then the wallet that each step passes on), let every one of them synchronize and
  have a fresh address, let every one but the last have an operation, and let the bound
  allow as many calls as there are accounts. Then the pass probes exactly these accounts,
  at these indices, and reports the projection of each one that has an operation (and of
  the last one, when it has none, if new accounts are shown). If the last account has no
  operation, the pass resolves with the accounts given followed by the reported ones, and
  nothing beyond is probed. If the last account has an operation, the pass is, with the
  reports made, the call of \<open>scanNextAccount\<close> at the next index with the reported accounts
  added; so whatever becomes of it afterwards, these probes and reports stay.
\<close>

theorem scanNextAccount_pass:
  "(\<forall>r w'. scanNextAccount fuel env props w = (r, w') \<longrightarrow>
      (\<exists>bs rs.
         probed w' = probed w @ zip [sp_accountIndex props ..< sp_accountIndex props + length bs] bs
         \<and> (\<forall>b \<in> set (butlast bs). acc_operations b \<noteq> [])
         \<and> scanned w' = scanned w @ rs
         \<and> map Resolved (take (length bs - 1) rs) =
             map (\<lambda>(j, a). buildAccountRaw env a (sp_isSegwit props) (sp_isUnsplit props)
                             (sp_wallet props) (sp_currencyId props) j (acc_operations a) w)
               (zip [sp_accountIndex props ..< sp_accountIndex props + length bs] (butlast bs))
         \<and> (\<forall>accs. r = Resolved accs \<longrightarrow>
               bs \<noteq> [] \<and> acc_operations (last bs) = []
               \<and> accs = sp_accounts props @ rs
               \<and> map Resolved rs =
                   map (\<lambda>(j, a). buildAccountRaw env a (sp_isSegwit props) (sp_isUnsplit props)
                                   (sp_wallet props) (sp_currencyId props) j (acc_operations a) w)
                     (filter (\<lambda>(j, a). acc_operations a \<noteq> [] \<or> sp_showNewAccount props)
                        (zip [sp_accountIndex props ..< sp_accountIndex props + length bs] bs)))))
   \<and> (getCryptoCurrencyById env (sp_currencyId props) = Some jc
      \<and> as \<noteq> [] \<and> length as \<le> fuel
      \<and> length wls = Suc (length as) \<and> wls ! 0 = sp_wallet props
      \<and> (\<forall>k < length as. \<forall>w0.
            fst (if sp_accountIndex props + k < sp_accountsCount props
                 then await (wallet_getAccount (wls ! k) (sp_accountIndex props + k), w0)
                        (\<lambda>a w. (Resolved (a, wls ! k), w))
                 else createAccount env (wls ! k) (sp_hwApp props) w0)
            = Resolved (as ! k, wls ! Suc k))
      \<and> (\<forall>a \<in> set as. \<forall>r. receive_events env r (acc_syncEvents a) = Resolved (unsubscribe r))
      \<and> (\<forall>a \<in> set as. acc_freshPublicAddresses a \<noteq> [])
      \<and> (\<forall>a \<in> set (butlast as). acc_operations a \<noteq> [])
    \<longrightarrow> (\<exists>rs w1.
          map Resolved rs =
            map (\<lambda>(j, a). buildAccountRaw env a (sp_isSegwit props) (sp_isUnsplit props)
                            (sp_wallet props) (sp_currencyId props) j (acc_operations a) w)
              (filter (\<lambda>(j, a). acc_operations a \<noteq> [] \<or> sp_showNewAccount props)
                 (zip [sp_accountIndex props ..< sp_accountIndex props + length as] as))
          \<and> probed w1 =
              probed w @ zip [sp_accountIndex props ..< sp_accountIndex props + length as] as
          \<and> scanned w1 = scanned w @ rs
          \<and> (acc_operations (last as) = [] \<longrightarrow>
               scanNextAccount fuel env props w = (Resolved (sp_accounts props @ rs), w1))
          \<and> (acc_operations (last as) \<noteq> [] \<longrightarrow>
               scanNextAccount fuel env props w =
                 scanNextAccount (fuel - length as) env
                   (props\<lparr>sp_accountIndex := sp_accountIndex props + length as,
                          sp_accounts := sp_accounts props @ rs,
                          sp_wallet := last wls\<rparr>) w1)
          \<and> (\<forall>r wf. scanNextAccount fuel env props w = (r, wf) \<longrightarrow>
                (\<exists>ps ss. probed wf = probed w1 @ ps \<and> scanned wf = scanned w1 @ ss))))"
proof (intro conjI allI impI)
  fix r w'
  assume run: "scanNextAccount fuel env props w = (r, w')"
  let ?i = "sp_accountIndex props"
  let ?build = "\<lambda>(j, a). buildAccountRaw env a (sp_isSegwit props) (sp_isUnsplit props)
                          (sp_wallet props) (sp_currencyId props) j (acc_operations a) w"
  let ?shown = "\<lambda>(j :: nat, a :: njs_account). acc_operations a \<noteq> [] \<or> sp_showNewAccount props"
  from scanNextAccount_reports [OF run] obtain bs rs where
    pr: "probed w' = probed w @ zip [?i ..< ?i + length bs] bs"
    and ne: "\<forall>b \<in> set (butlast bs). acc_operations b \<noteq> []"
    and sc: "scanned w' = scanned w @ rs"
    and tk: "map Resolved (take (length bs - 1) rs) =
               map ?build (zip [?i ..< ?i + length bs] (butlast bs))"
    by blast
  have res: "bs \<noteq> [] \<and> acc_operations (last bs) = [] \<and> accs = sp_accounts props @ rs
      \<and> map Resolved rs = map ?build (filter ?shown (zip [?i ..< ?i + length bs] bs))"
    if r: "r = Resolved accs" for accs
  proof -
    from scanNextAccount_trace [OF run [unfolded r]] obtain cs rs' where
      t: "cs \<noteq> []" "probed w' = probed w @ zip [?i ..< ?i + length cs] cs"
        "acc_operations (last cs) = []" "accs = sp_accounts props @ rs'"
        "scanned w' = scanned w @ rs'"
      and m: "map Resolved rs' = map ?build (filter ?shown (zip [?i ..< ?i + length cs] cs))"
      by blast
    from pr t(2) have "zip [?i ..< ?i + length bs] bs = zip [?i ..< ?i + length cs] cs"
      by simp
    then have "map snd (zip [?i ..< ?i + length bs] bs) = map snd (zip [?i ..< ?i + length cs] cs)"
      by simp
    then have eq: "cs = bs" by simp
    from sc t(5) have eq': "rs' = rs" by simp
    from t(1,3,4) m show ?thesis unfolding eq eq' by (intro conjI)
  qed
  have "\<forall>accs. r = Resolved accs \<longrightarrow>
      bs \<noteq> [] \<and> acc_operations (last bs) = [] \<and> accs = sp_accounts props @ rs
      \<and> map Resolved rs = map ?build (filter ?shown (zip [?i ..< ?i + length bs] bs))"
    using res by (intro allI impI)
  with pr ne sc tk show "\<exists>bs rs.
         probed w' = probed w @ zip [?i ..< ?i + length bs] bs
         \<and> (\<forall>b \<in> set (butlast bs). acc_operations b \<noteq> [])
         \<and> scanned w' = scanned w @ rs
         \<and> map Resolved (take (length bs - 1) rs) =
             map ?build (zip [?i ..< ?i + length bs] (butlast bs))
         \<and> (\<forall>accs. r = Resolved accs \<longrightarrow>
               bs \<noteq> [] \<and> acc_operations (last bs) = []
               \<and> accs = sp_accounts props @ rs
               \<and> map Resolved rs =
                   map ?build (filter ?shown (zip [?i ..< ?i + length bs] bs)))"
    by (intro exI [of _ bs] exI [of _ rs] conjI)
next
  let ?i = "sp_accountIndex props"
  let ?build = "\<lambda>(j, a). buildAccountRaw env a (sp_isSegwit props) (sp_isUnsplit props)
                          (sp_wallet props) (sp_currencyId props) j (acc_operations a) w"
  let ?shown = "\<lambda>(j :: nat, a :: njs_account). acc_operations a \<noteq> [] \<or> sp_showNewAccount props"
  assume H: "getCryptoCurrencyById env (sp_currencyId props) = Some jc
      \<and> as \<noteq> [] \<and> length as \<le> fuel
      \<and> length wls = Suc (length as) \<and> wls ! 0 = sp_wallet props
      \<and> (\<forall>k < length as. \<forall>w0.
            fst (if sp_accountIndex props + k < sp_accountsCount props
                 then await (wallet_getAccount (wls ! k) (sp_accountIndex props + k), w0)
                        (\<lambda>a w. (Resolved (a, wls ! k), w))
                 else createAccount env (wls ! k) (sp_hwApp props) w0)
            = Resolved (as ! k, wls ! Suc k))
      \<and> (\<forall>a \<in> set as. \<forall>r. receive_events env r (acc_syncEvents a) = Resolved (unsubscribe r))
      \<and> (\<forall>a \<in> set as. acc_freshPublicAddresses a \<noteq> [])
      \<and> (\<forall>a \<in> set (butlast as). acc_operations a \<noteq> [])"
  note cur = H [THEN conjunct1] and h1 = H [THEN conjunct2]
  note ne = h1 [THEN conjunct1] and h2 = h1 [THEN conjunct2]
  note fuel = h2 [THEN conjunct1] and h3 = h2 [THEN conjunct2]
  note len = h3 [THEN conjunct1] and h4 = h3 [THEN conjunct2]
  note hd = h4 [THEN conjunct1] and h5 = h4 [THEN conjunct2]
  note ob = h5 [THEN conjunct1] and h6 = h5 [THEN conjunct2]
  note sy = h6 [THEN conjunct1] and h7 = h6 [THEN conjunct2]
  note ad = h7 [THEN conjunct1] and ops = h7 [THEN conjunct2]
  let ?pe = "\<lambda>rs. props\<lparr>sp_accountIndex := ?i + length as,
                          sp_accounts := sp_accounts props @ rs,
                          sp_wallet := last wls\<rparr>"
  from scanNextAccount_run [OF cur len hd ob sy ad ops ne fuel, of w] obtain rs w1 where
    m: "map Resolved rs = map ?build (filter ?shown (zip [?i ..< ?i + length as] as))"
    and pr: "probed w1 = probed w @ zip [?i ..< ?i + length as] as"
    and sc: "scanned w1 = scanned w @ rs"
    and stop: "acc_operations (last as) = [] \<longrightarrow>
               scanNextAccount fuel env props w = (Resolved (sp_accounts props @ rs), w1)"
    and cont: "acc_operations (last as) \<noteq> [] \<longrightarrow>
               scanNextAccount fuel env props w =
                 scanNextAccount (fuel - length as) env (?pe rs) w1"
    by blast
  have later: "\<exists>ps ss. probed wf = probed w1 @ ps \<and> scanned wf = scanned w1 @ ss"
    if run: "scanNextAccount fuel env props w = (r, wf)" for r wf
  proof (cases "acc_operations (last as) = []")
    case True
    with stop run have "wf = w1" by simp
    then show ?thesis by simp
  next
    case False
    with cont run have "scanNextAccount (fuel - length as) env (?pe rs) w1 = (r, wf)" by simp
    from scanNextAccount_reports [OF this] show ?thesis by blast
  qed
  have "\<forall>r wf. scanNextAccount fuel env props w = (r, wf) \<longrightarrow>
                (\<exists>ps ss. probed wf = probed w1 @ ps \<and> scanned wf = scanned w1 @ ss)"
    using later by (intro allI impI)
  with m pr sc stop cont show "\<exists>rs w1.
          map Resolved rs = map ?build (filter ?shown (zip [?i ..< ?i + length as] as))
          \<and> probed w1 = probed w @ zip [?i ..< ?i + length as] as
          \<and> scanned w1 = scanned w @ rs
          \<and> (acc_operations (last as) = [] \<longrightarrow>
               scanNextAccount fuel env props w = (Resolved (sp_accounts props @ rs), w1))
          \<and> (acc_operations (last as) \<noteq> [] \<longrightarrow>
               scanNextAccount fuel env props w =
                 scanNextAccount (fuel - length as) env
                   (props\<lparr>sp_accountIndex := sp_accountIndex props + length as,
                          sp_accounts := sp_accounts props @ rs,
                          sp_wallet := last wls\<rparr>) w1)
          \<and> (\<forall>r wf. scanNextAccount fuel env props w = (r, wf) \<longrightarrow>
                (\<exists>ps ss. probed wf = probed w1 @ ps \<and> scanned wf = scanned w1 @ ss))"
    by (intro exI [of _ rs] exI [of _ w1] conjI)
qed

theorem scanNextAccount_pass_witness:
  "(\<exists>rs w1. scanNextAccount (Suc (Suc 0)) example_env example_props example_world
        = (Resolved rs, w1)
      \<and> probed w1 = [(0, used_account), (1, empty_account)]
      \<and> scanned w1 = rs
      \<and> map ar_index rs = [0, 1]
      \<and> map (length \<circ> ar_operations) rs = [2, 0])
   \<and> (\<exists>x w1. scanNextAccount (Suc 0) example_env example_props example_world = (OutOfFuel, w1)
      \<and> probed w1 = [(0, used_account)]
      \<and> scanned w1 = [x]
      \<and> ar_index x = 0)"
proof -
  let ?wl1 = "add_account example_wallet 0 used_account"
  let ?wl2 = "add_account ?wl1 1 empty_account"
  let ?as = "[used_account, empty_account]"
  let ?wls = "[example_wallet, ?wl1, ?wl2]"
  let ?build = "\<lambda>(j, a). buildAccountRaw example_env a (sp_isSegwit example_props)
      (sp_isUnsplit example_props) (sp_wallet example_props) (sp_currencyId example_props) j
      (acc_operations a) example_world"
  let ?shown = "\<lambda>(j :: nat, a :: njs_account).
      acc_operations a \<noteq> [] \<or> sp_showNewAccount example_props"
  have props: "sp_accountIndex example_props = 0" "sp_accountsCount example_props = 0"
    "sp_wallet example_props = example_wallet" "sp_hwApp example_props = example_transport"
    "sp_accounts example_props = []" "sp_showNewAccount example_props"
    by (simp_all add: example_props_def)
  have world: "probed example_world = []" "scanned example_world = []"
    by (simp_all add: example_world_def)
  have ops: "acc_operations used_account = [send_operation, receive_operation]"
    "acc_operations empty_account = []"
    by (simp_all add: used_account_def empty_account_def)
  have cur: "getCryptoCurrencyById example_env (sp_currencyId example_props) = Some bitcoin"
    by (simp add: example_env_def example_props_def example_currencies_simps)
  have o0: "fst (createAccount example_env example_wallet example_transport w0)
      = Resolved (used_account, ?wl1)" for w0
    by (simp add: createAccount_def wallet_getNextAccountCreationInfo_def
          wallet_getAccountCreationInfo_def wallet_newAccountWithInfo_def Let_def
          example_env_def example_wallet_def example_transport_def)
  have o1: "fst (createAccount example_env ?wl1 example_transport w0)
      = Resolved (empty_account, ?wl2)" for w0
    by (simp add: createAccount_def wallet_getNextAccountCreationInfo_def
          wallet_getAccountCreationInfo_def wallet_newAccountWithInfo_def Let_def
          example_env_def example_wallet_def example_transport_def add_account_def)
  have sy0: "receive_events example_env r (acc_syncEvents used_account) = Resolved (unsubscribe r)"
    "receive_events example_env r (acc_syncEvents empty_account) = Resolved (unsubscribe r)" for r
    by (simp_all add: used_account_def empty_account_def succeed_event_def)
  have ad0: "acc_freshPublicAddresses used_account \<noteq> []"
    "acc_freshPublicAddresses empty_account \<noteq> []"
    by (simp_all add: used_account_def empty_account_def)
  from buildAccountRaw_succeeds [OF cur ad0(1)] obtain x0 where
    b0: "buildAccountRaw example_env used_account (sp_isSegwit example_props)
      (sp_isUnsplit example_props) (sp_wallet example_props) (sp_currencyId example_props) 0
      (acc_operations used_account) example_world = Resolved x0"
    by blast
  from buildAccountRaw_succeeds [OF cur ad0(2)] obtain x1 where
    b1: "buildAccountRaw example_env empty_account (sp_isSegwit example_props)
      (sp_isUnsplit example_props) (sp_wallet example_props) (sp_currencyId example_props) 1
      (acc_operations empty_account) example_world = Resolved x1"
    by blast
  have x0: "ar_index x0 = 0" "length (ar_operations x0) = 2"
    using buildAccountRaw_Resolved [OF b0] by (simp_all add: ops sort_operations_def)
  have x1: "ar_index x1 = 1" "length (ar_operations x1) = 0"
    using buildAccountRaw_Resolved [OF b1] by (simp_all add: ops sort_operations_def)
  have H2: "getCryptoCurrencyById example_env (sp_currencyId example_props) = Some bitcoin
      \<and> ?as \<noteq> [] \<and> length ?as \<le> Suc (Suc 0)
      \<and> length ?wls = Suc (length ?as) \<and> ?wls ! 0 = sp_wallet example_props
      \<and> (\<forall>k < length ?as. \<forall>w0.
            fst (if sp_accountIndex example_props + k < sp_accountsCount example_props
                 then await (wallet_getAccount (?wls ! k) (sp_accountIndex example_props + k), w0)
                        (\<lambda>a w. (Resolved (a, ?wls ! k), w))
                 else createAccount example_env (?wls ! k) (sp_hwApp example_props) w0)
            = Resolved (?as ! k, ?wls ! Suc k))
      \<and> (\<forall>a \<in> set ?as. \<forall>r. receive_events example_env r (acc_syncEvents a)
            = Resolved (unsubscribe r))
      \<and> (\<forall>a \<in> set ?as. acc_freshPublicAddresses a \<noteq> [])
      \<and> (\<forall>a \<in> set (butlast ?as). acc_operations a \<noteq> [])"
    using cur o0 o1 sy0 ad0 by (simp add: props ops less_Suc_eq)
  have H1: "getCryptoCurrencyById example_env (sp_currencyId example_props) = Some bitcoin
      \<and> [used_account] \<noteq> [] \<and> length [used_account] \<le> Suc 0
      \<and> length [example_wallet, ?wl1] = Suc (length [used_account])
      \<and> [example_wallet, ?wl1] ! 0 = sp_wallet example_props
      \<and> (\<forall>k < length [used_account]. \<forall>w0.
            fst (if sp_accountIndex example_props + k < sp_accountsCount example_props
                 then await (wallet_getAccount ([example_wallet, ?wl1] ! k)
                               (sp_accountIndex example_props + k), w0)
                        (\<lambda>a w. (Resolved (a, [example_wallet, ?wl1] ! k), w))
                 else createAccount example_env ([example_wallet, ?wl1] ! k)
                        (sp_hwApp example_props) w0)
            = Resolved ([used_account] ! k, [example_wallet, ?wl1] ! Suc k))
      \<and> (\<forall>a \<in> set [used_account]. \<forall>r. receive_events example_env r (acc_syncEvents a)
            = Resolved (unsubscribe r))
      \<and> (\<forall>a \<in> set [used_account]. acc_freshPublicAddresses a \<noteq> [])
      \<and> (\<forall>a \<in> set (butlast [used_account]). acc_operations a \<noteq> [])"
    using cur o0 sy0 ad0 by (simp add: props ops)
  from scanNextAccount_pass [where w = example_world, THEN conjunct2, rule_format, OF H2]
  obtain rs w1 where
    m: "map Resolved rs = map ?build (filter ?shown (zip [sp_accountIndex example_props ..<
          sp_accountIndex example_props + length ?as] ?as))"
    and pr: "probed w1 = probed example_world @ zip [sp_accountIndex example_props ..<
          sp_accountIndex example_props + length ?as] ?as"
    and sc: "scanned w1 = scanned example_world @ rs"
    and stop: "acc_operations (last ?as) = [] \<longrightarrow>
        scanNextAccount (Suc (Suc 0)) example_env example_props example_world
          = (Resolved (sp_accounts example_props @ rs), w1)"
    by blast
  have idx: "zip [sp_accountIndex example_props ..< sp_accountIndex example_props + length ?as] ?as
      = [(0, used_account), (1, empty_account)]"
    by (simp add: props upt_rec)
  have "map Resolved rs = [Resolved x0, Resolved x1]"
    using m b0 b1 unfolding idx by (simp add: props ops)
  then have rs: "rs = [x0, x1]" by auto
  have A: "scanNextAccount (Suc (Suc 0)) example_env example_props example_world
        = (Resolved rs, w1)
      \<and> probed w1 = [(0, used_account), (1, empty_account)]
      \<and> scanned w1 = rs
      \<and> map ar_index rs = [0, 1]
      \<and> map (length \<circ> ar_operations) rs = [2, 0]"
    using stop pr sc x0 x1 unfolding idx rs by (simp add: props ops world)
  from scanNextAccount_pass [where w = example_world, THEN conjunct2, rule_format, OF H1]
  obtain rs' w1' where
    m': "map Resolved rs' = map ?build (filter ?shown (zip [sp_accountIndex example_props ..<
          sp_accountIndex example_props + length [used_account]] [used_account]))"
    and pr': "probed w1' = probed example_world @ zip [sp_accountIndex example_props ..<
          sp_accountIndex example_props + length [used_account]] [used_account]"
    and sc': "scanned w1' = scanned example_world @ rs'"
    and cont: "acc_operations (last [used_account]) \<noteq> [] \<longrightarrow>
        scanNextAccount (Suc 0) example_env example_props example_world
          = scanNextAccount (Suc 0 - length [used_account]) example_env
              (example_props\<lparr>sp_accountIndex := sp_accountIndex example_props + length [used_account],
                 sp_accounts := sp_accounts example_props @ rs',
                 sp_wallet := last [example_wallet, ?wl1]\<rparr>) w1'"
    by blast
  have "map Resolved rs' = [Resolved x0]"
    using m' b0 by (simp add: props ops upt_rec)
  then have rs': "rs' = [x0]" by auto
  have B: "scanNextAccount (Suc 0) example_env example_props example_world = (OutOfFuel, w1')
      \<and> probed w1' = [(0, used_account)]
      \<and> scanned w1' = [x0]
      \<and> ar_index x0 = 0"
    using cont pr' sc' x0 unfolding rs'
    by (simp add: props ops world upt_rec scanNextAccount.simps)
  from A have A': "\<exists>rs w1. scanNextAccount (Suc (Suc 0)) example_env example_props example_world
        = (Resolved rs, w1)
      \<and> probed w1 = [(0, used_account), (1, empty_account)]
      \<and> scanned w1 = rs
      \<and> map ar_index rs = [0, 1]
      \<and> map (length \<circ> ar_operations) rs = [2, 0]"
    by (intro exI)
  from B have B': "\<exists>x w1. scanNextAccount (Suc 0) example_env example_props example_world
        = (OutOfFuel, w1)
      \<and> probed w1 = [(0, used_account)]
      \<and> scanned w1 = [x]
      \<and> ar_index x = 0"
    by (intro exI)
  from A' B' show ?thesis by (intro conjI)
qed

section \<open>The passes of a discovery\<close>

lemma SPLITTED_CURRENCIES_iff:
  "(SPLITTED_CURRENCIES cid \<noteq> None) = (cid \<in> {''bitcoin_cash'', ''bitcoin_gold''})"
  by (simp add: SPLITTED_CURRENCIES_def)

lemma await_assoc:
  "await (await r k) k' = await r (\<lambda>a s. await (k a s) k')"
  by (simp add: await_def split: prod.splits promise.splits)

lemma await_return [simp]: "await r (\<lambda>a s. (Resolved a, s)) = r"
  by (simp add: await_def split: prod.splits promise.splits)

text \<open>
  The job of \<open>scanAccountsOnDevice\<close> runs the passes of the currency one after the other
  and returns their results, concatenated.
\<close>

lemma job_run_passes:
  "scanAccountsOnDevice_job fuel env cid currency t w =
     await (run_passes fuel env t cid
              (discovery_passes (SHOW_LEGACY_NEW_ACCOUNT env) (cur_supportsSegwit currency)
                 (cid \<in> {''bitcoin_cash'', ''bitcoin_gold''})) w)
       (\<lambda>rs w. (Resolved (concat rs), w))"
  unfolding scanAccountsOnDevice_job_def discovery_passes_def SPLITTED_CURRENCIES_iff Let_def
  by (simp add: await_assoc)

lemma discovery_passes_flags:
  "\<forall>(sg, us, sh) \<in> set (discovery_passes L S P).
     sh = (if us then False else if sg then True else L \<or> \<not> S)"
  by (auto simp: discovery_passes_def)

lemma discovery_passes_which:
  "map (\<lambda>(sg, us, sh). (sg, us)) (discovery_passes L S P) =
     [(False, False)] @ (if S then [(True, False)] else [])
       @ (if P then [(False, True)] @ (if S then [(True, True)] else []) else [])"
  by (simp add: discovery_passes_def)

lemmas scan_defs =
  scanAccountsOnDevice_def scanAccountsOnDevice_job_def scanAccountsOnDeviceBySegwit_def
  withDevice_def open_transport_def close_transport_def walletPublicKeyPath_def
  encodeWalletName_def getOrCreateWallet_def pool_getWallet_def pool_createWallet_def
  SPLITTED_CURRENCIES_def apostrophe_def string_of_nat.simps fuel3_def

text \<open>
  Claim C2. For a known currency, \<open>scanAccountsOnDevice\<close> runs, on the open transport, the
  passes of \<open>discovery_passes\<close> in their order and returns the concatenation of their
  results. These passes are: the legacy pass (not segwit, not unsplit); then a segwit pass
  if and only if the currency supports segwit; then an unsplit legacy pass if and only if
  the currency is \<open>bitcoin_cash\<close> or \<open>bitcoin_gold\<close>, the keys of the table of split
  currencies; then an unsplit segwit pass if and only if both hold.
\<close>

theorem scanAccountsOnDevice_passes:
  "(getCryptoCurrencyById env cid = Some currency \<longrightarrow>
      scanAccountsOnDevice fuel env devicePath cid w =
        withDevice env devicePath
          (\<lambda>t w. await (run_passes fuel env t cid
                          (discovery_passes (SHOW_LEGACY_NEW_ACCOUNT env)
                             (cur_supportsSegwit currency)
                             (cid \<in> {''bitcoin_cash'', ''bitcoin_gold''})) w)
                   (\<lambda>rs w. (Resolved (concat rs), w))) w)
   \<and> map (\<lambda>(sg, us, sh). (sg, us)) (discovery_passes L S P) =
       [(False, False)] @ (if S then [(True, False)] else [])
         @ (if P then [(False, True)] @ (if S then [(True, True)] else []) else [])
   \<and> ((SPLITTED_CURRENCIES cid \<noteq> None) = (cid \<in> {''bitcoin_cash'', ''bitcoin_gold''}))"
proof -
  have "scanAccountsOnDevice_job fuel env cid currency =
      (\<lambda>t w. await (run_passes fuel env t cid
                          (discovery_passes (SHOW_LEGACY_NEW_ACCOUNT env)
                             (cur_supportsSegwit currency)
                             (cid \<in> {''bitcoin_cash'', ''bitcoin_gold''})) w)
                   (\<lambda>rs w. (Resolved (concat rs), w)))"
    by (intro ext) (rule job_run_passes)
  then have "getCryptoCurrencyById env cid = Some currency \<longrightarrow>
      scanAccountsOnDevice fuel env devicePath cid w =
        withDevice env devicePath
          (\<lambda>t w. await (run_passes fuel env t cid
                          (discovery_passes (SHOW_LEGACY_NEW_ACCOUNT env)
                             (cur_supportsSegwit currency)
                             (cid \<in> {''bitcoin_cash'', ''bitcoin_gold''})) w)
                   (\<lambda>rs w. (Resolved (concat rs), w))) w"
    by (simp add: scanAccountsOnDevice_def)
  then show ?thesis
    using discovery_passes_which [of L S P] SPLITTED_CURRENCIES_iff [of cid]
    by (intro conjI)
qed

theorem scanAccountsOnDevice_passes_witness:
  "getCryptoCurrencyById example_env ''bitcoin_cash'' = Some bitcoin_cash
   \<and> scanAccountsOnDevice fuel3 example_env ''hid0'' ''bitcoin_cash'' example_world =
        withDevice example_env ''hid0''
          (\<lambda>t w. await (run_passes fuel3 example_env t ''bitcoin_cash''
                          [(False, False, False), (True, False, True),
                           (False, True, False), (True, True, False)] w)
                   (\<lambda>rs w. (Resolved (concat rs), w))) example_world
   \<and> wallet_names (fst (scanAccountsOnDevice fuel3 example_env ''hid0'' ''bitcoin_cash''
                           example_world))
       = [''pk__bitcoin_cash'', ''pk__bitcoin_cash_segwit'', ''pk__bitcoin_cash_segwit'',
          ''pk__bitcoin_cash_unsplit'', ''pk__bitcoin_cash_segwit_unsplit'']"
proof -
  have cur: "getCryptoCurrencyById example_env ''bitcoin_cash'' = Some bitcoin_cash"
    by (simp add: example_env_def example_currencies_simps)
  have ps: "discovery_passes (SHOW_LEGACY_NEW_ACCOUNT example_env)
      (cur_supportsSegwit bitcoin_cash) (''bitcoin_cash'' \<in> {''bitcoin_cash'', ''bitcoin_gold''})
      = [(False, False, False), (True, False, True), (False, True, False), (True, True, False)]"
    by (simp add: discovery_passes_def example_env_def bitcoin_cash_def)
  have names: "wallet_names (fst (scanAccountsOnDevice fuel3 example_env ''hid0''
      ''bitcoin_cash'' example_world))
       = [''pk__bitcoin_cash'', ''pk__bitcoin_cash_segwit'', ''pk__bitcoin_cash_segwit'',
          ''pk__bitcoin_cash_unsplit'', ''pk__bitcoin_cash_segwit_unsplit'']"
    by (simp add: wallet_names_def scan_defs example_defs step_defs scanNextAccount.simps)
  from scanAccountsOnDevice_passes [of example_env "''bitcoin_cash''" bitcoin_cash fuel3
      "''hid0''" example_world] cur
  have "scanAccountsOnDevice fuel3 example_env ''hid0'' ''bitcoin_cash'' example_world =
        withDevice example_env ''hid0''
          (\<lambda>t w. await (run_passes fuel3 example_env t ''bitcoin_cash''
                          (discovery_passes (SHOW_LEGACY_NEW_ACCOUNT example_env)
                             (cur_supportsSegwit bitcoin_cash)
                             (''bitcoin_cash'' \<in> {''bitcoin_cash'', ''bitcoin_gold''})) w)
                   (\<lambda>rs w. (Resolved (concat rs), w))) example_world"
    by blast
  then show ?thesis unfolding ps using cur names by (intro conjI)
qed

section \<open>The account without operations that ends a pass\<close>

lemma sort_operations_Nil [simp]: "(sort_operations ops = []) = (ops = [])"
proof -
  have "length (sort_operations ops) = length ops"
    by (simp add: sort_operations_def)
  then show ?thesis by (metis length_0_conv)
qed

lemma getOrCreateWallet_frame:
  assumes "getOrCreateWallet env n cid sg us w = (r, w1)"
  shows "probed w1 = probed w \<and> scanned w1 = scanned w \<and> now w1 = now w
       \<and> subscribed w1 = subscribed w \<and> next_receiver w1 = next_receiver w
       \<and> warnings w1 = warnings w"
  using assms
  by (auto simp: getOrCreateWallet_def pool_createWallet_def await_def Let_def
        split: promise.splits prod.splits)

lemma scanAccountsOnDeviceBySegwit_Resolved:
  assumes "scanAccountsOnDeviceBySegwit fuel env hw cid sg us sh w = (Resolved accs, w')"
  shows "\<exists>wallet w1. probed w1 = probed w \<and> scanned w1 = scanned w \<and> now w1 = now w
       \<and> subscribed w1 = subscribed w \<and> next_receiver w1 = next_receiver w
       \<and> scanNextAccount fuel env
           \<lparr> sp_wallet = wallet, sp_hwApp = hw, sp_currencyId = cid,
             sp_accountsCount = length (w_accounts wallet), sp_accountIndex = 0,
             sp_accounts = [], sp_isSegwit = sg, sp_isUnsplit = us,
             sp_showNewAccount = sh \<rparr> w1 = (Resolved accs, w')"
proof -
  from assms obtain key :: hw_key and wallet w1 where
    g: "getOrCreateWallet env (encodeWalletName (hk_publicKey key) cid sg us) cid sg us w
          = (Resolved wallet, w1)"
    and s: "scanNextAccount fuel env
           \<lparr> sp_wallet = wallet, sp_hwApp = hw, sp_currencyId = cid,
             sp_accountsCount = length (w_accounts wallet), sp_accountIndex = 0,
             sp_accounts = [], sp_isSegwit = sg, sp_isUnsplit = us,
             sp_showNewAccount = sh \<rparr> w1 = (Resolved accs, w')"
    by (auto simp: scanAccountsOnDeviceBySegwit_def await_Resolved_iff Let_def)
  from getOrCreateWallet_frame [OF g] s show ?thesis by blast
qed

text \<open>
  A pass that resolves ends at an account without operations; the result holds it, as its
  last element, exactly when the pass shows new accounts.
\<close>

lemma terminal_account:
  assumes "scanAccountsOnDeviceBySegwit fuel env hw cid sg us sh w = (Resolved accs, w')"
  shows "\<exists>k a. probed w' \<noteq> [] \<and> last (probed w') = (k, a) \<and> acc_operations a = []
          \<and> scanned w' = scanned w @ accs
          \<and> (sh \<longrightarrow> accs \<noteq> [] \<and> ar_index (last accs) = k
                     \<and> ar_xpub (last accs) = acc_restoreKey a \<and> ar_operations (last accs) = [])
          \<and> (\<not> sh \<longrightarrow> (\<forall>r \<in> set accs. ar_operations r \<noteq> []))"
proof -
  from scanAccountsOnDeviceBySegwit_Resolved [OF assms] obtain wallet w1 where
    f: "probed w1 = probed w" "scanned w1 = scanned w"
    and s: "scanNextAccount fuel env
           \<lparr> sp_wallet = wallet, sp_hwApp = hw, sp_currencyId = cid,
             sp_accountsCount = length (w_accounts wallet), sp_accountIndex = 0,
             sp_accounts = [], sp_isSegwit = sg, sp_isUnsplit = us,
             sp_showNewAccount = sh \<rparr> w1 = (Resolved accs, w')"
    by blast
  define build where
    "build = (\<lambda>(j, a). buildAccountRaw env a sg us wallet cid j (acc_operations a) w1)"
  define shown where
    "shown = (\<lambda>(j :: nat, a :: njs_account). acc_operations a \<noteq> [] \<or> sh)"
  have "\<exists>as. as \<noteq> [] \<and> probed w' = probed w1 @ zip [0 ..< length as] as
      \<and> acc_operations (last as) = [] \<and> scanned w' = scanned w1 @ accs
      \<and> map Resolved accs = map build (filter shown (zip [0 ..< length as] as))"
    using scanNextAccount_trace [OF s] unfolding build_def shown_def by simp blast
  then obtain as where
    ne: "as \<noteq> []"
    and pr: "probed w' = probed w1 @ zip [0 ..< length as] as"
    and la: "acc_operations (last as) = []"
    and sc: "scanned w' = scanned w1 @ accs"
    and m: "map Resolved accs = map build (filter shown (zip [0 ..< length as] as))"
    by blast
  define z where "z = zip [0 ..< length as] as"
  have zlen: "length z = length as" by (simp add: z_def)
  have zne: "z \<noteq> []" using ne zlen by auto
  have zlast: "last z = (length as - 1, last as)"
    unfolding z_def using ne by (simp add: last_zip)
  have p1: "probed w' \<noteq> []" using pr zne by (simp add: z_def)
  have p2: "last (probed w') = (length as - 1, last as)"
    using pr zne zlast by (simp add: z_def)
  have p3: "scanned w' = scanned w @ accs" using sc f by simp
  have p4: "accs \<noteq> [] \<and> ar_index (last accs) = length as - 1
      \<and> ar_xpub (last accs) = acc_restoreKey (last as) \<and> ar_operations (last accs) = []" if sh
  proof -
    from that have filt: "filter shown z = z" by (simp add: shown_def)
    with m have m': "map Resolved accs = map build z" by (simp add: z_def)
    from arg_cong [OF m', of length] have "length accs = length z" by simp
    with zne have ane: "accs \<noteq> []" by auto
    have "Resolved (last accs) = last (map Resolved accs)"
      using ane by (simp add: last_map)
    also have "\<dots> = build (last z)"
      unfolding m' using zne by (simp add: last_map)
    finally have "buildAccountRaw env (last as) sg us wallet cid (length as - 1)
        (acc_operations (last as)) w1 = Resolved (last accs)"
      unfolding zlast build_def by simp
    from buildAccountRaw_Resolved [OF this] la ane show ?thesis by simp
  qed
  have p5: "\<forall>r \<in> set accs. ar_operations r \<noteq> []" if "\<not> sh"
  proof
    fix r assume "r \<in> set accs"
    then have "Resolved r \<in> set (map Resolved accs)" by simp
    then have "Resolved r \<in> build ` set (filter shown z)"
      unfolding m z_def by simp
    then obtain x where x: "x \<in> set (filter shown z)" "build x = Resolved r" by force
    obtain j a where ja: "x = (j, a)" by force
    from x that have "acc_operations a \<noteq> []"
      and "buildAccountRaw env a sg us wallet cid j (acc_operations a) w1 = Resolved r"
      unfolding ja by (simp_all add: shown_def build_def)
    with buildAccountRaw_Resolved [of env a sg us wallet cid j "acc_operations a" w1 r]
    show "ar_operations r \<noteq> []" by simp
  qed
  from p1 p2 p3 p4 p5 la show ?thesis
    by (intro exI [of _ "length as - 1"] exI [of _ "last as"]) simp
qed

text \<open>
  Claim C5, as stated, fails. In the example the constant \<open>SHOW_LEGACY_NEW_ACCOUNT\<close> is off
  and \<open>bitcoin\<close> supports segwit: the legacy pass leaves its account without operations
  (index 1) out, and the segwit pass returns its one. With the constant on, both passes
  return theirs; the segwit pass never leaves it out.
\<close>

theorem segwit_pass_shows_new_account:
  "summary (fst (scanAccountsOnDevice fuel3 example_env ''hid0'' ''bitcoin'' example_world))
     = [(False, 0, 2), (True, 0, 2), (True, 1, 0)]
   \<and> summary (fst (scanAccountsOnDevice fuel3 legacy_shown_env ''hid0'' ''bitcoin''
                     example_world))
     = [(False, 0, 2), (False, 1, 0), (True, 0, 2), (True, 1, 0)]"
  by (simp add: summary_def legacy_shown_env_def scan_defs example_defs step_defs
        scanNextAccount.simps)

text \<open>
  Claim C5, amended. A pass that resolves ends at an account without operations, the last
  one it probed. If the pass shows new accounts, the projection of that account is the last
  element of the result and the last account reported by \<open>onAccountScanned\<close>; if not, no
  account of the result is without operations. \<open>onAccountScanned\<close> is called for the
  accounts of the result, in order. Of the passes that \<open>scanAccountsOnDevice\<close> runs, the
  legacy pass shows new accounts if and only if \<open>SHOW_LEGACY_NEW_ACCOUNT\<close> is set or the
  currency does not support segwit; the segwit pass always does; the unsplit passes never
  do.
\<close>

theorem terminal_account_shown:
  "(scanAccountsOnDeviceBySegwit fuel env hw cid sg us sh w = (Resolved accs, w') \<longrightarrow>
      (\<exists>k a. probed w' \<noteq> [] \<and> last (probed w') = (k, a) \<and> acc_operations a = []
          \<and> scanned w' = scanned w @ accs
          \<and> (sh \<longrightarrow> accs \<noteq> [] \<and> ar_index (last accs) = k
                     \<and> ar_xpub (last accs) = acc_restoreKey a \<and> ar_operations (last accs) = [])
          \<and> (\<not> sh \<longrightarrow> (\<forall>r \<in> set accs. ar_operations r \<noteq> []))))
   \<and> scanAccountsOnDevice_job fuel env cid currency t w0 =
       await (run_passes fuel env t cid
                (discovery_passes (SHOW_LEGACY_NEW_ACCOUNT env) (cur_supportsSegwit currency)
                   (cid \<in> {''bitcoin_cash'', ''bitcoin_gold''})) w0)
         (\<lambda>rs w. (Resolved (concat rs), w))
   \<and> (\<forall>(sg, us, sh) \<in> set (discovery_passes L S P).
         sh = (if us then False else if sg then True else L \<or> \<not> S))"
  using terminal_account [of fuel env hw cid sg us sh w accs w']
    job_run_passes [of fuel env cid currency t w0] discovery_passes_flags [of L S P]
  by blast

lemma example_pass_hidden:
  "\<exists>accs w'. scanAccountsOnDeviceBySegwit fuel3 example_env example_transport ''bitcoin''
        False False False example_world = (Resolved accs, w')
     \<and> map ar_index accs = [0] \<and> map fst (probed w') = [0, 1]"
  by (simp add: scan_defs example_defs step_defs scanNextAccount.simps)

lemma example_pass_shown:
  "\<exists>accs w'. scanAccountsOnDeviceBySegwit fuel3 example_env example_transport ''bitcoin''
        True False True example_world = (Resolved accs, w')
     \<and> map ar_index accs = [0, 1] \<and> map fst (probed w') = [0, 1]"
  by (simp add: scan_defs example_defs step_defs scanNextAccount.simps)

theorem terminal_account_shown_witness:
  "(\<exists>accs w'. scanAccountsOnDeviceBySegwit fuel3 example_env example_transport ''bitcoin''
        False False False example_world = (Resolved accs, w')
     \<and> map ar_index accs = [0] \<and> map fst (probed w') = [0, 1]
     \<and> list_all (\<lambda>r. ar_operations r \<noteq> []) accs)
   \<and> (\<exists>accs w'. scanAccountsOnDeviceBySegwit fuel3 example_env example_transport ''bitcoin''
        True False True example_world = (Resolved accs, w')
     \<and> map ar_index accs = [0, 1] \<and> map fst (probed w') = [0, 1]
     \<and> ar_operations (last accs) = [])"
proof -
  from example_pass_hidden obtain accs1 w1 where
    e1: "scanAccountsOnDeviceBySegwit fuel3 example_env example_transport ''bitcoin''
        False False False example_world = (Resolved accs1, w1)"
    and i1: "map ar_index accs1 = [0]" "map fst (probed w1) = [0, 1]"
    by auto
  from example_pass_shown obtain accs2 w2 where
    e2: "scanAccountsOnDeviceBySegwit fuel3 example_env example_transport ''bitcoin''
        True False True example_world = (Resolved accs2, w2)"
    and i2: "map ar_index accs2 = [0, 1]" "map fst (probed w2) = [0, 1]"
    by auto
  from terminal_account_shown [of fuel3 example_env example_transport "''bitcoin''"
      False False False example_world accs1 w1] e1
  have "\<forall>r \<in> set accs1. ar_operations r \<noteq> []" by blast
  then have h1: "list_all (\<lambda>r. ar_operations r \<noteq> []) accs1"
    by (simp add: list_all_iff)
  from terminal_account_shown [of fuel3 example_env example_transport "''bitcoin''"
      True False True example_world accs2 w2] e2
  have h2: "ar_operations (last accs2) = []" by blast
  have "scanAccountsOnDeviceBySegwit fuel3 example_env example_transport ''bitcoin''
        False False False example_world = (Resolved accs1, w1)
     \<and> map ar_index accs1 = [0] \<and> map fst (probed w1) = [0, 1]
     \<and> list_all (\<lambda>r. ar_operations r \<noteq> []) accs1"
    using e1 i1 h1 by (intro conjI)
  then have x1: "\<exists>accs w'. scanAccountsOnDeviceBySegwit fuel3 example_env example_transport
        ''bitcoin'' False False False example_world = (Resolved accs, w')
     \<and> map ar_index accs = [0] \<and> map fst (probed w') = [0, 1]
     \<and> list_all (\<lambda>r. ar_operations r \<noteq> []) accs"
    by (intro exI)
  have "scanAccountsOnDeviceBySegwit fuel3 example_env example_transport ''bitcoin''
        True False True example_world = (Resolved accs2, w2)
     \<and> map ar_index accs2 = [0, 1] \<and> map fst (probed w2) = [0, 1]
     \<and> ar_operations (last accs2) = []"
    using e2 i2 h2 by (intro conjI)
  then have x2: "\<exists>accs w'. scanAccountsOnDeviceBySegwit fuel3 example_env example_transport
        ''bitcoin'' True False True example_world = (Resolved accs, w')
     \<and> map ar_index accs = [0, 1] \<and> map fst (probed w') = [0, 1]
     \<and> ar_operations (last accs) = []"
    by (intro exI)
  from x1 x2 show ?thesis by (intro conjI)
qed

section \<open>Synchronizing an account\<close>


lemma frame_pool [simp]:
  "pool (logger_warn x w) = pool w"
  "pool (unsubscribe r w) = pool w"
  "pool (w\<lparr>now := t\<rparr>) = pool w"
  by (simp_all add: logger_warn_def unsubscribe_def)

lemma pool_getWallet_cong: "pool w' = pool w \<Longrightarrow> pool_getWallet n w' = pool_getWallet n w"
  by (simp add: pool_getWallet_def)

lemma pool_getWallet_name:
  "pool_getWallet n w = Resolved wl \<Longrightarrow> w_name wl = n"
  by (auto simp: pool_getWallet_def find_Some_iff split: option.splits)

lemma find_map_replace:
  "find (\<lambda>x. w_name x = n) xs \<noteq> None \<Longrightarrow> w_name wl = n \<Longrightarrow>
   find (\<lambda>x. w_name x = n) (map (\<lambda>x. if w_name x = n then wl else x) xs) = Some wl"
  by (induction xs) auto

lemma find_append_new:
  "find P xs = None \<Longrightarrow> P x \<Longrightarrow> find P (xs @ [x]) = Some x"
  by (induction xs) (auto split: if_splits)

lemma pool_getWallet_store:
  "w_name wl = n \<Longrightarrow> pool_getWallet n (store_wallet wl w) = Resolved wl"
  by (auto simp: pool_getWallet_def store_wallet_def find_map_replace find_append_new)

lemma getOrCreateWallet_Resolved:
  assumes "getOrCreateWallet env n cid sg us w = (Resolved wl, w1)"
  shows "pool_getWallet n w1 = Resolved wl"
proof (cases "pool_getWallet n w")
  case (Resolved x)
  with assms show ?thesis by (simp add: getOrCreateWallet_def)
next
  case (Rejected e)
  with assms show ?thesis
    by (auto simp: getOrCreateWallet_def await_Resolved_iff pool_createWallet_def Let_def
          pool_getWallet_store)
qed (use assms in \<open>simp_all add: getOrCreateWallet_def\<close>)

lemma getOrCreateWallet_fresh:
  assumes "pool_getWallet n w = Rejected e"
    and "getOrCreateWallet env n cid sg us w = (Resolved wl, w1)"
  shows "w_name wl = n \<and> w_accounts wl = [] \<and> pool_getCurrency env cid = Resolved (w_currency wl)"
  using assms
  by (auto simp: getOrCreateWallet_def await_Resolved_iff pool_createWallet_def Let_def)

lemma wallet_getAccount_add:
  "wallet_getAccount wl i = Rejected e \<Longrightarrow> wallet_getAccount (add_account wl i a) i = Resolved a"
  by (auto simp: wallet_getAccount_def add_account_def map_of_append split: option.splits)

lemma newAccountWithExtendedKeyInfo_Resolved:
  assumes "wallet_newAccountWithExtendedKeyInfo env wl info w = (Resolved (a, wl'), w1)"
  shows "wl' = add_account wl (ei_index info) a
       \<and> indexer_newAccountWithExtendedKeyInfo env wl info = Resolved a
       \<and> w1 = store_wallet wl' w"
  using assms
  by (auto simp: wallet_newAccountWithExtendedKeyInfo_def await_Resolved_iff Let_def)

lemma receive_events_Resolved:
  "receive_events env r evs = Resolved u \<Longrightarrow> u = unsubscribe r"
  by (induction evs) (auto simp: Let_def split: if_splits)

lemma receive_events_other:
  "receive_events env r evs = Resolved u \<Longrightarrow> receive_events env r' evs = Resolved (unsubscribe r')"
  by (induction evs) (auto simp: Let_def split: if_splits)

lemma buildAccountRaw_Resolved_other:
  assumes "buildAccountRaw env a sg us wl cid i ops w = Resolved b"
  shows "\<exists>b'. buildAccountRaw env a sg' us' wl' cid i ops w' = Resolved b'
       \<and> ar_operations b' = ar_operations b \<and> ar_balance b' = ar_balance b
       \<and> ar_xpub b' = ar_xpub b"
  using assms
  by (auto simp: buildAccountRaw_def Let_def split: option.splits list.splits prod.splits)

lemma coreSyncAccount_pool:
  "coreSyncAccount env a w = (r, w1) \<Longrightarrow> pool w1 = pool w"
  by (auto simp: coreSyncAccount_def createEventReceiver_def subscribeToEventBus_def Let_def)

lemma coreSyncAccount_Resolved:
  assumes "coreSyncAccount env a w = (Resolved u, w1)"
  shows "receive_events env (next_receiver w) (acc_syncEvents a) = Resolved u
       \<and> u = unsubscribe (next_receiver w)
       \<and> w1 = w\<lparr>next_receiver := next_receiver w + 1,
                  subscribed := subscribed w @ [next_receiver w]\<rparr>"
  using assms receive_events_Resolved [of env "next_receiver w" "acc_syncEvents a" u]
  by (auto simp: coreSyncAccount_def createEventReceiver_def subscribeToEventBus_def Let_def)

lemma syncAccount_Resolved:
  assumes "syncAccount env raw w = (Resolved s, w1)"
  shows "\<exists>wl njs b wb.
      pool_getWallet (id_walletName (ar_id raw)) w1 = Resolved wl
    \<and> wallet_getAccount wl (ar_index raw) = Resolved njs
    \<and> receive_events env 0 (acc_syncEvents njs) = Resolved (unsubscribe 0)
    \<and> buildAccountRaw env njs (isSegwitAccount env raw)
          (isUnsplitAccount env raw (SPLITTED_CURRENCIES (ar_currencyId raw))) wl
          (ar_currencyId raw) (ar_index raw) (acc_operations njs) wb = Resolved b
    \<and> s = b\<lparr>ar_balance := acc_balance njs\<rparr>"
proof -
  let ?n = "id_walletName (ar_id raw)"
  let ?i = "ar_index raw"
  let ?sg = "isSegwitAccount env raw"
  let ?us = "isUnsplitAccount env raw (SPLITTED_CURRENCIES (ar_currencyId raw))"
  from assms obtain njsWallet wA njs wl' wB unsub wC b where
    W: "(case pool_getWallet ?n w of
           Rejected e \<Rightarrow> getOrCreateWallet env ?n (ar_currencyId raw) ?sg ?us
                          (logger_warn (HaveToReimport e) w)
         | r \<Rightarrow> (r, w)) = (Resolved njsWallet, wA)"
    and A: "(case wallet_getAccount njsWallet ?i of
              Rejected e \<Rightarrow>
                wallet_newAccountWithExtendedKeyInfo env njsWallet
                  \<lparr>ei_index = ?i, ei_extendedKeys = [id_xpub (ar_id raw)]\<rparr>
                  (logger_warn (HaveToRecreate e) wA)
            | Resolved a \<Rightarrow> (Resolved (a, njsWallet), wA)
            | Pending \<Rightarrow> (Pending, wA)
            | OutOfFuel \<Rightarrow> (OutOfFuel, wA)) = (Resolved (njs, wl'), wB)"
    and S: "coreSyncAccount env njs wB = (Resolved unsub, wC)"
    and B: "buildAccountRaw env njs ?sg ?us wl' (ar_currencyId raw) ?i (acc_operations njs)
              (unsub wC) = Resolved b"
    and s: "s = b\<lparr>ar_balance := acc_balance njs\<rparr>"
    and w1: "w1 = unsub wC"
    unfolding syncAccount_def Let_def
    by (auto simp: await_Resolved_iff cong del: promise.case_cong_weak)
  have PA: "pool_getWallet ?n wA = Resolved njsWallet"
  proof (cases "pool_getWallet ?n w")
    case (Rejected e)
    with W show ?thesis by (simp add: getOrCreateWallet_Resolved)
  qed (use W in auto)
  then have nameW: "w_name njsWallet = ?n" by (rule pool_getWallet_name)
  have PB: "pool_getWallet ?n wB = Resolved wl' \<and> wallet_getAccount wl' ?i = Resolved njs"
  proof (cases "wallet_getAccount njsWallet ?i")
    case (Resolved a)
    with A PA show ?thesis by simp
  next
    case (Rejected e)
    with A have N: "wallet_newAccountWithExtendedKeyInfo env njsWallet
                  \<lparr>ei_index = ?i, ei_extendedKeys = [id_xpub (ar_id raw)]\<rparr>
                  (logger_warn (HaveToRecreate e) wA) = (Resolved (njs, wl'), wB)"
      by simp
    from newAccountWithExtendedKeyInfo_Resolved [OF N]
    have wl': "wl' = add_account njsWallet ?i njs"
      and wB: "wB = store_wallet wl' (logger_warn (HaveToRecreate e) wA)"
      by simp_all
    have "w_name wl' = ?n" using wl' nameW by (simp add: add_account_def)
    then have "pool_getWallet ?n wB = Resolved wl'"
      unfolding wB by (rule pool_getWallet_store)
    moreover have "wallet_getAccount wl' ?i = Resolved njs"
      unfolding wl' using Rejected by (rule wallet_getAccount_add)
    ultimately show ?thesis by simp
  qed (use A in auto)
  from coreSyncAccount_Resolved [OF S] have
    ev: "receive_events env (next_receiver wB) (acc_syncEvents njs) = Resolved unsub"
    and un: "unsub = unsubscribe (next_receiver wB)"
    by simp_all
  have "pool w1 = pool wB"
    using coreSyncAccount_pool [OF S] w1 un by simp
  then have "pool_getWallet ?n w1 = Resolved wl'"
    using PB pool_getWallet_cong by metis
  moreover have "receive_events env 0 (acc_syncEvents njs) = Resolved (unsubscribe 0)"
    using ev by (rule receive_events_other)
  ultimately show ?thesis using PB B s by blast
qed

lemma syncAccount_again:
  assumes first: "syncAccount env raw w = (Resolved s1, w1)"
    and same: "id_walletName (ar_id raw2) = id_walletName (ar_id raw)"
      "ar_index raw2 = ar_index raw" "ar_currencyId raw2 = ar_currencyId raw"
    and pool: "pool w1' = pool w1"
  shows "\<exists>s2 w2. syncAccount env raw2 w1' = (Resolved s2, w2)
       \<and> ar_balance s2 = ar_balance s1 \<and> ar_operations s2 = ar_operations s1"
proof -
  let ?n = "id_walletName (ar_id raw)"
  from syncAccount_Resolved [OF first] obtain wl njs b wb where
    P: "pool_getWallet ?n w1 = Resolved wl"
    and G: "wallet_getAccount wl (ar_index raw) = Resolved njs"
    and E: "receive_events env 0 (acc_syncEvents njs) = Resolved (unsubscribe 0)"
    and B: "buildAccountRaw env njs (isSegwitAccount env raw)
          (isUnsplitAccount env raw (SPLITTED_CURRENCIES (ar_currencyId raw))) wl
          (ar_currencyId raw) (ar_index raw) (acc_operations njs) wb = Resolved b"
    and s1: "s1 = b\<lparr>ar_balance := acc_balance njs\<rparr>"
    by blast
  have P': "pool_getWallet ?n w1' = Resolved wl"
    using P pool_getWallet_cong [OF pool] by simp
  let ?r = "next_receiver w1'"
  let ?wC = "w1'\<lparr>next_receiver := Suc ?r, subscribed := subscribed w1' @ [?r]\<rparr>"
  have S: "coreSyncAccount env njs w1' = (Resolved (unsubscribe ?r), ?wC)"
    using receive_events_other [OF E, of ?r]
    by (simp add: coreSyncAccount_def createEventReceiver_def subscribeToEventBus_def)
  from buildAccountRaw_Resolved_other [OF B] obtain b' where
    B': "buildAccountRaw env njs (isSegwitAccount env raw2)
          (isUnsplitAccount env raw2 (SPLITTED_CURRENCIES (ar_currencyId raw))) wl
          (ar_currencyId raw) (ar_index raw) (acc_operations njs) (unsubscribe ?r ?wC)
          = Resolved b'"
    and eq: "ar_operations b' = ar_operations b" "ar_balance b' = ar_balance b"
    by blast
  have "syncAccount env raw2 w1' = (Resolved (b'\<lparr>ar_balance := acc_balance njs\<rparr>),
      unsubscribe ?r ?wC)"
    by (simp add: syncAccount_def Let_def same P' G S B')
  then show ?thesis using eq s1 by simp
qed



lemma operation_ids:
  "buildAccountRaw env a sg us wl cid i ops w = Resolved b \<Longrightarrow>
   \<forall>x \<in> set (ar_operations b). or_id x = operation_id (ar_xpub b) (or_hash x) (or_type x)"
  by (auto simp: buildAccountRaw_def buildOperationRaw_def Let_def
        split: option.splits list.splits prod.splits)

lemmas sync_defs =
  syncAccount_def getOrCreateWallet_def pool_getWallet_def pool_createWallet_def
  wallet_getAccount_def wallet_newAccountWithExtendedKeyInfo_def logger_warn_def
  unsubscribe_def sync_error_def SPLITTED_CURRENCIES_def failed_event_def



lemma example_sync:
  "\<exists>s1 w1. syncAccount example_env example_raw example_world = (Resolved s1, w1)
     \<and> ar_balance s1 = 3990
     \<and> map or_id (ar_operations s1) = [''xpub0-h2-IN'', ''xpub0-h1-OUT'']
     \<and> subscribed w1 = []
     \<and> warnings w1 = [HaveToReimport (JsError ''WALLET_NOT_FOUND'' ''pk__bitcoin''),
                       HaveToRecreate (JsError ''ACCOUNT_NOT_FOUND'' ''0'')]"
  by (simp add: sync_defs example_raw_def example_defs step_defs string_of_nat.simps)

lemma example_sync_fails:
  "fst (syncAccount failing_sync_env example_raw example_world) = Rejected (ThrownString ''no network'')
   \<and> subscribed (snd (syncAccount failing_sync_env example_raw example_world)) = [0]"
  by (simp add: sync_defs failing_sync_env_def example_raw_def example_defs step_defs
        string_of_nat.simps)


text \<open>
  Claim C4. When a sync of an account resolves with a snapshot, a second sync of the same
  account, from the state the first one left and at any later time, resolves too, with the
  same balance and the same list of operations: the same identifiers in the same order.
  This holds when the second sync is given the same account record, and when it is given
  the snapshot of the first. The identifier of every operation of the snapshot is made of
  the extended public key, the transaction hash and the operation type, and of nothing
  else.
\<close>

theorem syncAccount_idempotent:
  "syncAccount env raw w = (Resolved s1, w1) \<longrightarrow>
     (\<exists>s2 w2. syncAccount env raw (w1\<lparr>now := t\<rparr>) = (Resolved s2, w2)
         \<and> ar_balance s2 = ar_balance s1 \<and> ar_operations s2 = ar_operations s1
         \<and> map or_id (ar_operations s2) = map or_id (ar_operations s1))
     \<and> (\<exists>s3 w3. syncAccount env s1 (w1\<lparr>now := t\<rparr>) = (Resolved s3, w3)
         \<and> ar_balance s3 = ar_balance s1 \<and> ar_operations s3 = ar_operations s1
         \<and> map or_id (ar_operations s3) = map or_id (ar_operations s1))
     \<and> (\<forall>x \<in> set (ar_operations s1).
           or_id x = operation_id (ar_xpub s1) (or_hash x) (or_type x))"
proof
  assume first: "syncAccount env raw w = (Resolved s1, w1)"
  have p: "pool (w1\<lparr>now := t\<rparr>) = pool w1" by simp
  from syncAccount_again [OF first refl refl refl p]
  have a: "\<exists>s2 w2. syncAccount env raw (w1\<lparr>now := t\<rparr>) = (Resolved s2, w2)
         \<and> ar_balance s2 = ar_balance s1 \<and> ar_operations s2 = ar_operations s1
         \<and> map or_id (ar_operations s2) = map or_id (ar_operations s1)"
    by auto
  from syncAccount_Resolved [OF first] obtain wl njs b wb where
    P: "pool_getWallet (id_walletName (ar_id raw)) w1 = Resolved wl"
    and B: "buildAccountRaw env njs (isSegwitAccount env raw)
          (isUnsplitAccount env raw (SPLITTED_CURRENCIES (ar_currencyId raw))) wl
          (ar_currencyId raw) (ar_index raw) (acc_operations njs) wb = Resolved b"
    and s1: "s1 = b\<lparr>ar_balance := acc_balance njs\<rparr>"
    by blast
  from buildAccountRaw_Resolved [OF B] pool_getWallet_name [OF P] s1
  have same: "id_walletName (ar_id s1) = id_walletName (ar_id raw)"
    "ar_index s1 = ar_index raw" "ar_currencyId s1 = ar_currencyId raw"
    by simp_all
  from syncAccount_again [OF first same p]
  have b: "\<exists>s3 w3. syncAccount env s1 (w1\<lparr>now := t\<rparr>) = (Resolved s3, w3)
         \<and> ar_balance s3 = ar_balance s1 \<and> ar_operations s3 = ar_operations s1
         \<and> map or_id (ar_operations s3) = map or_id (ar_operations s1)"
    by auto
  from operation_ids [OF B] s1
  have c: "\<forall>x \<in> set (ar_operations s1).
           or_id x = operation_id (ar_xpub s1) (or_hash x) (or_type x)"
    by simp
  from a b c show "(\<exists>s2 w2. syncAccount env raw (w1\<lparr>now := t\<rparr>) = (Resolved s2, w2)
         \<and> ar_balance s2 = ar_balance s1 \<and> ar_operations s2 = ar_operations s1
         \<and> map or_id (ar_operations s2) = map or_id (ar_operations s1))
     \<and> (\<exists>s3 w3. syncAccount env s1 (w1\<lparr>now := t\<rparr>) = (Resolved s3, w3)
         \<and> ar_balance s3 = ar_balance s1 \<and> ar_operations s3 = ar_operations s1
         \<and> map or_id (ar_operations s3) = map or_id (ar_operations s1))
     \<and> (\<forall>x \<in> set (ar_operations s1).
           or_id x = operation_id (ar_xpub s1) (or_hash x) (or_type x))"
    by (intro conjI)
qed

theorem syncAccount_idempotent_witness:
  "\<exists>s1 w1 s2 w2. syncAccount example_env example_raw example_world = (Resolved s1, w1)
     \<and> syncAccount example_env example_raw (w1\<lparr>now := 5\<rparr>) = (Resolved s2, w2)
     \<and> ar_balance s1 = 3990 \<and> ar_balance s2 = 3990
     \<and> map or_id (ar_operations s1) = [''xpub0-h2-IN'', ''xpub0-h1-OUT'']
     \<and> map or_id (ar_operations s2) = [''xpub0-h2-IN'', ''xpub0-h1-OUT'']"
proof -
  from example_sync obtain s1 w1 where
    e: "syncAccount example_env example_raw example_world = (Resolved s1, w1)"
    and b: "ar_balance s1 = 3990"
    and i: "map or_id (ar_operations s1) = [''xpub0-h2-IN'', ''xpub0-h1-OUT'']"
    by auto
  from syncAccount_idempotent [of example_env example_raw example_world s1 w1 5] e
  obtain s2 w2 where
    e2: "syncAccount example_env example_raw (w1\<lparr>now := 5\<rparr>) = (Resolved s2, w2)"
    and b2: "ar_balance s2 = ar_balance s1"
    and i2: "map or_id (ar_operations s2) = map or_id (ar_operations s1)"
    by blast
  have "syncAccount example_env example_raw example_world = (Resolved s1, w1)
     \<and> syncAccount example_env example_raw (w1\<lparr>now := 5\<rparr>) = (Resolved s2, w2)
     \<and> ar_balance s1 = 3990 \<and> ar_balance s2 = 3990
     \<and> map or_id (ar_operations s1) = [''xpub0-h2-IN'', ''xpub0-h1-OUT'']
     \<and> map or_id (ar_operations s2) = [''xpub0-h2-IN'', ''xpub0-h1-OUT'']"
    using e e2 b b2 i i2 by simp
  then show ?thesis by (intro exI)
qed

lemma map_replace_none:
  "find P xs = None \<Longrightarrow> map (\<lambda>x. if P x then y else x) xs = xs"
  by (induction xs) (auto split: if_splits)

lemma store_wallet_new:
  "find (\<lambda>x. w_name x = w_name wl) (pool w) = None \<Longrightarrow>
   pool (store_wallet wl w) = pool w @ [wl]"
  by (simp add: store_wallet_def)

lemma store_wallet_last:
  assumes "find (\<lambda>x. w_name x = w_name wl) xs = None" "w_name wl' = w_name wl"
    "pool w = xs @ [wl]"
  shows "pool (store_wallet wl' w) = xs @ [wl']"
proof -
  have "find (\<lambda>x. w_name x = w_name wl) (xs @ [wl]) = Some wl"
    using assms(1) by (simp add: find_append_new)
  then show ?thesis
    using assms by (simp add: store_wallet_def map_replace_none)
qed

lemma pool_getWallet_Rejected:
  "pool_getWallet n w = Rejected e \<Longrightarrow> find (\<lambda>x. w_name x = n) (pool w) = None"
  by (simp add: pool_getWallet_def split: option.splits)

lemma frame_misc [simp]:
  "next_receiver (logger_warn x w) = next_receiver w"
  "subscribed (logger_warn x w) = subscribed w"
  "warnings (logger_warn x w) = warnings w @ [x]"
  "now (logger_warn x w) = now w"
  "warnings (unsubscribe r w) = warnings w"
  by (simp_all add: logger_warn_def unsubscribe_def)


text \<open>The sync of an account that the wallet does not hold, given the wallet.\<close>

lemma sync_recreates_account:
  assumes W: "(case pool_getWallet (id_walletName (ar_id raw)) w of
           Rejected e \<Rightarrow> getOrCreateWallet env (id_walletName (ar_id raw)) (ar_currencyId raw)
                          (isSegwitAccount env raw)
                          (isUnsplitAccount env raw (SPLITTED_CURRENCIES (ar_currencyId raw)))
                          (logger_warn (HaveToReimport e) w)
         | r \<Rightarrow> (r, w)) = (Resolved wl, wA)"
    and name: "w_name wl = id_walletName (ar_id raw)"
    and G: "wallet_getAccount wl (ar_index raw) = Rejected e'"
    and N: "indexer_newAccountWithExtendedKeyInfo env wl
              \<lparr>ei_index = ar_index raw, ei_extendedKeys = [id_xpub (ar_id raw)]\<rparr> = Resolved a"
    and E: "receive_events env (next_receiver wA) (acc_syncEvents a) = Resolved u"
    and C: "getCryptoCurrencyById env (ar_currencyId raw) = Some jc"
    and F: "acc_freshPublicAddresses a \<noteq> []"
  shows "\<exists>s w'. syncAccount env raw w = (Resolved s, w')
      \<and> pool_getWallet (id_walletName (ar_id raw)) w' = Resolved (add_account wl (ar_index raw) a)
      \<and> wallet_getAccount (add_account wl (ar_index raw) a) (ar_index raw) = Resolved a
      \<and> warnings w' = warnings wA @ [HaveToRecreate e']
      \<and> subscribed w' = removeAll (next_receiver wA) (subscribed wA @ [next_receiver wA])
      \<and> ar_index s = ar_index raw \<and> ar_xpub s = acc_restoreKey a
      \<and> ar_balance s = acc_balance a
      \<and> ar_operations s =
          map (buildOperationRaw (acc_restoreKey a)) (sort_operations (acc_operations a))
      \<and> pool w' = pool (store_wallet (add_account wl (ar_index raw) a) wA)"
proof -
  let ?n = "id_walletName (ar_id raw)"
  let ?i = "ar_index raw"
  let ?wl' = "add_account wl ?i a"
  let ?wB = "store_wallet ?wl' (logger_warn (HaveToRecreate e') wA)"
  let ?r = "next_receiver wA"
  let ?wC = "?wB\<lparr>next_receiver := Suc ?r, subscribed := subscribed wA @ [?r]\<rparr>"
  have A: "wallet_newAccountWithExtendedKeyInfo env wl
             \<lparr>ei_index = ?i, ei_extendedKeys = [id_xpub (ar_id raw)]\<rparr>
             (logger_warn (HaveToRecreate e') wA) = (Resolved (a, ?wl'), ?wB)"
    by (simp add: wallet_newAccountWithExtendedKeyInfo_def N Let_def)
  have u: "u = unsubscribe ?r" using E by (rule receive_events_Resolved)
  have S: "coreSyncAccount env a ?wB = (Resolved (unsubscribe ?r), ?wC)"
    using E u by (simp add: coreSyncAccount_def createEventReceiver_def subscribeToEventBus_def)
  from buildAccountRaw_succeeds [OF C F] obtain b where
    B: "buildAccountRaw env a (isSegwitAccount env raw)
          (isUnsplitAccount env raw (SPLITTED_CURRENCIES (ar_currencyId raw))) ?wl'
          (ar_currencyId raw) ?i (acc_operations a) (unsubscribe ?r ?wC) = Resolved b"
    by blast
  have sync: "syncAccount env raw w = (Resolved (b\<lparr>ar_balance := acc_balance a\<rparr>),
      unsubscribe ?r ?wC)"
    unfolding syncAccount_def Let_def
    by (simp add: W G A S B cong del: promise.case_cong_weak)
  have "w_name ?wl' = ?n" using name by (simp add: add_account_def)
  then have "pool_getWallet ?n ?wB = Resolved ?wl'" by (rule pool_getWallet_store)
  moreover have "pool (unsubscribe ?r ?wC) = pool ?wB" by simp
  ultimately have P: "pool_getWallet ?n (unsubscribe ?r ?wC) = Resolved ?wl'"
    using pool_getWallet_cong by metis
  have G': "wallet_getAccount ?wl' ?i = Resolved a"
    using G by (rule wallet_getAccount_add)
  have Wn: "warnings (unsubscribe ?r ?wC) = warnings wA @ [HaveToRecreate e']"
    by simp
  have Su: "subscribed (unsubscribe ?r ?wC) = removeAll ?r (subscribed wA @ [?r])"
    by (simp add: unsubscribe_def)
  have Pl: "pool (unsubscribe ?r ?wC) = pool (store_wallet ?wl' wA)"
    by (simp add: store_wallet_def)
  from buildAccountRaw_Resolved [OF B] sync P G' Wn Su Pl show ?thesis
    by (intro exI [of _ "b\<lparr>ar_balance := acc_balance a\<rparr>"] exI [of _ "unsubscribe ?r ?wC"])
       simp
qed


text \<open>
  Claim C8. If the pool has no wallet of the decoded name, a warning is logged and
  \<open>getOrCreateWallet\<close> creates the wallet: given that the pool knows the currency, it
  resolves with a wallet of that name, of that currency, with the configuration of the
  account's kind and without accounts, and the pool holds this wallet, after the ones it
  had. The account is then created in this wallet from the stored extended public key by
  \<open>newAccountWithExtendedKeyInfo\<close>, with a second warning, and if that account synchronizes
  and has a fresh address the sync resolves with its snapshot: the pool then holds the
  wallets it had and the new wallet with the account at the index. If the pool has the
  wallet but the wallet has no account at the index, the account is created in the same
  way, one warning is logged, and the sync resolves with its snapshot.
\<close>

theorem syncAccount_recovers:
  "(pool_getWallet (id_walletName (ar_id raw)) w = Rejected e
      \<and> pool_getCurrency env (ar_currencyId raw) = Resolved cur
      \<and> wl0 = \<lparr>w_name = id_walletName (ar_id raw), w_currency = cur,
                 w_config =
                   (let splitConfig =
                          (if isUnsplitAccount env raw (SPLITTED_CURRENCIES (ar_currencyId raw))
                           then SPLITTED_CURRENCIES (ar_currencyId raw) else None);
                        coinType = (case splitConfig of
                                      Some c \<Rightarrow> string_of_nat (sc_coinType c)
                                    | None \<Rightarrow> ''<coin_type>'')
                    in if isSegwitAccount env raw
                       then [(''KEYCHAIN_ENGINE'', ''BIP49_P2SH''),
                             (''KEYCHAIN_DERIVATION_SCHEME'',
                              ''49'/'' @ coinType @ '''/<account>'/<node>/<address>'')]
                       else if splitConfig \<noteq> None
                       then [(''KEYCHAIN_DERIVATION_SCHEME'',
                              ''44'/'' @ coinType @ '''/<account>'/<node>/<address>'')]
                       else []),
                 w_accounts = []\<rparr>
      \<and> w0 = store_wallet wl0 (logger_warn (HaveToReimport e) w)
      \<and> indexer_newAccountWithExtendedKeyInfo env wl0
            \<lparr>ei_index = ar_index raw, ei_extendedKeys = [id_xpub (ar_id raw)]\<rparr> = Resolved a
      \<and> receive_events env (next_receiver w) (acc_syncEvents a) = Resolved u
      \<and> getCryptoCurrencyById env (ar_currencyId raw) = Some jc
      \<and> acc_freshPublicAddresses a \<noteq> []
    \<longrightarrow> getOrCreateWallet env (id_walletName (ar_id raw)) (ar_currencyId raw)
            (isSegwitAccount env raw)
            (isUnsplitAccount env raw (SPLITTED_CURRENCIES (ar_currencyId raw)))
            (logger_warn (HaveToReimport e) w) = (Resolved wl0, w0)
        \<and> pool w0 = pool w @ [wl0]
        \<and> pool_getWallet (id_walletName (ar_id raw)) w0 = Resolved wl0
        \<and> (\<exists>s w'. syncAccount env raw w = (Resolved s, w')
              \<and> pool w' = pool w @ [add_account wl0 (ar_index raw) a]
              \<and> pool_getWallet (id_walletName (ar_id raw)) w'
                  = Resolved (add_account wl0 (ar_index raw) a)
              \<and> wallet_getAccount (add_account wl0 (ar_index raw) a) (ar_index raw) = Resolved a
              \<and> warnings w' = warnings w @
                    [HaveToReimport e,
                     HaveToRecreate (JsError ''ACCOUNT_NOT_FOUND'' (string_of_nat (ar_index raw)))]
              \<and> ar_index s = ar_index raw \<and> ar_xpub s = acc_restoreKey a
              \<and> ar_balance s = acc_balance a
              \<and> ar_operations s =
                  map (buildOperationRaw (acc_restoreKey a)) (sort_operations (acc_operations a))))
   \<and> (pool_getWallet (id_walletName (ar_id raw)) w = Resolved wl
      \<and> wallet_getAccount wl (ar_index raw) = Rejected e'
      \<and> indexer_newAccountWithExtendedKeyInfo env wl
            \<lparr>ei_index = ar_index raw, ei_extendedKeys = [id_xpub (ar_id raw)]\<rparr> = Resolved a
      \<and> receive_events env (next_receiver w) (acc_syncEvents a) = Resolved u
      \<and> getCryptoCurrencyById env (ar_currencyId raw) = Some jc
      \<and> acc_freshPublicAddresses a \<noteq> []
    \<longrightarrow> (\<exists>s w'. syncAccount env raw w = (Resolved s, w')
              \<and> pool_getWallet (id_walletName (ar_id raw)) w'
                  = Resolved (add_account wl (ar_index raw) a)
              \<and> wallet_getAccount (add_account wl (ar_index raw) a) (ar_index raw) = Resolved a
              \<and> warnings w' = warnings w @ [HaveToRecreate e']
              \<and> ar_index s = ar_index raw \<and> ar_xpub s = acc_restoreKey a
              \<and> ar_balance s = acc_balance a
              \<and> ar_operations s =
                  map (buildOperationRaw (acc_restoreKey a)) (sort_operations (acc_operations a))))"
proof (intro conjI impI; elim conjE)
  let ?n = "id_walletName (ar_id raw)"
  let ?i = "ar_index raw"
  let ?sg = "isSegwitAccount env raw"
  let ?us = "isUnsplitAccount env raw (SPLITTED_CURRENCIES (ar_currencyId raw))"
  let ?info = "\<lparr>ei_index = ?i, ei_extendedKeys = [id_xpub (ar_id raw)]\<rparr>"
  let ?e' = "JsError ''ACCOUNT_NOT_FOUND'' (string_of_nat ?i)"
  let ?cfg = "(let splitConfig = (if ?us then SPLITTED_CURRENCIES (ar_currencyId raw) else None);
                   coinType = (case splitConfig of
                                 Some c \<Rightarrow> string_of_nat (sc_coinType c)
                               | None \<Rightarrow> ''<coin_type>'')
               in if ?sg
                  then [(''KEYCHAIN_ENGINE'', ''BIP49_P2SH''),
                        (''KEYCHAIN_DERIVATION_SCHEME'',
                         ''49'/'' @ coinType @ '''/<account>'/<node>/<address>'')]
                  else if splitConfig \<noteq> None
                  then [(''KEYCHAIN_DERIVATION_SCHEME'',
                         ''44'/'' @ coinType @ '''/<account>'/<node>/<address>'')]
                  else [])"
  assume nf: "pool_getWallet ?n w = Rejected e"
    and cur: "pool_getCurrency env (ar_currencyId raw) = Resolved cur"
    and wl0: "wl0 = \<lparr>w_name = ?n, w_currency = cur, w_config = ?cfg, w_accounts = []\<rparr>"
    and w0: "w0 = store_wallet wl0 (logger_warn (HaveToReimport e) w)"
    and N: "indexer_newAccountWithExtendedKeyInfo env wl0 ?info = Resolved a"
    and E: "receive_events env (next_receiver w) (acc_syncEvents a) = Resolved u"
    and C: "getCryptoCurrencyById env (ar_currencyId raw) = Some jc"
    and F: "acc_freshPublicAddresses a \<noteq> []"
  have nf': "pool_getWallet ?n (logger_warn (HaveToReimport e) w) = Rejected e"
    using nf pool_getWallet_cong [of "logger_warn (HaveToReimport e) w" w ?n] by simp
  have g: "getOrCreateWallet env ?n (ar_currencyId raw) ?sg ?us
              (logger_warn (HaveToReimport e) w) = (Resolved wl0, w0)"
    unfolding getOrCreateWallet_def wl0 w0
    by (simp add: nf' cur pool_createWallet_def Let_def)
  have fresh: "w_name wl0 = ?n" "w_accounts wl0 = []" by (simp_all add: wl0)
  have none: "find (\<lambda>x. w_name x = w_name wl0) (pool w) = None"
    using pool_getWallet_Rejected [OF nf] fresh by simp
  have p0: "pool w0 = pool w @ [wl0]"
    unfolding w0 using none by (simp add: store_wallet_new)
  have g0: "pool_getWallet ?n w0 = Resolved wl0"
    unfolding w0 using fresh(1) by (rule pool_getWallet_store)
  from getOrCreateWallet_frame [OF g]
  have fr: "next_receiver w0 = next_receiver w" "warnings w0 = warnings w @ [HaveToReimport e]"
    by simp_all
  have W: "(case pool_getWallet ?n w of
           Rejected e \<Rightarrow> getOrCreateWallet env ?n (ar_currencyId raw) ?sg ?us
                          (logger_warn (HaveToReimport e) w)
         | r \<Rightarrow> (r, w)) = (Resolved wl0, w0)"
    using nf g by simp
  have G: "wallet_getAccount wl0 ?i = Rejected ?e'"
    using fresh by (simp add: wallet_getAccount_def)
  have E': "receive_events env (next_receiver w0) (acc_syncEvents a) = Resolved u"
    using E fr by simp
  have nm: "w_name (add_account wl0 ?i a) = w_name wl0" by simp
  have pl: "pool (store_wallet (add_account wl0 ?i a) w0) = pool w @ [add_account wl0 ?i a]"
    using none nm p0 by (rule store_wallet_last)
  from sync_recreates_account [OF W fresh(1) G N E' C F] fr pl
  have x: "\<exists>s w'. syncAccount env raw w = (Resolved s, w')
              \<and> pool w' = pool w @ [add_account wl0 ?i a]
              \<and> pool_getWallet ?n w' = Resolved (add_account wl0 ?i a)
              \<and> wallet_getAccount (add_account wl0 ?i a) ?i = Resolved a
              \<and> warnings w' = warnings w @ [HaveToReimport e, HaveToRecreate ?e']
              \<and> ar_index s = ?i \<and> ar_xpub s = acc_restoreKey a
              \<and> ar_balance s = acc_balance a
              \<and> ar_operations s =
                  map (buildOperationRaw (acc_restoreKey a)) (sort_operations (acc_operations a))"
    by auto
  show "getOrCreateWallet env ?n (ar_currencyId raw) ?sg ?us
              (logger_warn (HaveToReimport e) w) = (Resolved wl0, w0)"
    by (rule g)
  show "pool w0 = pool w @ [wl0]" by (rule p0)
  show "pool_getWallet ?n w0 = Resolved wl0" by (rule g0)
  show "\<exists>s w'. syncAccount env raw w = (Resolved s, w')
              \<and> pool w' = pool w @ [add_account wl0 ?i a]
              \<and> pool_getWallet ?n w' = Resolved (add_account wl0 ?i a)
              \<and> wallet_getAccount (add_account wl0 ?i a) ?i = Resolved a
              \<and> warnings w' = warnings w @ [HaveToReimport e, HaveToRecreate ?e']
              \<and> ar_index s = ?i \<and> ar_xpub s = acc_restoreKey a
              \<and> ar_balance s = acc_balance a
              \<and> ar_operations s =
                  map (buildOperationRaw (acc_restoreKey a)) (sort_operations (acc_operations a))"
    by (rule x)
next
  let ?n = "id_walletName (ar_id raw)"
  let ?i = "ar_index raw"
  let ?info = "\<lparr>ei_index = ?i, ei_extendedKeys = [id_xpub (ar_id raw)]\<rparr>"
  assume P: "pool_getWallet ?n w = Resolved wl"
    and G: "wallet_getAccount wl ?i = Rejected e'"
    and N: "indexer_newAccountWithExtendedKeyInfo env wl ?info = Resolved a"
    and E: "receive_events env (next_receiver w) (acc_syncEvents a) = Resolved u"
    and C: "getCryptoCurrencyById env (ar_currencyId raw) = Some jc"
    and F: "acc_freshPublicAddresses a \<noteq> []"
  have W: "(case pool_getWallet ?n w of
           Rejected e \<Rightarrow> getOrCreateWallet env ?n (ar_currencyId raw) (isSegwitAccount env raw)
                          (isUnsplitAccount env raw (SPLITTED_CURRENCIES (ar_currencyId raw)))
                          (logger_warn (HaveToReimport e) w)
         | r \<Rightarrow> (r, w)) = (Resolved wl, w)"
    using P by simp
  from sync_recreates_account [OF W pool_getWallet_name [OF P] G N E C F]
  show "\<exists>s w'. syncAccount env raw w = (Resolved s, w')
              \<and> pool_getWallet ?n w' = Resolved (add_account wl ?i a)
              \<and> wallet_getAccount (add_account wl ?i a) ?i = Resolved a
              \<and> warnings w' = warnings w @ [HaveToRecreate e']
              \<and> ar_index s = ?i \<and> ar_xpub s = acc_restoreKey a
              \<and> ar_balance s = acc_balance a
              \<and> ar_operations s =
                  map (buildOperationRaw (acc_restoreKey a)) (sort_operations (acc_operations a))"
    by auto
qed

theorem syncAccount_recovers_witness:
  "pool_getWallet ''pk__bitcoin'' example_world
     = Rejected (JsError ''WALLET_NOT_FOUND'' ''pk__bitcoin'')
   \<and> getOrCreateWallet example_env ''pk__bitcoin'' ''bitcoin'' False False
        (logger_warn (HaveToReimport (JsError ''WALLET_NOT_FOUND'' ''pk__bitcoin'')) example_world)
      = (Resolved example_wallet,
         store_wallet example_wallet
           (logger_warn (HaveToReimport (JsError ''WALLET_NOT_FOUND'' ''pk__bitcoin''))
              example_world))
   \<and> (\<exists>s w'. syncAccount example_env example_raw example_world = (Resolved s, w')
         \<and> pool w' = [add_account example_wallet 0 used_account]
         \<and> pool_getWallet ''pk__bitcoin'' w' = Resolved (add_account example_wallet 0 used_account)
         \<and> warnings w' = [HaveToReimport (JsError ''WALLET_NOT_FOUND'' ''pk__bitcoin''),
                           HaveToRecreate (JsError ''ACCOUNT_NOT_FOUND'' ''0'')]
         \<and> ar_balance s = 3990)
   \<and> pool_getWallet ''pk__bitcoin'' wallet_world = Resolved example_wallet
   \<and> wallet_getAccount example_wallet 0 = Rejected (JsError ''ACCOUNT_NOT_FOUND'' ''0'')
   \<and> (\<exists>s w'. syncAccount example_env example_raw wallet_world = (Resolved s, w')
         \<and> pool_getWallet ''pk__bitcoin'' w' = Resolved (add_account example_wallet 0 used_account)
         \<and> warnings w' = [HaveToRecreate (JsError ''ACCOUNT_NOT_FOUND'' ''0'')]
         \<and> ar_balance s = 3990)"
proof -
  let ?E0 = "JsError ''WALLET_NOT_FOUND'' ''pk__bitcoin''"
  let ?E1 = "JsError ''ACCOUNT_NOT_FOUND'' ''0''"
  let ?info = "\<lparr>ei_index = ar_index example_raw,
                 ei_extendedKeys = [id_xpub (ar_id example_raw)]\<rparr>"
  let ?w0 = "store_wallet example_wallet (logger_warn (HaveToReimport ?E0) example_world)"
  have raw: "id_walletName (ar_id example_raw) = ''pk__bitcoin''" "ar_index example_raw = 0"
    "ar_currencyId example_raw = ''bitcoin''"
    by (simp_all add: example_raw_def)
  have flags: "isSegwitAccount example_env example_raw = False"
    "\<And>c. isUnsplitAccount example_env example_raw c = False"
    by (simp_all add: example_env_def example_raw_def)
  have h1: "pool_getWallet (id_walletName (ar_id example_raw)) example_world = Rejected ?E0"
    by (simp add: raw pool_getWallet_def example_world_def)
  have h2: "pool_getCurrency example_env (ar_currencyId example_raw) = Resolved ''bitcoin''"
    by (simp add: raw example_env_def)
  have h2': "example_wallet = \<lparr>w_name = id_walletName (ar_id example_raw), w_currency = ''bitcoin'',
                 w_config =
                   (let splitConfig =
                          (if isUnsplitAccount example_env example_raw
                                (SPLITTED_CURRENCIES (ar_currencyId example_raw))
                           then SPLITTED_CURRENCIES (ar_currencyId example_raw) else None);
                        coinType = (case splitConfig of
                                      Some c \<Rightarrow> string_of_nat (sc_coinType c)
                                    | None \<Rightarrow> ''<coin_type>'')
                    in if isSegwitAccount example_env example_raw
                       then [(''KEYCHAIN_ENGINE'', ''BIP49_P2SH''),
                             (''KEYCHAIN_DERIVATION_SCHEME'',
                              ''49'/'' @ coinType @ '''/<account>'/<node>/<address>'')]
                       else if splitConfig \<noteq> None
                       then [(''KEYCHAIN_DERIVATION_SCHEME'',
                              ''44'/'' @ coinType @ '''/<account>'/<node>/<address>'')]
                       else []),
                 w_accounts = []\<rparr>"
    by (simp add: raw flags example_wallet_def Let_def)
  have h2'': "?w0 = store_wallet example_wallet (logger_warn (HaveToReimport ?E0) example_world)"
    by (rule refl)
  have h3: "indexer_newAccountWithExtendedKeyInfo example_env example_wallet ?info
      = Resolved used_account"
    by (simp add: example_env_def)
  have h4: "receive_events example_env (next_receiver example_world)
      (acc_syncEvents used_account) = Resolved (unsubscribe 0)"
    by (simp add: used_account_def succeed_event_def example_world_def)
  have h4': "receive_events example_env (next_receiver wallet_world)
      (acc_syncEvents used_account) = Resolved (unsubscribe 0)"
    by (simp add: used_account_def succeed_event_def example_world_def wallet_world_def)
  have h5: "getCryptoCurrencyById example_env (ar_currencyId example_raw) = Some bitcoin"
    by (simp add: raw example_env_def example_currencies_simps)
  have h6: "acc_freshPublicAddresses used_account \<noteq> []"
    by (simp add: used_account_def)
  have g1: "pool_getWallet (id_walletName (ar_id example_raw)) wallet_world
      = Resolved example_wallet"
    by (simp add: raw pool_getWallet_def wallet_world_def example_world_def example_wallet_def)
  have g2: "wallet_getAccount example_wallet (ar_index example_raw) = Rejected ?E1"
    by (simp add: raw wallet_getAccount_def example_wallet_def string_of_nat.simps)
  note part1 = syncAccount_recovers [THEN conjunct1, rule_format,
      OF conjI [OF h1 conjI [OF h2 conjI [OF h2' conjI [OF h2'' conjI [OF h3 conjI [OF h4
        conjI [OF h5 h6]]]]]]]]
  note part2 = syncAccount_recovers [THEN conjunct2, rule_format,
      OF conjI [OF g1 conjI [OF g2 conjI [OF h3 conjI [OF h4' conjI [OF h5 h6]]]]]]
  have bal: "acc_balance used_account = 3990" by (simp add: used_account_def)
  have w0: "warnings example_world = []" "warnings wallet_world = []" "pool example_world = []"
    by (simp_all add: example_world_def wallet_world_def)
  have s0: "string_of_nat 0 = ''0''" by (simp add: string_of_nat.simps)
  from part1 have x0: "getOrCreateWallet example_env ''pk__bitcoin'' ''bitcoin'' False False
        (logger_warn (HaveToReimport ?E0) example_world) = (Resolved example_wallet, ?w0)"
    by (simp add: raw flags)
  from part1 have x1: "\<exists>s w'. syncAccount example_env example_raw example_world = (Resolved s, w')
         \<and> pool w' = [add_account example_wallet 0 used_account]
         \<and> pool_getWallet ''pk__bitcoin'' w' = Resolved (add_account example_wallet 0 used_account)
         \<and> warnings w' = [HaveToReimport ?E0, HaveToRecreate ?E1]
         \<and> ar_balance s = 3990"
    by (auto simp: raw bal w0 s0)
  from part2 have x2: "\<exists>s w'. syncAccount example_env example_raw wallet_world = (Resolved s, w')
         \<and> pool_getWallet ''pk__bitcoin'' w' = Resolved (add_account example_wallet 0 used_account)
         \<and> warnings w' = [HaveToRecreate ?E1]
         \<and> ar_balance s = 3990"
    by (auto simp: raw bal w0 s0)
  from h1 x0 x1 g1 g2 x2 show ?thesis by (simp add: raw)
qed

text \<open>
  A pass that resolves has subscribed one receiver for each account it probed, and all of
  them are still subscribed at its end.
\<close>

lemma scanNextAccount_subscribed:
  assumes "scanNextAccount fuel env props w = (Resolved accs, w')"
  shows "\<exists>n. 0 < n \<and> subscribed w' = subscribed w @ [next_receiver w ..< next_receiver w + n]
       \<and> next_receiver w' = next_receiver w + n
       \<and> length (probed w') = length (probed w) + n"
  using assms
proof (induction fuel arbitrary: props w accs)
  case 0
  then show ?case by (simp add: scanNextAccount.simps)
next
  case (Suc n)
  let ?i = "sp_accountIndex props"
  from scanNextAccount_Suc_Resolved [OF Suc.prems]
  obtain njs wl' w1 unsub w2 account where
    ob: "(if ?i < sp_accountsCount props
      then await (wallet_getAccount (sp_wallet props) ?i, w)
             (\<lambda>a w. (Resolved (a, sp_wallet props), w))
      else createAccount env (sp_wallet props) (sp_hwApp props) w) = (Resolved (njs, wl'), w1)"
    and sy: "coreSyncAccount env njs (w1\<lparr>probed := probed w1 @ [(?i, njs)]\<rparr>) = (Resolved unsub, w2)"
    and rest: "if acc_operations njs = []
        then accs = (if sp_showNewAccount props then sp_accounts props @ [account]
                     else sp_accounts props)
             \<and> w' = (if sp_showNewAccount props then onAccountScanned account w2 else w2)
        else scanNextAccount n env
               (props\<lparr>sp_accountIndex := ?i + 1, sp_accounts := sp_accounts props @ [account],
                      sp_wallet := wl'\<rparr>) (onAccountScanned account w2) = (Resolved accs, w')"
    by blast
  note f1 = obtain_frame [OF ob]
  note f2 = coreSyncAccount_frame [OF sy]
  have su2: "subscribed w2 = subscribed w @ [next_receiver w]"
    and nr2: "next_receiver w2 = next_receiver w + 1"
    and pr2: "probed w2 = probed w @ [(?i, njs)]"
    using f1 f2 by simp_all
  show ?case
  proof (cases "acc_operations njs = []")
    case True
    with rest have "subscribed w' = subscribed w2" "next_receiver w' = next_receiver w2"
      "probed w' = probed w2"
      by (simp_all add: onAccountScanned_def)
    with su2 nr2 pr2 show ?thesis
      by (intro exI [of _ 1]) (simp add: upt_rec)
  next
    case False
    let ?w3 = "onAccountScanned account w2"
    from False rest Suc.IH obtain m where
      m: "0 < m" "subscribed w' = subscribed ?w3 @ [next_receiver ?w3 ..< next_receiver ?w3 + m]"
        "next_receiver w' = next_receiver ?w3 + m" "length (probed w') = length (probed ?w3) + m"
      by (simp del: upt_Suc) blast
    have "[next_receiver w ..< next_receiver w + Suc m]
        = next_receiver w # [next_receiver w + 1 ..< next_receiver w + 1 + m]"
      by (simp add: upt_rec)
    with m su2 nr2 pr2 show ?thesis
      by (intro exI [of _ "Suc m"]) (simp add: onAccountScanned_def)
  qed
qed


text \<open>
  Claim C10, where the program departs from it. Each synchronization subscribes one
  receiver. A pass of \<open>scanNextAccount\<close> that resolves leaves every receiver it subscribed
  on the bus (in the example the receivers 0 and 1): it drops the function that
  \<open>coreSyncAccount\<close> resolves with. A \<open>syncAccount\<close> whose synchronization fails leaves its
  receiver (0) subscribed: the receiver rejects without unsubscribing. Only a \<open>syncAccount\<close>
  whose synchronization succeeds unsubscribes.
\<close>

theorem subscriptions_left:
  "subscribed example_world = []
   \<and> (\<exists>accs. fst (scanNextAccount fuel3 example_env example_props example_world) = Resolved accs)
   \<and> subscribed (snd (scanNextAccount fuel3 example_env example_props example_world)) = [0, 1]
   \<and> fst (syncAccount failing_sync_env example_raw example_world)
       = Rejected (ThrownString ''no network'')
   \<and> subscribed (snd (syncAccount failing_sync_env example_raw example_world)) = [0]
   \<and> (\<exists>s. fst (syncAccount example_env example_raw example_world) = Resolved s)
   \<and> subscribed (snd (syncAccount example_env example_raw example_world)) = []"
  by (simp add: sync_defs failing_sync_env_def example_raw_def example_defs step_defs
        string_of_nat.simps scanNextAccount.simps fuel3_def)

end
